theory Spec2Isabelle
  imports Main
begin

section \<open>Document values\<close>

text \<open>
  Documents, modifiers and field values are plain JavaScript data. Objects keep their
  keys in insertion order (the order \<open>_.keys\<close>, \<open>_.pairs\<close> and \<open>_.each\<close> enumerate),
  so an object is an association list. Numbers are integers (no floating point). A
  property read can leave the data: \<open>doc.constructor\<close> is a function of the host, found
  on the prototype of the document. Such a function or object of the host is a value
  \<open>JHost\<close>, known by its name only.
\<close>

datatype jsval =
    JUndef
  | JNull
  | JBool bool
  | JNum int
  | JStr string
  | JArr "jsval list"
  | JObj "(string \<times> jsval) list"
  | JHost string

datatype error =
    TypeError
  | DuplicateKey
  | InvalidDocument
  | StoreError string
  | MeteorError string string

text \<open>JavaScript truthiness, as used by \<open>obj ? ... : ...\<close>, \<open>if (obj)\<close> and \<open>!x\<close>.\<close>

fun truthy :: "jsval \<Rightarrow> bool" where
  "truthy JUndef = False"
| "truthy JNull = False"
| "truthy (JBool b) = b"
| "truthy (JNum n) = (n \<noteq> 0)"
| "truthy (JStr s) = (s \<noteq> [])"
| "truthy (JArr xs) = True"
| "truthy (JObj kvs) = True"
| "truthy (JHost n) = True"


text \<open>A property name that is a canonical array index: decimal digits, no leading zero.\<close>

definition digit_chars :: "char list" where
  "digit_chars = ''0123456789''"

fun digit_value :: "char \<Rightarrow> nat" where
  "digit_value c = length (takeWhile (\<lambda>d. d \<noteq> c) digit_chars)"

definition array_index :: "string \<Rightarrow> nat option" where
  "array_index s =
     (if s \<noteq> [] \<and> list_all (\<lambda>c. c \<in> set digit_chars) s \<and> (length s = 1 \<or> hd s \<noteq> CHR ''0'')
      then Some (foldl (\<lambda>n c. 10 * n + digit_value c) 0 s)
      else None)"

text \<open>
  The own data properties of a value: the keys of an object, the \<open>length\<close> and the
  elements of an array or a string. \<open>None\<close>: the value has no own property of that name.
\<close>

fun ownProp :: "jsval \<Rightarrow> string \<Rightarrow> jsval option" where
  "ownProp (JObj kvs) key = map_of kvs key"
| "ownProp (JArr xs) key =
     (if key = ''length'' then Some (JNum (int (length xs)))
      else (case array_index key of
              None \<Rightarrow> None
            | Some i \<Rightarrow> if i < length xs then Some (xs ! i) else None))"
| "ownProp (JStr s) key =
     (if key = ''length'' then Some (JNum (int (length s)))
      else (case array_index key of
              None \<Rightarrow> None
            | Some i \<Rightarrow> if i < length s then Some (JStr [s ! i]) else None))"
| "ownProp v key = None"

text \<open>
  What the host finds for \<open>obj[key]\<close> when \<open>obj\<close> has no own property \<open>key\<close>: the
  properties of the built-in prototypes (\<open>Object.prototype.constructor\<close>,
  \<open>String.prototype.charAt\<close>, ...) and every property of a host function or object.
  They differ between engines, so they are a parameter: \<open>None\<close> when the prototype
  chain of the value has no such property, the value of the property, or the exception
  its getter throws.
\<close>

type_synonym host = "jsval \<Rightarrow> string \<Rightarrow> (error + jsval) option"

text \<open>
  \<open>obj[key]\<close>: reading a property of \<open>null\<close> or \<open>undefined\<close> throws a TypeError; an
  own property shadows an inherited one; a property found nowhere reads as
  \<open>undefined\<close>.
\<close>

definition getProp :: "host \<Rightarrow> jsval \<Rightarrow> string \<Rightarrow> error + jsval" where
  "getProp h obj key =
     (if obj = JUndef \<or> obj = JNull then Inl TypeError
      else (case ownProp obj key of
              Some v \<Rightarrow> Inr v
            | None \<Rightarrow> (case h obj key of None \<Rightarrow> Inr JUndef | Some r \<Rightarrow> r)))"

section \<open>Dotted keys\<close>

text \<open>\<open>key.split('.')\<close> and \<open>pieces.join('.')\<close>.\<close>

fun split_dot :: "string \<Rightarrow> string list" where
  "split_dot [] = [[]]"
| "split_dot (c # cs) =
     (if c = CHR ''.'' then [] # split_dot cs
      else (case split_dot cs of [] \<Rightarrow> [[c]] | p # ps \<Rightarrow> (c # p) # ps))"

fun join_dot :: "string list \<Rightarrow> string" where
  "join_dot [] = []"
| "join_dot [p] = p"
| "join_dot (p # q # ps) = p @ CHR ''.'' # join_dot (q # ps)"

lemma split_dot_nonempty: "split_dot s \<noteq> []"
  by (induction s) (auto split: list.splits)

lemma join_split_dot: "join_dot (split_dot s) = s"
proof (induction s)
  case Nil
  show ?case by simp
next
  case (Cons c cs)
  obtain p ps where sp: "split_dot cs = p # ps"
    using split_dot_nonempty [of cs] by (cases "split_dot cs") auto
  show ?case
  proof (cases "c = CHR ''.''")
    case True
    with Cons sp show ?thesis by simp
  next
    case False
    with Cons sp show ?thesis by (cases ps) auto
  qed
qed

lemma length_join_tl:
  assumes "1 < length (split_dot key)"
  shows "length (join_dot (tl (split_dot key))) < length key"
proof -
  obtain p q ps where sp: "split_dot key = p # q # ps"
    using assms by (cases "split_dot key"; cases "tl (split_dot key)") auto
  have "length (join_dot (p # q # ps)) = length key"
    using join_split_dot [of key] sp by simp
  then show ?thesis using sp by simp
qed

section \<open>The dotted-path lookup\<close>

text \<open>
  \<open>Transact.prototype._drillDown\<close>: given a dot delimited key and an object, find the
  value. A falsy intermediate value is replaced by the empty object \<open>{}\<close>; a falsy
  object at the last piece yields \<open>undefined\<close>.
\<close>

function drillDown :: "host \<Rightarrow> jsval \<Rightarrow> string \<Rightarrow> error + jsval" where
  "drillDown h obj key =
     (let pieces = split_dot key in
      if 1 < length pieces then
        (case (if truthy obj then getProp h obj (hd pieces) else Inr (JObj [])) of
           Inl e \<Rightarrow> Inl e
         | Inr newObj \<Rightarrow> drillDown h newObj (join_dot (tl pieces)))
      else if truthy obj then getProp h obj key
      else Inr JUndef)"
  by pat_completeness auto
termination
  by (relation "measure (\<lambda>(h, obj, key). length key)") (auto simp: length_join_tl)

declare drillDown.simps [simp del]

section \<open>Objects, modifiers and selectors\<close>

text \<open>\<open>obj[k] = v\<close> on an object: an existing key keeps its place, a new key goes last.\<close>

fun obj_put :: "string \<Rightarrow> 'v \<Rightarrow> (string \<times> 'v) list \<Rightarrow> (string \<times> 'v) list" where
  "obj_put k v [] = [(k, v)]"
| "obj_put k v ((k', v') # kvs) =
     (if k' = k then (k, v) # kvs else (k', v') # obj_put k v kvs)"

text \<open>\<open>delete obj[k]\<close> and \<open>_.extend(obj, src)\<close>.\<close>

definition obj_delete :: "string \<Rightarrow> (string \<times> 'v) list \<Rightarrow> (string \<times> 'v) list" where
  "obj_delete k kvs = filter (\<lambda>kv. fst kv \<noteq> k) kvs"

definition obj_extend :: "(string \<times> 'v) list \<Rightarrow> (string \<times> 'v) list \<Rightarrow> (string \<times> 'v) list" where
  "obj_extend kvs src = fold (\<lambda>kv acc. obj_put (fst kv) (snd kv) acc) src kvs"

text \<open>
  \<open>_.extend(doc, src)\<close> with a non-empty \<open>src\<close> on a document value. Underscore runs
  \<open>doc[prop] = src[prop]\<close> for every key of \<open>src\<close> and returns \<open>doc\<close>: the assignment
  throws a TypeError on \<open>undefined\<close> and \<open>null\<close>, and is without effect on a number, a
  string or a boolean. Only an object takes the new keys in the model; an array or a
  host object comes back as it is.
\<close>

fun extend_doc :: "jsval \<Rightarrow> (string \<times> jsval) list \<Rightarrow> error + jsval" where
  "extend_doc JUndef src = Inl TypeError"
| "extend_doc JNull src = Inl TypeError"
| "extend_doc (JObj kvs) src = Inr (JObj (obj_extend kvs src))"
| "extend_doc v src = Inr v"

text \<open>
  \<open>_.isObject\<close>, \<open>_.isString\<close>, and the read of a field whose name (\<open>_id\<close>,
  \<open>transaction_id\<close>, \<open>deleted\<close>) no prototype defines: the own property, or
  \<open>undefined\<close>. The package reads \<open>doc._id\<close> behind an \<open>_.isObject(doc)\<close> test, and
  Mongo matches a selector against the fields of a stored document.
\<close>

fun isObject :: "jsval \<Rightarrow> bool" where
  "isObject (JObj kvs) = True"
| "isObject (JArr xs) = True"
| "isObject (JHost n) = True"
| "isObject v = False"

fun isString :: "jsval \<Rightarrow> bool" where
  "isString (JStr s) = True"
| "isString v = False"

definition field :: "jsval \<Rightarrow> string \<Rightarrow> jsval" where
  "field d k = (case ownProp d k of None \<Rightarrow> JUndef | Some v \<Rightarrow> v)"

fun has_key :: "jsval \<Rightarrow> string \<Rightarrow> bool" where
  "has_key (JObj kvs) k = (map_of kvs k \<noteq> None)"
| "has_key v k = False"

text \<open>A Mongo modifier \<open>{$set: {...}, $unset: {...}}\<close>: command to update map.\<close>

type_synonym modifier = "(string \<times> (string \<times> jsval) list) list"

text \<open>
  The selectors the package builds. Meteor rewrites a selector whose \<open>_id\<close> is falsy to
  one that matches nothing; \<open>{transaction_id: null}\<close> also matches a missing field.
\<close>

datatype selector =
    SelId jsval
  | SelIdNotDeleted jsval
  | SelIdTx jsval jsval
  | SelIdOtherTx jsval jsval

fun matches :: "selector \<Rightarrow> jsval \<Rightarrow> bool" where
  "matches (SelId i) d = (truthy i \<and> field d ''_id'' = i)"
| "matches (SelIdNotDeleted i) d =
     (truthy i \<and> field d ''_id'' = i \<and> \<not> has_key d ''deleted'')"
| "matches (SelIdTx i t) d =
     (truthy i \<and> field d ''_id'' = i \<and>
      (if t = JNull then field d ''transaction_id'' = JNull \<or> field d ''transaction_id'' = JUndef
       else field d ''transaction_id'' = t))"
| "matches (SelIdOtherTx i t) d =
     (truthy i \<and> field d ''_id'' = i \<and> has_key d ''transaction_id'' \<and>
      field d ''transaction_id'' \<noteq> t)"

section \<open>Transaction records\<close>

text \<open>
  An operation \<open>{command, data}\<close>. \<open>_packageForStorage\<close> turns the data object into an
  array of \<open>{key, value}\<close> pairs in key order, which is the association list itself;
  \<open>_unpackageForUpdate\<close> builds the object back, a later pair overwriting an earlier one
  of the same key. The command is \<open>undefined\<close> (\<open>None\<close>) when the inverse table has no
  entry.
\<close>

record operation =
  command :: "string option"
  data :: "(string \<times> jsval) list"

definition packageForStorage :: "operation \<Rightarrow> operation" where
  "packageForStorage update = \<lparr>command = command update, data = data update\<rparr>"

definition unpackageForUpdate :: "(string \<times> jsval) list \<Rightarrow> (string \<times> jsval) list" where
  "unpackageForUpdate dat = obj_extend [] dat"

text \<open>
  An item of the ledger: \<open>{collection, _id, instant?}\<close> and the payload of its kind
  (\<open>newDoc\<close>; \<open>doc\<close>; \<open>update\<close> and \<open>inverse\<close>). A key that is absent is \<open>None\<close>.
\<close>

record item =
  collection :: string
  item_id :: jsval
  instant :: bool
  newDoc :: "jsval option"
  doc :: "jsval option"
  update_op :: "operation option"
  inverse_op :: "operation option"

datatype itype = Inserted | Updated | Removed

text \<open>The ledger \<open>_items\<close>: a key exists once an item of that type was pushed.\<close>

record ledger =
  inserted :: "item list option"
  updated :: "item list option"
  removed :: "item list option"

definition empty_ledger :: ledger where
  "empty_ledger = \<lparr>inserted = None, updated = None, removed = None\<rparr>"

text \<open>\<open>_.isEmpty(this._items)\<close>: the object has no key.\<close>

definition ledger_isEmpty :: "ledger \<Rightarrow> bool" where
  "ledger_isEmpty l = (inserted l = None \<and> updated l = None \<and> removed l = None)"

text \<open>\<open>_.isArray(items.removed)\<close> followed by \<open>_.each\<close>: the items to visit.\<close>

definition items_of :: "item list option \<Rightarrow> item list" where
  "items_of xs = (case xs of None \<Rightarrow> [] | Some l \<Rightarrow> l)"

text \<open>A document of the \<open>transactions\<close> collection.\<close>

record txrecord =
  tx_id :: string
  user_id :: "string option"
  timestamp :: nat
  description :: string
  tx_context :: "(string \<times> jsval) list option"
  tx_items :: "ledger option"
  undone :: "nat option"
  expired :: bool

section \<open>The inverse synthesizer\<close>

text \<open>The table \<open>_inverseOps\<close>; a command that is not a key reads as \<open>undefined\<close>.\<close>

definition inverseOps :: "string \<Rightarrow> string option" where
  "inverseOps c =
     map_of [(''$set'', ''$set''), (''$addToSet'', ''$pull''), (''$unset'', ''$set''),
             (''$pull'', ''$addToSet''), (''$inc'', ''$set''), (''$push'', ''$set'')] c"

text \<open>
  The body of \<open>_.each(_.keys(updateMap), ...)\<close> in \<open>Transact.prototype.update\<close>: the
  loop state is the variable \<open>inverseCommand\<close> and the object \<open>formerValues\<close>, both
  shared by all keys of one update map.
\<close>

fun formerValues_loop ::
  "host \<Rightarrow> jsval \<Rightarrow> string list \<Rightarrow> string option \<times> (string \<times> jsval) list \<Rightarrow>
   error + (string option \<times> (string \<times> jsval) list)" where
  "formerValues_loop h existingDoc [] acc = Inr acc"
| "formerValues_loop h existingDoc (keyName # ks) (inverseCommand, formerValues) =
     (case drillDown h existingDoc keyName of
        Inl e \<Rightarrow> Inl e
      | Inr formerVal \<Rightarrow>
          formerValues_loop h existingDoc ks
            (if formerVal \<noteq> JUndef then (inverseCommand, obj_put keyName formerVal formerValues)
             else (Some ''$unset'', obj_put keyName (JStr []) formerValues)))"

text \<open>
  The \<open>switch (inverseCommand)\<close> of \<open>Transact.prototype.update\<close>, which builds
  \<open>{command: inverseCommand, data: formerValues}\<close>: \<open>$pull\<close> and \<open>$addToSet\<close> take the
  update map itself, \<open>$pullAll\<close> and \<open>$pushAll\<close> leave \<open>formerValues\<close> empty, and every
  other value (\<open>$set\<close>, \<open>$unset\<close>, \<open>$inc\<close> and the \<open>default\<close> label, which falls
  through) runs the loop over the keys.
\<close>

definition synthesizeInverse ::
  "host \<Rightarrow> string \<Rightarrow> (string \<times> jsval) list \<Rightarrow> jsval \<Rightarrow> error + operation" where
  "synthesizeInverse h cmd updateMap existingDoc =
     (let inverseCommand = inverseOps cmd in
      if inverseCommand = Some ''$pull'' \<or> inverseCommand = Some ''$addToSet''
      then Inr \<lparr>command = inverseCommand, data = updateMap\<rparr>
      else if inverseCommand = Some ''$pullAll'' \<or> inverseCommand = Some ''$pushAll''
      then Inr \<lparr>command = inverseCommand, data = []\<rparr>
      else (case formerValues_loop h existingDoc (map fst updateMap) (inverseCommand, []) of
              Inl e \<Rightarrow> Inl e
            | Inr (c, formerValues) \<Rightarrow> Inr \<lparr>command = c, data = formerValues\<rparr>))"

section \<open>The manager, its configuration and the store\<close>

text \<open>
  The options object of an action, after \<open>opt = opt.tx\<close> when the application nests it.
  A user callback is no part of the model: every call is made without one, and the
  collection2 branch of \<open>doInsert\<close> (a collection with \<open>attachSchema\<close>) is not taken.
\<close>

record options =
  opt_instant :: bool
  overridePermissionCheck :: bool
  opt_context :: "(string \<times> jsval) list option"
  opt_softDelete :: "bool option"
  opt_inverse :: "operation option"

text \<open>
  What an application configures or supplies, fixed while one call runs: the flags of
  the \<open>Transact\<close> constructor, \<open>Meteor.userId()\<close>, \<open>Meteor.isServer\<close>, the permission
  and context callbacks, the names registered in \<open>tx.collectionIndex\<close>, and three
  collaborators that are not code of the package: \<open>Random.id()\<close> as the sequence
  \<open>randomId\<close> of the ids it draws, Mongo's modifier engine \<open>applyModifier\<close>, which
  may reject a modifier, and the built-in prototypes of the host as \<open>prototypes\<close>.
\<close>

record env =
  requireUser :: bool
  userId :: "string option"
  isServer :: bool
  softDelete :: bool
  logging :: bool
  checkPermission :: "string \<Rightarrow> string \<Rightarrow> jsval \<Rightarrow> modifier \<Rightarrow> bool"
  makeContext :: "string \<Rightarrow> string \<Rightarrow> jsval \<Rightarrow> modifier \<Rightarrow> (string \<times> jsval) list"
  collectionIndex :: "string \<Rightarrow> bool"
  randomId :: "nat \<Rightarrow> string"
  applyModifier :: "modifier \<Rightarrow> jsval \<Rightarrow> error + jsval"
  prototypes :: host

text \<open>
  A queued action. The closures pushed on \<open>_executionStack\<close> capture the collection,
  the document or id, the modifier, the options and, for an update, the variables
  \<open>updateData\<close> and \<open>inverse\<close> of the call.
\<close>

datatype thunk =
    InsertThunk string jsval "options option"
  | RemoveThunk string jsval selector "options option"
  | UpdateThunk string jsval modifier string operation "options option"

datatype logmsg =
    Msg string
  | ErrMsg error
  | DocMsg jsval
  | ItemsMsg ledger

text \<open>
  The mutable state: the collections of the document store by name, the
  \<open>transactions\<close> collection, the number of ids drawn, the clock, the console, and the
  fields of the \<open>Transact\<close> object (\<open>_rollback\<close> is \<open>rollback_flag\<close>, \<open>_context\<close> is
  \<open>context_obj\<close>; \<open>_lastTransactionData\<close>
  holds \<open>transaction_id\<close> and \<open>writes\<close>).
\<close>

record world =
  db :: "string \<Rightarrow> jsval list"
  transactions :: "txrecord list"
  draws :: nat
  clock :: nat
  console :: "logmsg list"
  transaction_id :: "string option"
  autoTransaction :: bool
  executionStack :: "thunk list"
  items :: ledger
  startAttempts :: int
  rollback_flag :: bool
  rollbackReason :: string
  context_obj :: "(string \<times> jsval) list"
  lastTransactionData :: "(string option \<times> ledger option) option"

text \<open>\<open>this.log(...)\<close>: one console line per argument when logging is on.\<close>

definition tx_log :: "env \<Rightarrow> logmsg list \<Rightarrow> world \<Rightarrow> world" where
  "tx_log e ms w = (if logging e then w\<lparr>console := console w @ ms\<rparr> else w)"

text \<open>\<open>tx.requireUser && !Meteor.userId()\<close>.\<close>

definition noUser :: "env \<Rightarrow> bool" where
  "noUser e = (requireUser e \<and> userId e = None)"

text \<open>\<open>self._transaction_id\<close> as a value: \<open>null\<close> while no transaction is open.\<close>

definition txval :: "world \<Rightarrow> jsval" where
  "txval w = (case transaction_id w of None \<Rightarrow> JNull | Some t \<Rightarrow> JStr t)"

subsection \<open>The document store\<close>

text \<open>\<open>collection.findOne(sel)\<close> and \<open>collection.find(sel).count()\<close>.\<close>

definition findOne :: "world \<Rightarrow> string \<Rightarrow> selector \<Rightarrow> jsval" where
  "findOne w c sel = (case filter (matches sel) (db w c) of [] \<Rightarrow> JUndef | d # ds \<Rightarrow> d)"

definition count_docs :: "world \<Rightarrow> string \<Rightarrow> selector \<Rightarrow> nat" where
  "count_docs w c sel = length (filter (matches sel) (db w c))"

text \<open>
  \<open>collection.insert(doc)\<close>: the document must be an object; a document without \<open>_id\<close>
  gets a drawn one; an \<open>_id\<close> must be a non-empty string; a second document of the same
  \<open>_id\<close> is a duplicate key error. The result is the \<open>_id\<close>.
\<close>

fun valid_id :: "jsval \<Rightarrow> bool" where
  "valid_id (JStr s) = (s \<noteq> [])"
| "valid_id v = False"

definition coll_insert :: "env \<Rightarrow> string \<Rightarrow> jsval \<Rightarrow> world \<Rightarrow> world \<times> (error + jsval)" where
  "coll_insert e c d w =
     (case d of
        JObj kvs \<Rightarrow>
          (case map_of kvs ''_id'' of
             None \<Rightarrow>
               (let i = JStr (randomId e (draws w)); w1 = w\<lparr>draws := Suc (draws w)\<rparr> in
                if \<not> valid_id i then (w1, Inl InvalidDocument)
                else if list_ex (\<lambda>x. field x ''_id'' = i) (db w1 c) then (w1, Inl DuplicateKey)
                else (w1\<lparr>db := (db w1)(c := db w1 c @ [JObj ((''_id'', i) # kvs)])\<rparr>, Inr i))
           | Some i \<Rightarrow>
               if \<not> valid_id i then (w, Inl InvalidDocument)
               else if list_ex (\<lambda>x. field x ''_id'' = i) (db w c) then (w, Inl DuplicateKey)
               else (w\<lparr>db := (db w)(c := db w c @ [d])\<rparr>, Inr i))
      | _ \<Rightarrow> (w, Inl InvalidDocument))"

text \<open>\<open>collection.remove(sel)\<close>: every matching document goes.\<close>

definition coll_remove :: "string \<Rightarrow> selector \<Rightarrow> world \<Rightarrow> world" where
  "coll_remove c sel w = w\<lparr>db := (db w)(c := filter (\<lambda>d. \<not> matches sel d) (db w c))\<rparr>"

text \<open>
  \<open>collection.update(sel, modifier)\<close>: the first matching document is rewritten by the
  modifier engine, whose error is thrown; no match is no change.
\<close>

fun update_first ::
  "(jsval \<Rightarrow> bool) \<Rightarrow> (jsval \<Rightarrow> error + jsval) \<Rightarrow> jsval list \<Rightarrow> error + jsval list" where
  "update_first P f [] = Inr []"
| "update_first P f (d # ds) =
     (if P d then (case f d of Inl er \<Rightarrow> Inl er | Inr d' \<Rightarrow> Inr (d' # ds))
      else (case update_first P f ds of Inl er \<Rightarrow> Inl er | Inr ds' \<Rightarrow> Inr (d # ds')))"

definition coll_update ::
  "env \<Rightarrow> string \<Rightarrow> selector \<Rightarrow> modifier \<Rightarrow> world \<Rightarrow> world \<times> error option" where
  "coll_update e c sel m w =
     (case update_first (matches sel) (applyModifier e m) (db w c) of
        Inl er \<Rightarrow> (w, Some er)
      | Inr ds \<Rightarrow> (w\<lparr>db := (db w)(c := ds)\<rparr>, None))"

text \<open>
  The same three calls through \<open>tx.collectionIndex[name]\<close>: a name that is not
  registered reads as \<open>undefined\<close>, and the method call on it throws a TypeError.
\<close>

definition index_insert :: "env \<Rightarrow> string \<Rightarrow> jsval \<Rightarrow> world \<Rightarrow> world \<times> error option" where
  "index_insert e c d w =
     (if collectionIndex e c
      then (case coll_insert e c d w of (w', Inl er) \<Rightarrow> (w', Some er) | (w', Inr i) \<Rightarrow> (w', None))
      else (w, Some TypeError))"

definition index_update ::
  "env \<Rightarrow> string \<Rightarrow> selector \<Rightarrow> modifier \<Rightarrow> world \<Rightarrow> world \<times> error option" where
  "index_update e c sel m w =
     (if collectionIndex e c then coll_update e c sel m w else (w, Some TypeError))"

definition index_remove :: "env \<Rightarrow> string \<Rightarrow> selector \<Rightarrow> world \<Rightarrow> world \<times> error option" where
  "index_remove e c sel w =
     (if collectionIndex e c then (coll_remove c sel w, None) else (w, Some TypeError))"

subsection \<open>The transactions collection\<close>

text \<open>\<open>Transactions.remove({_id: id})\<close>; a \<open>null\<close> id matches nothing.\<close>

definition Transactions_remove :: "string option \<Rightarrow> world \<Rightarrow> world" where
  "Transactions_remove i w =
     (case i of
        None \<Rightarrow> w
      | Some t \<Rightarrow> w\<lparr>transactions := filter (\<lambda>r. tx_id r \<noteq> t) (transactions w)\<rparr>)"

text \<open>\<open>Transactions.update({_id: id}, {$set: ...})\<close> rewrites the first record of that id.\<close>

fun Transactions_modify :: "string \<Rightarrow> (txrecord \<Rightarrow> txrecord) \<Rightarrow> txrecord list \<Rightarrow> txrecord list" where
  "Transactions_modify t f [] = []"
| "Transactions_modify t f (r # rs) =
     (if tx_id r = t then f r # rs else r # Transactions_modify t f rs)"

definition Transactions_update :: "string \<Rightarrow> (txrecord \<Rightarrow> txrecord) \<Rightarrow> world \<Rightarrow> world" where
  "Transactions_update t f w = w\<lparr>transactions := Transactions_modify t f (transactions w)\<rparr>"

section \<open>The transaction lifecycle\<close>

text \<open>
  The console lines keep the constant text of the source's messages; the ids and
  descriptions concatenated into them are left out. The idle timer of
  \<open>_resetAutoCancel\<close> is asynchronous and is not modelled: when it fires it calls
  \<open>rollback\<close>, which is an operation of its own below.
\<close>

text \<open>\<open>Transact.prototype._cleanReset\<close>.\<close>

definition cleanReset :: "world \<Rightarrow> world" where
  "cleanReset w =
     w\<lparr>transaction_id := None, autoTransaction := False, items := empty_ledger,
       executionStack := [], startAttempts := 0, rollback_flag := False,
       rollbackReason := [], context_obj := []\<rparr>"

text \<open>
  \<open>Transact.prototype.start\<close>. \<open>Transactions.insert\<close> draws the id of the new record;
  a drawn id is a non-empty string, so an open transaction has a truthy id.
\<close>

definition tx_start :: "env \<Rightarrow> string option \<Rightarrow> world \<Rightarrow> world \<times> jsval" where
  "tx_start e descr w =
     (if noUser e
      then (cleanReset (tx_log e [Msg ''User must be logged in to start a transaction.''] w), JUndef)
      else (case transaction_id w of
              None \<Rightarrow>
                (let d = (case descr of None \<Rightarrow> ''last action'' | Some s \<Rightarrow> s);
                     i = randomId e (draws w);
                     r = \<lparr>tx_id = i, user_id = userId e, timestamp = clock w, description = d,
                          tx_context = None, tx_items = None, undone = None, expired = False\<rparr>;
                     w1 = w\<lparr>draws := Suc (draws w), transactions := transactions w @ [r],
                            transaction_id := Some i\<rparr>
                 in (tx_log e [Msg ''Started transaction''] w1, JStr i))
            | Some t \<Rightarrow>
                (tx_log e [Msg ''An attempt to start a transaction was made when a transaction was already open.'']
                   w\<lparr>startAttempts := startAttempts w + 1\<rparr>,
                 JBool False)))"

text \<open>\<open>Transact.prototype.transactionStarted\<close>.\<close>

definition transactionStarted :: "world \<Rightarrow> bool" where
  "transactionStarted w = (transaction_id w \<noteq> None)"

text \<open>
  \<open>Transact.prototype._pushToRecord\<close>: the \<open>fieldData\<close> argument is \<open>{newDoc}\<close>,
  \<open>{doc}\<close>, \<open>{update, inverse}\<close> or \<open>null\<close>.
\<close>

datatype fieldData =
    NoData
  | NewDocData jsval
  | DocData jsval
  | UpdateData operation operation

fun make_item :: "string \<Rightarrow> jsval \<Rightarrow> fieldData \<Rightarrow> bool \<Rightarrow> item" where
  "make_item c i NoData inst =
     \<lparr>collection = c, item_id = i, instant = inst, newDoc = None, doc = None,
      update_op = None, inverse_op = None\<rparr>"
| "make_item c i (NewDocData d) inst =
     \<lparr>collection = c, item_id = i, instant = inst, newDoc = Some d, doc = None,
      update_op = None, inverse_op = None\<rparr>"
| "make_item c i (DocData d) inst =
     \<lparr>collection = c, item_id = i, instant = inst, newDoc = None, doc = Some d,
      update_op = None, inverse_op = None\<rparr>"
| "make_item c i (UpdateData u v) inst =
     \<lparr>collection = c, item_id = i, instant = inst, newDoc = None, doc = None,
      update_op = Some u, inverse_op = Some v\<rparr>"

fun ledger_push :: "itype \<Rightarrow> item \<Rightarrow> ledger \<Rightarrow> ledger" where
  "ledger_push Inserted it l = l\<lparr>inserted := Some (items_of (inserted l) @ [it])\<rparr>"
| "ledger_push Updated it l = l\<lparr>updated := Some (items_of (updated l) @ [it])\<rparr>"
| "ledger_push Removed it l = l\<lparr>removed := Some (items_of (removed l) @ [it])\<rparr>"

definition pushToRecord ::
  "itype \<Rightarrow> string \<Rightarrow> jsval \<Rightarrow> fieldData \<Rightarrow> bool \<Rightarrow> world \<Rightarrow> world" where
  "pushToRecord ty c i fd inst w = w\<lparr>items := ledger_push ty (make_item c i fd inst) (items w)\<rparr>"

text \<open>\<open>_permissionCheckOverridden\<close>, \<open>_permissionCheck\<close> and \<open>_setContext\<close>.\<close>

definition permissionCheckOverridden :: "options option \<Rightarrow> bool" where
  "permissionCheckOverridden opt =
     (case opt of None \<Rightarrow> False | Some ob \<Rightarrow> overridePermissionCheck ob)"

definition permissionCheck :: "env \<Rightarrow> string \<Rightarrow> string \<Rightarrow> jsval \<Rightarrow> modifier \<Rightarrow> bool" where
  "permissionCheck e action c d updates = checkPermission e action c d updates"

definition setContext :: "(string \<times> jsval) list \<Rightarrow> world \<Rightarrow> world" where
  "setContext ctx w = w\<lparr>context_obj := obj_extend (context_obj w) ctx\<rparr>"

text \<open>\<open>(opt && opt.context) || self.makeContext(action, collection, doc, updates)\<close>.\<close>

definition context_for ::
  "env \<Rightarrow> options option \<Rightarrow> string \<Rightarrow> string \<Rightarrow> jsval \<Rightarrow> modifier \<Rightarrow> (string \<times> jsval) list" where
  "context_for e opt action c d updates =
     (case opt of
        None \<Rightarrow> makeContext e action c d updates
      | Some ob \<Rightarrow>
          (case opt_context ob of
             None \<Rightarrow> makeContext e action c d updates
           | Some ctx \<Rightarrow> ctx))"

text \<open>\<open>opt && opt.instant\<close>.\<close>

definition is_instant :: "options option \<Rightarrow> bool" where
  "is_instant opt = (case opt of None \<Rightarrow> False | Some ob \<Rightarrow> opt_instant ob)"

subsection \<open>The writes of the three actions\<close>

text \<open>\<open>doInsert\<close> of \<open>Transact.prototype.insert\<close>, without collection2.\<close>

definition doInsert :: "env \<Rightarrow> string \<Rightarrow> jsval \<Rightarrow> world \<Rightarrow> world \<times> (error + jsval)" where
  "doInsert e c d w = coll_insert e c d w"

text \<open>
  \<open>doRemove\<close> of \<open>Transact.prototype.remove\<close>: a soft delete needs an options object
  (\<open>opt && ...\<close>); it records the item first and then marks the document. A hard delete
  records the full document and removes it.
\<close>

definition wants_softDelete :: "env \<Rightarrow> options option \<Rightarrow> bool" where
  "wants_softDelete e opt =
     (case opt of
        None \<Rightarrow> False
      | Some ob \<Rightarrow> (case opt_softDelete ob of Some b \<Rightarrow> b | None \<Rightarrow> softDelete e))"

definition doRemove ::
  "env \<Rightarrow> string \<Rightarrow> jsval \<Rightarrow> selector \<Rightarrow> bool \<Rightarrow> options option \<Rightarrow> world \<Rightarrow> world \<times> error option" where
  "doRemove e c i sel inst opt w =
     (if wants_softDelete e opt
      then coll_update e c sel
             [(''$set'', [(''deleted'', JNum (int (clock w))), (''transaction_id'', txval w)])]
             (pushToRecord Removed c i NoData inst w)
      else (let fullDoc = findOne w c sel
            in (coll_remove c sel (pushToRecord Removed c i (DocData fullDoc) inst w), None)))"

text \<open>
  \<open>makeUpdate\<close> of \<open>Transact.prototype.update\<close>. The modifier object \<open>updates\<close> is
  mutated: \<open>transaction_id\<close> is added to its \<open>$set\<close> map (created when missing) before
  the write and deleted after it, unless the write throws. \<open>updateData.data\<close> is the
  update map of the command inside that same object, so it is read after the mutation.
  The third component is the modifier object as the call leaves it.
\<close>

definition with_transaction_id :: "jsval \<Rightarrow> modifier \<Rightarrow> modifier" where
  "with_transaction_id t updates =
     (case map_of updates ''$set'' of
        Some m \<Rightarrow> obj_put ''$set'' (obj_put ''transaction_id'' t m) updates
      | None \<Rightarrow> obj_put ''$set'' [(''transaction_id'', t)] updates)"

definition without_transaction_id :: "modifier \<Rightarrow> modifier" where
  "without_transaction_id updates =
     (case map_of updates ''$set'' of
        Some m \<Rightarrow> obj_put ''$set'' (obj_delete ''transaction_id'' m) updates
      | None \<Rightarrow> updates)"

definition updateMap_of :: "modifier \<Rightarrow> string \<Rightarrow> (string \<times> jsval) list" where
  "updateMap_of updates cmd = (case map_of updates cmd of None \<Rightarrow> [] | Some m \<Rightarrow> m)"

definition makeUpdate ::
  "env \<Rightarrow> string \<Rightarrow> jsval \<Rightarrow> modifier \<Rightarrow> string \<Rightarrow> operation \<Rightarrow> bool \<Rightarrow> options option \<Rightarrow>
   world \<Rightarrow> world \<times> error option \<times> modifier" where
  "makeUpdate e c i updates cmd inverseData inst opt w =
     (let sent = with_transaction_id (txval w) updates in
      case coll_update e c (SelId i) sent w of
        (w1, Some er) \<Rightarrow> (w1, Some (MeteorError ''Update failed'' []), sent)
      | (w1, None) \<Rightarrow>
          (let left = without_transaction_id sent;
               updateData = \<lparr>command = Some cmd, data = updateMap_of left cmd\<rparr>
           in (pushToRecord Updated c i
                 (UpdateData (packageForStorage updateData) (packageForStorage inverseData)) inst w1,
               None, left)))"

text \<open>Running one queued closure; its result is what the closure returns.\<close>

fun run_thunk :: "env \<Rightarrow> thunk \<Rightarrow> world \<Rightarrow> world \<times> (error + jsval)" where
  "run_thunk e (InsertThunk c d opt) w =
     (case extend_doc d [(''transaction_id'', txval w)] of
        Inl er \<Rightarrow> (w, Inl er)
      | Inr d' \<Rightarrow>
          (case doInsert e c d' w of
             (w1, Inl er) \<Rightarrow> (w1, Inl er)
           | (w1, Inr newId) \<Rightarrow>
               (tx_log e [Msg ''Executed insert'']
                  (pushToRecord Inserted c newId (NewDocData d') False w1),
                Inr newId)))"
| "run_thunk e (RemoveThunk c i sel opt) w =
     (case doRemove e c i sel False opt w of
        (w1, Some er) \<Rightarrow> (w1, Inl er)
      | (w1, None) \<Rightarrow> (tx_log e [Msg ''Executed remove''] w1, Inr JUndef))"
| "run_thunk e (UpdateThunk c i updates cmd inverseData opt) w =
     (case makeUpdate e c i updates cmd inverseData False opt w of
        (w1, Some er, left) \<Rightarrow> (w1, Inl er)
      | (w1, None, left) \<Rightarrow> (tx_log e [Msg ''Executed update''] w1, Inr JUndef))"

subsection \<open>What the writes leave alone\<close>

named_theorems frame

lemma tx_log_frame [frame]:
  "db (tx_log e ms w) = db w"
  "transactions (tx_log e ms w) = transactions w"
  "draws (tx_log e ms w) = draws w"
  "clock (tx_log e ms w) = clock w"
  "transaction_id (tx_log e ms w) = transaction_id w"
  "autoTransaction (tx_log e ms w) = autoTransaction w"
  "executionStack (tx_log e ms w) = executionStack w"
  "items (tx_log e ms w) = items w"
  "startAttempts (tx_log e ms w) = startAttempts w"
  "rollback_flag (tx_log e ms w) = rollback_flag w"
  "rollbackReason (tx_log e ms w) = rollbackReason w"
  "context_obj (tx_log e ms w) = context_obj w"
  "lastTransactionData (tx_log e ms w) = lastTransactionData w"
  by (simp_all add: tx_log_def)

lemma txval_tx_log [frame]: "txval (tx_log e ms w) = txval w"
  by (simp add: txval_def frame)

lemma pushToRecord_frame [frame]:
  "db (pushToRecord ty c i fd inst w) = db w"
  "transactions (pushToRecord ty c i fd inst w) = transactions w"
  "draws (pushToRecord ty c i fd inst w) = draws w"
  "clock (pushToRecord ty c i fd inst w) = clock w"
  "console (pushToRecord ty c i fd inst w) = console w"
  "transaction_id (pushToRecord ty c i fd inst w) = transaction_id w"
  "autoTransaction (pushToRecord ty c i fd inst w) = autoTransaction w"
  "executionStack (pushToRecord ty c i fd inst w) = executionStack w"
  "startAttempts (pushToRecord ty c i fd inst w) = startAttempts w"
  "rollback_flag (pushToRecord ty c i fd inst w) = rollback_flag w"
  "rollbackReason (pushToRecord ty c i fd inst w) = rollbackReason w"
  "context_obj (pushToRecord ty c i fd inst w) = context_obj w"
  "lastTransactionData (pushToRecord ty c i fd inst w) = lastTransactionData w"
  by (simp_all add: pushToRecord_def)

lemma coll_insert_frame [frame]:
  "transactions (fst (coll_insert e c d w)) = transactions w"
  "clock (fst (coll_insert e c d w)) = clock w"
  "console (fst (coll_insert e c d w)) = console w"
  "transaction_id (fst (coll_insert e c d w)) = transaction_id w"
  "autoTransaction (fst (coll_insert e c d w)) = autoTransaction w"
  "executionStack (fst (coll_insert e c d w)) = executionStack w"
  "items (fst (coll_insert e c d w)) = items w"
  "startAttempts (fst (coll_insert e c d w)) = startAttempts w"
  "rollback_flag (fst (coll_insert e c d w)) = rollback_flag w"
  "rollbackReason (fst (coll_insert e c d w)) = rollbackReason w"
  "context_obj (fst (coll_insert e c d w)) = context_obj w"
  "lastTransactionData (fst (coll_insert e c d w)) = lastTransactionData w"
  by (simp_all add: coll_insert_def Let_def split: jsval.splits option.splits)

lemma coll_update_frame [frame]:
  "transactions (fst (coll_update e c sel m w)) = transactions w"
  "draws (fst (coll_update e c sel m w)) = draws w"
  "clock (fst (coll_update e c sel m w)) = clock w"
  "console (fst (coll_update e c sel m w)) = console w"
  "transaction_id (fst (coll_update e c sel m w)) = transaction_id w"
  "autoTransaction (fst (coll_update e c sel m w)) = autoTransaction w"
  "executionStack (fst (coll_update e c sel m w)) = executionStack w"
  "items (fst (coll_update e c sel m w)) = items w"
  "startAttempts (fst (coll_update e c sel m w)) = startAttempts w"
  "rollback_flag (fst (coll_update e c sel m w)) = rollback_flag w"
  "rollbackReason (fst (coll_update e c sel m w)) = rollbackReason w"
  "context_obj (fst (coll_update e c sel m w)) = context_obj w"
  "lastTransactionData (fst (coll_update e c sel m w)) = lastTransactionData w"
  by (simp_all add: coll_update_def split: sum.splits)

lemma coll_remove_frame [frame]:
  "transactions (coll_remove c sel w) = transactions w"
  "draws (coll_remove c sel w) = draws w"
  "clock (coll_remove c sel w) = clock w"
  "console (coll_remove c sel w) = console w"
  "transaction_id (coll_remove c sel w) = transaction_id w"
  "autoTransaction (coll_remove c sel w) = autoTransaction w"
  "executionStack (coll_remove c sel w) = executionStack w"
  "items (coll_remove c sel w) = items w"
  "startAttempts (coll_remove c sel w) = startAttempts w"
  "rollback_flag (coll_remove c sel w) = rollback_flag w"
  "rollbackReason (coll_remove c sel w) = rollbackReason w"
  "context_obj (coll_remove c sel w) = context_obj w"
  "lastTransactionData (coll_remove c sel w) = lastTransactionData w"
  by (simp_all add: coll_remove_def)

lemma doInsert_frame [frame]:
  "transactions (fst (doInsert e c d w)) = transactions w"
  "clock (fst (doInsert e c d w)) = clock w"
  "console (fst (doInsert e c d w)) = console w"
  "transaction_id (fst (doInsert e c d w)) = transaction_id w"
  "autoTransaction (fst (doInsert e c d w)) = autoTransaction w"
  "executionStack (fst (doInsert e c d w)) = executionStack w"
  "items (fst (doInsert e c d w)) = items w"
  "startAttempts (fst (doInsert e c d w)) = startAttempts w"
  "rollback_flag (fst (doInsert e c d w)) = rollback_flag w"
  "rollbackReason (fst (doInsert e c d w)) = rollbackReason w"
  "context_obj (fst (doInsert e c d w)) = context_obj w"
  "lastTransactionData (fst (doInsert e c d w)) = lastTransactionData w"
  by (simp_all add: doInsert_def frame)

lemma doRemove_frame [frame]:
  "transactions (fst (doRemove e c i sel inst opt w)) = transactions w"
  "clock (fst (doRemove e c i sel inst opt w)) = clock w"
  "console (fst (doRemove e c i sel inst opt w)) = console w"
  "transaction_id (fst (doRemove e c i sel inst opt w)) = transaction_id w"
  "autoTransaction (fst (doRemove e c i sel inst opt w)) = autoTransaction w"
  "executionStack (fst (doRemove e c i sel inst opt w)) = executionStack w"
  "startAttempts (fst (doRemove e c i sel inst opt w)) = startAttempts w"
  "rollback_flag (fst (doRemove e c i sel inst opt w)) = rollback_flag w"
  "rollbackReason (fst (doRemove e c i sel inst opt w)) = rollbackReason w"
  "context_obj (fst (doRemove e c i sel inst opt w)) = context_obj w"
  "lastTransactionData (fst (doRemove e c i sel inst opt w)) = lastTransactionData w"
  by (simp_all add: doRemove_def Let_def frame)

lemma makeUpdate_frame [frame]:
  "transactions (fst (makeUpdate e c i u cmd iv inst opt w)) = transactions w"
  "clock (fst (makeUpdate e c i u cmd iv inst opt w)) = clock w"
  "console (fst (makeUpdate e c i u cmd iv inst opt w)) = console w"
  "transaction_id (fst (makeUpdate e c i u cmd iv inst opt w)) = transaction_id w"
  "autoTransaction (fst (makeUpdate e c i u cmd iv inst opt w)) = autoTransaction w"
  "executionStack (fst (makeUpdate e c i u cmd iv inst opt w)) = executionStack w"
  "startAttempts (fst (makeUpdate e c i u cmd iv inst opt w)) = startAttempts w"
  "rollback_flag (fst (makeUpdate e c i u cmd iv inst opt w)) = rollback_flag w"
  "rollbackReason (fst (makeUpdate e c i u cmd iv inst opt w)) = rollbackReason w"
  "context_obj (fst (makeUpdate e c i u cmd iv inst opt w)) = context_obj w"
  "lastTransactionData (fst (makeUpdate e c i u cmd iv inst opt w)) = lastTransactionData w"
  by (simp_all add: makeUpdate_def Let_def split_beta frame split: option.splits)

lemma run_thunk_frame [frame]:
  "transactions (fst (run_thunk e t w)) = transactions w"
  "clock (fst (run_thunk e t w)) = clock w"
  "transaction_id (fst (run_thunk e t w)) = transaction_id w"
  "autoTransaction (fst (run_thunk e t w)) = autoTransaction w"
  "executionStack (fst (run_thunk e t w)) = executionStack w"
  "startAttempts (fst (run_thunk e t w)) = startAttempts w"
  "rollback_flag (fst (run_thunk e t w)) = rollback_flag w"
  "rollbackReason (fst (run_thunk e t w)) = rollbackReason w"
  "context_obj (fst (run_thunk e t w)) = context_obj w"
  "lastTransactionData (fst (run_thunk e t w)) = lastTransactionData w"
  by (cases t; simp add: Let_def split_beta frame split: option.splits sum.splits)+

subsection \<open>Commit and rollback\<close>

text \<open>
  The \<open>while (this._executionStack.length)\<close> loop of \<open>commit\<close>: \<open>shift()\<close> takes the
  closure queued first, \<open>call()\<close> runs it, and a string it returns is pushed on
  \<open>newIdValues\<close>. An exception leaves the loop with the rest of the stack in place.
\<close>

function drain :: "env \<Rightarrow> world \<Rightarrow> jsval list \<Rightarrow> world \<times> (error + jsval list)" where
  "drain e w newIdValues =
     (case executionStack w of
        [] \<Rightarrow> (w, Inr newIdValues)
      | t # ts \<Rightarrow>
          (case run_thunk e t (w\<lparr>executionStack := ts\<rparr>) of
             (w1, Inl er) \<Rightarrow> (w1, Inl er)
           | (w1, Inr possibleNewId) \<Rightarrow>
               drain e w1
                 (if isString possibleNewId then newIdValues @ [possibleNewId]
                  else newIdValues)))"
  by pat_completeness auto
termination
proof (relation "measure (\<lambda>(e, w, newIdValues). length (executionStack w))", goal_cases)
  case 1
  show ?case by simp
next
  case (2 e w newIdValues t ts w1 r possibleNewId)
  have "executionStack w1 = executionStack (fst (run_thunk e t (w\<lparr>executionStack := ts\<rparr>)))"
    using 2 by (metis fst_conv)
  then have "executionStack w1 = ts"
    by (simp add: frame)
  then show ?case
    using 2 by simp
qed

declare drain.simps [simp del]

text \<open>
  \<open>Transact.prototype.rollback\<close>. Each of the three \<open>_.each\<close> loops visits the items
  of one kind in order; its state is the world and the local flag \<open>error\<close>. Only an
  item marked \<open>instant\<close> is undone, inside a \<open>try\<close> whose \<open>catch\<close> logs the error
  and sets the flag.
\<close>

definition rollback_removed_item :: "env \<Rightarrow> item \<Rightarrow> world \<times> bool \<Rightarrow> world \<times> bool" where
  "rollback_removed_item e obj st =
     (if instant obj then
        (case (case doc obj of
                 Some d \<Rightarrow>
                   if truthy d then index_insert e (collection obj) d (fst st)
                   else index_update e (collection obj) (SelId (item_id obj))
                          [(''$unset'', [(''deleted'', JNum 1), (''transaction_id'', txval (fst st))])]
                          (fst st)
               | None \<Rightarrow>
                   index_update e (collection obj) (SelId (item_id obj))
                     [(''$unset'', [(''deleted'', JNum 1), (''transaction_id'', txval (fst st))])]
                     (fst st)) of
           (w1, None) \<Rightarrow> (tx_log e [Msg ''Rolled back remove''] w1, snd st)
         | (w1, Some er) \<Rightarrow> (tx_log e [ErrMsg er] w1, True))
      else st)"

text \<open>\<open>typeof op !== 'undefined' && op.command && op.data\<close>, and the modifier built from it.\<close>

definition operation_modifier :: "operation option \<Rightarrow> modifier option" where
  "operation_modifier opn =
     (case opn of
        None \<Rightarrow> None
      | Some p \<Rightarrow>
          (case command p of
             None \<Rightarrow> None
           | Some c \<Rightarrow> if c = [] then None else Some [(c, unpackageForUpdate (data p))]))"

definition rollback_updated_item :: "env \<Rightarrow> item \<Rightarrow> world \<times> bool \<Rightarrow> world \<times> bool" where
  "rollback_updated_item e obj st =
     (if instant obj then
        (case operation_modifier (inverse_op obj) of
           None \<Rightarrow> st
         | Some operation \<Rightarrow>
             (case index_update e (collection obj) (SelId (item_id obj)) operation (fst st) of
                (w1, None) \<Rightarrow> (tx_log e [Msg ''Rolled back update''] w1, snd st)
              | (w1, Some er) \<Rightarrow> (tx_log e [ErrMsg er] w1, True)))
      else st)"

definition rollback_inserted_item :: "env \<Rightarrow> item \<Rightarrow> world \<times> bool \<Rightarrow> world \<times> bool" where
  "rollback_inserted_item e obj st =
     (if instant obj then
        (case index_remove e (collection obj) (SelIdTx (item_id obj) (txval (fst st))) (fst st) of
           (w1, None) \<Rightarrow> (tx_log e [Msg ''Rolled back insert''] w1, snd st)
         | (w1, Some er) \<Rightarrow> (tx_log e [ErrMsg er] w1, True))
      else st)"

definition rollback_failed_messages :: "ledger \<Rightarrow> logmsg list" where
  "rollback_failed_messages its =
     [Msg ''Rollback failed -- you'll need to check your database manually for corrupted records.'',
      Msg ''Here is a log of the actions that were tried and their inverses:'',
      Msg ''(it was probably one of the inverse actions that caused the problem here)'',
      ItemsMsg its]"

definition tx_rollback :: "env \<Rightarrow> world \<Rightarrow> world" where
  "tx_rollback e w =
     (let its = items w;
          st1 = fold (rollback_removed_item e) (items_of (removed its)) (w, False);
          st2 = fold (rollback_updated_item e) (items_of (updated its)) st1;
          st3 = fold (rollback_inserted_item e) (items_of (inserted its)) st2;
          w4 = (if snd st3 then tx_log e (rollback_failed_messages its) (fst st3) else fst st3);
          w5 = Transactions_remove (transaction_id w4) w4
      in tx_log e [Msg ''Rollback reset transaction manager to clean state''] (cleanReset w5))"

text \<open>
  The first argument of \<open>commit\<close>: nothing, the callback, a transaction id, \<open>null\<close>, or
  the options object that \<open>_closeAutoTransaction\<close> passes on.
\<close>

datatype txarg = ArgUndefined | ArgFunction | ArgString string | ArgNull | ArgObject

text \<open>
  What a call of \<open>commit\<close> yields: the value it returns and the pair \<open>(err, res)\<close> it
  hands to \<open>_callback\<close>, which passes it on to the callback when there is one.
\<close>

record commit_result =
  returned :: jsval
  reported :: "(error option \<times> jsval) option"

definition rollback_description :: "string \<Rightarrow> string" where
  "rollback_description reason =
     (if reason = ''permission-denied''
      then ''One or more permissions were denied, so transaction was rolled back.''
      else if reason = ''transaction-cancelled''
      then ''The transaction was cancelled programatically, so it was rolled back.''
      else ''An error occurred when processing an action.'')"

definition multiple_open :: error where
  "multiple_open = MeteorError ''multiple-transactions-open'' ''More than one transaction open.''"

text \<open>The end of a commit that did not return early: reset, log, report, return \<open>true\<close>.\<close>

definition commit_finish :: "env \<Rightarrow> jsval \<Rightarrow> world \<Rightarrow> world \<times> commit_result" where
  "commit_finish e newId w =
     (tx_log e [Msg ''Commit reset transaction manager to clean state''] (cleanReset w),
      \<lparr>returned = JBool True,
       reported = Some (None, if truthy newId then newId else JBool True)\<rparr>)"

text \<open>\<open>Transact.prototype.commit\<close>.\<close>

definition tx_commit :: "env \<Rightarrow> txarg \<Rightarrow> jsval \<Rightarrow> world \<Rightarrow> world \<times> commit_result" where
  "tx_commit e txid newId w =
     (if noUser e
      then (tx_log e [Msg ''User must be logged in to commit a transaction.''] w,
            \<lparr>returned = JUndef, reported = None\<rparr>)
      else
        (let w0 = w\<lparr>lastTransactionData := Some (transaction_id w, None)\<rparr> in
         case transaction_id w0 of
           None \<Rightarrow>
             (tx_log e [Msg ''Commit reset transaction to clean state''] (cleanReset w0),
              \<lparr>returned = JUndef,
               reported = Some (Some (MeteorError ''no-transactions-open'' ''No transaction open.''),
                                JBool False)\<rparr>)
         | Some t \<Rightarrow>
             if (case txid of ArgString s \<Rightarrow> s \<noteq> t | _ \<Rightarrow> False)
             then (w0\<lparr>startAttempts := startAttempts w0 - 1\<rparr>,
                   \<lparr>returned = JUndef, reported = Some (Some multiple_open, JBool False)\<rparr>)
             else if 0 < startAttempts w0 \<and> \<not> (txid = ArgString t \<or> txid = ArgNull)
             then (w0\<lparr>startAttempts := startAttempts w0 - 1\<rparr>,
                   \<lparr>returned = JUndef, reported = Some (Some multiple_open, JBool False)\<rparr>)
             else if ledger_isEmpty (items w0) \<and> executionStack w0 = []
             then commit_finish e newId
                    (tx_log e [Msg ''Empty transaction removed''] (Transactions_remove (Some t) w0))
             else if rollback_flag w0
             then
               (let w1 = tx_log e [Msg ''Incomplete transaction removed''] w0;
                    err = rollbackReason w1
                in (tx_rollback e w1,
                    \<lparr>returned = JUndef,
                     reported = Some (Some (MeteorError err (rollback_description err)),
                                      JBool False)\<rparr>))
             else
               (case drain e (tx_log e [Msg ''Beginning commit''] w0) [] of
                  (w2, Inr newIdValues) \<Rightarrow>
                    (let newId' = (if length newIdValues = 1 then hd newIdValues
                                   else if 1 < length newIdValues then JArr newIdValues
                                   else newId);
                         w3 = Transactions_update t
                                (\<lambda>r. r\<lparr>tx_context := Some (context_obj w2),
                                       tx_items := Some (items w2)\<rparr>) w2;
                         w4 = w3\<lparr>lastTransactionData := Some (Some t, Some (items w3))\<rparr>
                     in commit_finish e newId' w4)
                | (w2, Inl er) \<Rightarrow>
                    (tx_rollback e (tx_log e [ErrMsg er, Msg ''Rolling back changes''] w2),
                     \<lparr>returned = JUndef,
                      reported = Some (Some (MeteorError ''error''
                                               ''An error occurred, so transaction was rolled back.''),
                                       JBool False)\<rparr>))))"

text \<open>\<open>Transact.prototype.cancel\<close>.\<close>

definition tx_cancel :: "env \<Rightarrow> world \<Rightarrow> world" where
  "tx_cancel e w =
     (tx_log e [Msg ''Transaction cancelled''] w)
       \<lparr>rollback_flag := True, rollbackReason := ''transaction-cancelled''\<rparr>"

subsection \<open>Automatic transactions\<close>

text \<open>\<open>_openAutoTransaction\<close> and \<open>_closeAutoTransaction\<close>; the latter calls
  \<open>commit(opt, undefined, newId)\<close> and drops what it yields.\<close>

definition openAutoTransaction :: "env \<Rightarrow> string \<Rightarrow> world \<Rightarrow> world" where
  "openAutoTransaction e descr w =
     (if transaction_id w = None
      then fst (tx_start e (Some descr) (w\<lparr>autoTransaction := True\<rparr>))
      else w)"

definition arg_of_opt :: "options option \<Rightarrow> txarg" where
  "arg_of_opt opt = (case opt of None \<Rightarrow> ArgUndefined | Some ob \<Rightarrow> ArgObject)"

definition closeAutoTransaction :: "env \<Rightarrow> options option \<Rightarrow> jsval \<Rightarrow> world \<Rightarrow> world" where
  "closeAutoTransaction e opt newId w =
     (if autoTransaction w
      then fst (tx_commit e (arg_of_opt opt) newId (tx_log e [Msg ''Auto committed''] w))
      else w)"

subsection \<open>Insert, remove and update\<close>

text \<open>The tail of \<open>Transact.prototype.insert\<close>: queue the closure, close an automatic
  transaction, return \<open>!this._rollback\<close>.\<close>

definition insert_queue :: "env \<Rightarrow> string \<Rightarrow> jsval \<Rightarrow> options option \<Rightarrow> world \<Rightarrow> world \<times> jsval" where
  "insert_queue e c d opt w =
     (let w1 = tx_log e [Msg ''Pushed insert command to stack'']
                 (w\<lparr>executionStack := executionStack w @ [InsertThunk c d opt]\<rparr>);
          w2 = closeAutoTransaction e opt JUndef w1
      in (w2, JBool (\<not> rollback_flag w2)))"

text \<open>
  \<open>Transact.prototype.insert\<close>. An instant insert, or any insert of an automatic
  transaction, writes at once; when \<open>_.extend\<close> or that write throws, the \<open>catch\<close>
  sets the rollback flag and control falls through to the queueing tail. When it was
  the write that threw, \<open>_.extend\<close> has already added \<open>transaction_id\<close> to the document
  \<open>newDoc\<close>.
\<close>

definition tx_insert :: "env \<Rightarrow> string \<Rightarrow> jsval \<Rightarrow> options option \<Rightarrow> world \<Rightarrow> world \<times> jsval" where
  "tx_insert e c new_doc opt w =
     (if rollback_flag w \<or> noUser e then (w, JUndef)
      else if permissionCheckOverridden opt \<or> permissionCheck e ''insert'' c new_doc []
      then
        (let w1 = openAutoTransaction e (''add '' @ butlast c) w;
             w2 = setContext (context_for e opt ''insert'' c new_doc []) w1
         in if is_instant opt \<or> autoTransaction w2
            then
              (case extend_doc new_doc [(''transaction_id'', txval w2)] of
                 Inl er \<Rightarrow>
                   insert_queue e c new_doc opt
                     ((tx_log e [ErrMsg er, Msg ''Rollback initiated by instant insert command''] w2)
                        \<lparr>rollback_flag := True, rollbackReason := ''insert-error''\<rparr>)
               | Inr d' \<Rightarrow>
                   (case doInsert e c d' w2 of
                      (w3, Inr newId) \<Rightarrow>
                        (let w4 = pushToRecord Inserted c newId (NewDocData d') True w3;
                             w5 = closeAutoTransaction e opt newId w4
                         in (tx_log e [Msg ''Executed instant insert''] w5, newId))
                    | (w3, Inl er) \<Rightarrow>
                        insert_queue e c d' opt
                          ((tx_log e [ErrMsg er, Msg ''Rollback initiated by instant insert command''] w3)
                             \<lparr>rollback_flag := True, rollbackReason := ''insert-error''\<rparr>)))
            else insert_queue e c new_doc opt w2)
      else
        ((tx_log e [Msg ''Insufficient permissions to insert this document'', DocMsg new_doc] w)
           \<lparr>rollback_flag := True, rollbackReason := ''permission-denied''\<rparr>,
         JUndef))"

text \<open>\<open>Transact.prototype.remove\<close>.\<close>

definition tx_remove :: "env \<Rightarrow> string \<Rightarrow> jsval \<Rightarrow> options option \<Rightarrow> world \<Rightarrow> world \<times> jsval" where
  "tx_remove e c d opt w =
     (if rollback_flag w \<or> noUser e then (w, JUndef)
      else
        (let i = (if isObject d then field d ''_id'' else d);
             existingDoc = (if \<not> isObject d then findOne w c (SelId d) else d)
         in if permissionCheckOverridden opt \<or> permissionCheck e ''remove'' c existingDoc []
            then
              (let w1 = openAutoTransaction e (''remove '' @ butlast c) w;
                   sel = (if isServer e then SelIdNotDeleted i else SelId i);
                   w2 = setContext (context_for e opt ''remove'' c existingDoc []) w1;
                   w3 = (if is_instant opt
                         then
                           (case doRemove e c i sel True opt w2 of
                              (w', None) \<Rightarrow> tx_log e [Msg ''Executed instant remove''] w'
                            | (w', Some er) \<Rightarrow>
                                (tx_log e [ErrMsg er, Msg ''Rollback initiated by instant remove command''] w')
                                  \<lparr>rollback_flag := True, rollbackReason := ''remove-error''\<rparr>)
                         else tx_log e [Msg ''Pushed remove command to stack'']
                                (w2\<lparr>executionStack := executionStack w2 @ [RemoveThunk c i sel opt]\<rparr>));
                   w4 = closeAutoTransaction e opt JUndef w3
               in (w4, JBool (\<not> rollback_flag w4)))
            else
              ((tx_log e [Msg ''Insufficient permissions to remove this document'', DocMsg existingDoc] w)
                 \<lparr>rollback_flag := True, rollbackReason := ''permission-denied''\<rparr>,
               JUndef)))"

text \<open>
  The \<open>for\<close> loop of \<open>Transact.prototype.update\<close> over the commands of the modifier.
  \<open>opt\<close>, \<open>updateData\<close> and \<open>inverse\<close> are \<open>var\<close>s of the call, so every closure the
  call has queued so far reads the values of the latest pass: \<open>rebind\<close> gives the
  last \<open>k\<close> closures of the stack those values. An instant update runs \<open>makeUpdate\<close>
  at once and goes on with the modifier object as that call left it. The closures of
  one call share the modifier object as well; a later one finds it as an earlier one
  left it, which yields the same write as the object first queued.
\<close>

definition empty_options :: options where
  "empty_options =
     \<lparr>opt_instant = False, overridePermissionCheck = False, opt_context = None,
      opt_softDelete = None, opt_inverse = None\<rparr>"

definition rebind :: "nat \<Rightarrow> thunk \<Rightarrow> thunk list \<Rightarrow> thunk list" where
  "rebind k t stack = take (length stack - k) stack @ replicate k t"

fun update_loop ::
  "env \<Rightarrow> string \<Rightarrow> jsval \<Rightarrow> jsval \<Rightarrow> string list \<Rightarrow> modifier \<Rightarrow> options option \<Rightarrow> nat \<Rightarrow>
   world \<Rightarrow> world \<times> (error + options option)" where
  "update_loop e c i existingDoc [] updates opt k w = (w, Inr opt)"
| "update_loop e c i existingDoc (cmd # cmds) updates opt k w =
     (case (case (case opt of None \<Rightarrow> None | Some ob \<Rightarrow> opt_inverse ob) of
              None \<Rightarrow> synthesizeInverse (prototypes e) cmd (updateMap_of updates cmd) existingDoc
            | Some custom \<Rightarrow> Inr custom) of
        Inl er \<Rightarrow> (w, Inl er)
      | Inr inverseData \<Rightarrow>
          (let opt1 = (case opt of None \<Rightarrow> Some empty_options | Some ob \<Rightarrow> Some ob);
               w1 = setContext (context_for e opt1 ''update'' c existingDoc updates) w
           in if is_instant opt1
              then
                (case makeUpdate e c i updates cmd inverseData True opt1 w1 of
                   (w2, None, left) \<Rightarrow>
                     update_loop e c i existingDoc cmds left opt1 k
                       (tx_log e [Msg ''Executed instant update''] w2)
                 | (w2, Some er, left) \<Rightarrow>
                     update_loop e c i existingDoc cmds left opt1 k
                       ((tx_log e [ErrMsg er, Msg ''Rollback initiated by instant update command''] w2)
                          \<lparr>rollback_flag := True, rollbackReason := ''update-error''\<rparr>))
              else
                update_loop e c i existingDoc cmds updates opt1 (Suc k)
                  (tx_log e [Msg ''Pushed update command to stack'']
                     (w1\<lparr>executionStack :=
                           rebind (Suc k) (UpdateThunk c i updates cmd inverseData opt1)
                             (executionStack w1 @ [UpdateThunk c i updates cmd inverseData opt1])\<rparr>))))"

text \<open>
  \<open>Transact.prototype.update\<close>. The prior document is read from the collection by
  \<open>_id\<close>; an exception of the inverse synthesis would leave the call.
\<close>

definition tx_update ::
  "env \<Rightarrow> string \<Rightarrow> jsval \<Rightarrow> modifier \<Rightarrow> options option \<Rightarrow> world \<Rightarrow> world \<times> (error + jsval)" where
  "tx_update e c d updates opt w =
     (if rollback_flag w \<or> noUser e then (w, Inr JUndef)
      else
        (let i = (if isObject d then field d ''_id'' else d);
             existingDoc = findOne w c (SelId i)
         in if permissionCheckOverridden opt \<or> permissionCheck e ''update'' c existingDoc updates
            then
              (case update_loop e c i existingDoc (map fst updates) updates opt 0
                      (openAutoTransaction e (''update '' @ butlast c) w) of
                 (w2, Inl er) \<Rightarrow> (w2, Inl er)
               | (w2, Inr opt') \<Rightarrow>
                   (let w3 = closeAutoTransaction e opt' JUndef w2
                    in (w3, Inr (JBool (\<not> rollback_flag w3)))))
            else
              ((tx_log e [Msg ''Insufficient permissions to update this document'', DocMsg existingDoc] w)
                 \<lparr>rollback_flag := True, rollbackReason := ''permission-denied''\<rparr>,
               Inr JUndef)))"

section \<open>Undo and redo\<close>

text \<open>
  The Meteor methods work on a record of the \<open>transactions\<close> collection.
  \<open>find(sel, {sort: {key: -1}, limit: 1}).fetch()[0]\<close> is the matching record of the
  greatest key, the first of them in the collection when several share it.
\<close>

fun pick_latest :: "(txrecord \<Rightarrow> nat) \<Rightarrow> txrecord option \<Rightarrow> txrecord list \<Rightarrow> txrecord option" where
  "pick_latest key best [] = best"
| "pick_latest key best (r # rs) =
     pick_latest key
       (case best of None \<Rightarrow> Some r | Some b \<Rightarrow> if key b < key r then Some r else Some b) rs"

definition id_given :: "string option \<Rightarrow> bool" where
  "id_given i = (case i of None \<Rightarrow> False | Some s \<Rightarrow> s \<noteq> [])"

definition undo_select :: "env \<Rightarrow> string option \<Rightarrow> world \<Rightarrow> txrecord option" where
  "undo_select e i w =
     (if id_given i
      then pick_latest timestamp None (filter (\<lambda>r. Some (tx_id r) = i) (transactions w))
      else pick_latest timestamp None
             (filter (\<lambda>r. user_id r = userId e \<and> undone r = None \<and> \<not> expired r) (transactions w)))"

definition redo_select :: "env \<Rightarrow> string option \<Rightarrow> world \<Rightarrow> txrecord option" where
  "redo_select e i w =
     (if id_given i
      then pick_latest timestamp None (filter (\<lambda>r. Some (tx_id r) = i) (transactions w))
      else pick_latest (\<lambda>r. case undone r of None \<Rightarrow> 0 | Some n \<Rightarrow> n) None
             (filter (\<lambda>r. user_id r = userId e \<and> undone r \<noteq> None \<and> \<not> expired r) (transactions w)))"

text \<open>The closures pushed on \<open>queuedItems\<close>, each one write through \<open>tx.collectionIndex\<close>.\<close>

datatype queued =
    QInsert string jsval
  | QUpdate string selector modifier
  | QRemove string selector

fun run_queued :: "env \<Rightarrow> queued \<Rightarrow> world \<Rightarrow> world \<times> error option" where
  "run_queued e (QInsert c d) w = index_insert e c d w"
| "run_queued e (QUpdate c sel m) w = index_update e c sel m w"
| "run_queued e (QRemove c sel) w = index_remove e c sel w"

text \<open>\<open>_.each(queuedItems, function(queuedItem) { queuedItem.call(); })\<close>: an exception
  ends the method with the writes made so far.\<close>

fun process_queue :: "env \<Rightarrow> queued list \<Rightarrow> world \<Rightarrow> world \<times> error option" where
  "process_queue e [] w = (w, None)"
| "process_queue e (q # qs) w =
     (case run_queued e q w of
        (w1, Some er) \<Rightarrow> (w1, Some er)
      | (w1, None) \<Rightarrow> process_queue e qs w1)"

text \<open>
  The loops that build the queue: the state is the world, the variable \<open>expired\<close> and
  \<open>queuedItems\<close>; a read through an unregistered name of \<open>tx.collectionIndex\<close> throws.
\<close>

type_synonym build = "world \<times> bool \<times> queued list"

fun each_item ::
  "(item \<Rightarrow> build \<Rightarrow> build \<times> error option) \<Rightarrow> item list \<Rightarrow> build \<Rightarrow> build \<times> error option" where
  "each_item f [] st = (st, None)"
| "each_item f (obj # objs) st =
     (case f obj st of
        (st1, Some er) \<Rightarrow> (st1, Some er)
      | (st1, None) \<Rightarrow> each_item f objs st1)"

definition clear_softDelete :: "string \<Rightarrow> modifier" where
  "clear_softDelete t = [(''$unset'', [(''deleted'', JNum 1), (''transaction_id'', JStr t)])]"

definition undo_removed_item :: "env \<Rightarrow> string \<Rightarrow> item \<Rightarrow> build \<Rightarrow> build \<times> error option" where
  "undo_removed_item e t obj st =
     (case st of (w, expd, q) \<Rightarrow>
        (case doc obj of
           Some d \<Rightarrow>
             if truthy d then
               (if \<not> collectionIndex e (collection obj) then (st, Some TypeError)
                else if 0 < count_docs w (collection obj) (SelId (field d ''_id''))
                then ((w, True, q), None)
                else ((w, expd, q @ [QInsert (collection obj) d]), None))
             else ((w, expd, q @ [QUpdate (collection obj) (SelId (item_id obj)) (clear_softDelete t)]), None)
         | None \<Rightarrow>
             ((w, expd, q @ [QUpdate (collection obj) (SelId (item_id obj)) (clear_softDelete t)]), None)))"

definition undo_updated_item :: "env \<Rightarrow> item \<Rightarrow> build \<Rightarrow> build \<times> error option" where
  "undo_updated_item e obj st =
     (case st of (w, expd, q) \<Rightarrow>
        (case operation_modifier (inverse_op obj) of
           None \<Rightarrow> (st, None)
         | Some operation \<Rightarrow>
             ((w, expd, q @ [QUpdate (collection obj) (SelId (item_id obj)) operation]), None)))"

definition mark_expired :: "string \<Rightarrow> world \<Rightarrow> world" where
  "mark_expired t w = Transactions_update t (\<lambda>r. r\<lparr>expired := True\<rparr>) w"

definition undo_inserted_item :: "env \<Rightarrow> string \<Rightarrow> item \<Rightarrow> build \<Rightarrow> build \<times> error option" where
  "undo_inserted_item e t obj st =
     (case st of (w, expd, q) \<Rightarrow>
        (let q1 = q @ [QRemove (collection obj) (SelIdTx (item_id obj) (JStr t))] in
         if \<not> collectionIndex e (collection obj) then ((w, expd, q1), Some TypeError)
         else if truthy (findOne w (collection obj) (SelIdOtherTx (item_id obj) (JStr t)))
         then ((mark_expired t w, True, q1), None)
         else ((w, expd, q1), None)))"

definition undo_build :: "env \<Rightarrow> string \<Rightarrow> ledger \<Rightarrow> world \<Rightarrow> build \<times> error option" where
  "undo_build e t its w =
     (case each_item (undo_removed_item e t) (items_of (removed its)) (w, False, []) of
        (st1, Some er) \<Rightarrow> (st1, Some er)
      | (st1, None) \<Rightarrow>
          (case each_item (undo_updated_item e) (items_of (updated its)) st1 of
             (st2, Some er) \<Rightarrow> (st2, Some er)
           | (st2, None) \<Rightarrow> each_item (undo_inserted_item e t) (items_of (inserted its)) st2))"

text \<open>The method \<open>_meteorTransactionsUndo\<close>; its result is the variable \<open>expired\<close>.\<close>

definition meteorTransactionsUndo ::
  "env \<Rightarrow> string option \<Rightarrow> world \<Rightarrow> world \<times> (error + jsval)" where
  "meteorTransactionsUndo e i w =
     (if noUser e
      then (w\<lparr>console := console w @ [Msg ''You must be logged in to undo actions.'']\<rparr>, Inr JUndef)
      else
        (case undo_select e i w of
           None \<Rightarrow> (w, Inr (JBool False))
         | Some lastTransaction \<Rightarrow>
             (case tx_items lastTransaction of
                None \<Rightarrow> (Transactions_remove (Some (tx_id lastTransaction)) w, Inr (JBool False))
              | Some its \<Rightarrow>
                  (case undo_build e (tx_id lastTransaction) its w of
                     ((w1, expd, q), Some er) \<Rightarrow> (w1, Inl er)
                   | ((w1, expd, q), None) \<Rightarrow>
                       if \<not> expd then
                         (case process_queue e q w1 of
                            (w2, Some er) \<Rightarrow> (w2, Inl er)
                          | (w2, None) \<Rightarrow>
                              (Transactions_update (tx_id lastTransaction)
                                 (\<lambda>r. r\<lparr>undone := Some (clock w2)\<rparr>) w2,
                               Inr (JBool False)))
                       else (w1, Inr (JBool True))))))"

definition redo_removed_item :: "env \<Rightarrow> string \<Rightarrow> item \<Rightarrow> build \<Rightarrow> build \<times> error option" where
  "redo_removed_item e t obj st =
     (case st of (w, expd, q) \<Rightarrow>
        (case doc obj of
           Some d \<Rightarrow>
             if truthy d then ((w, expd, q @ [QRemove (collection obj) (SelId (item_id obj))]), None)
             else ((w, expd, q @ [QUpdate (collection obj) (SelId (item_id obj))
                      [(''$set'', [(''deleted'', JNum (int (clock w))), (''transaction_id'', JStr t)])]]), None)
         | None \<Rightarrow>
             ((w, expd, q @ [QUpdate (collection obj) (SelId (item_id obj))
                [(''$set'', [(''deleted'', JNum (int (clock w))), (''transaction_id'', JStr t)])]]), None)))"

definition redo_updated_item :: "env \<Rightarrow> item \<Rightarrow> build \<Rightarrow> build \<times> error option" where
  "redo_updated_item e obj st =
     (case st of (w, expd, q) \<Rightarrow>
        (case operation_modifier (update_op obj) of
           None \<Rightarrow> (st, None)
         | Some operation \<Rightarrow>
             ((w, expd, q @ [QUpdate (collection obj) (SelId (item_id obj)) operation]), None)))"

text \<open>
  \<open>_.extend(obj.newDoc, {transaction_id: lastUndo._id, _id: obj._id})\<close>; an item
  without \<open>newDoc\<close> extends \<open>undefined\<close>, which throws inside the loop that builds the
  queue.
\<close>

definition redo_newDoc :: "string \<Rightarrow> item \<Rightarrow> error + jsval" where
  "redo_newDoc t obj =
     extend_doc (case newDoc obj of None \<Rightarrow> JUndef | Some d \<Rightarrow> d)
       [(''transaction_id'', JStr t), (''_id'', item_id obj)]"

definition redo_inserted_item :: "env \<Rightarrow> string \<Rightarrow> item \<Rightarrow> build \<Rightarrow> build \<times> error option" where
  "redo_inserted_item e t obj st =
     (case st of (w, expd, q) \<Rightarrow>
        (if \<not> collectionIndex e (collection obj) then (st, Some TypeError)
         else if count_docs w (collection obj) (SelId (item_id obj)) = 0
         then (case redo_newDoc t obj of
                 Inl er \<Rightarrow> (st, Some er)
               | Inr d \<Rightarrow> ((w, expd, q @ [QInsert (collection obj) d]), None))
         else ((mark_expired t w, True, q), None)))"

definition redo_build :: "env \<Rightarrow> string \<Rightarrow> ledger \<Rightarrow> world \<Rightarrow> build \<times> error option" where
  "redo_build e t its w =
     (case each_item (redo_removed_item e t) (items_of (removed its)) (w, False, []) of
        (st1, Some er) \<Rightarrow> (st1, Some er)
      | (st1, None) \<Rightarrow>
          (case each_item (redo_updated_item e) (items_of (updated its)) st1 of
             (st2, Some er) \<Rightarrow> (st2, Some er)
           | (st2, None) \<Rightarrow> each_item (redo_inserted_item e t) (items_of (inserted its)) st2))"

text \<open>The method \<open>_meteorTransactionsRedo\<close>.\<close>

definition meteorTransactionsRedo ::
  "env \<Rightarrow> string option \<Rightarrow> world \<Rightarrow> world \<times> (error + jsval)" where
  "meteorTransactionsRedo e i w =
     (if noUser e
      then (w\<lparr>console := console w @ [Msg ''You must be logged in to redo actions.'']\<rparr>, Inr JUndef)
      else
        (case redo_select e i w of
           None \<Rightarrow> (w, Inr (JBool False))
         | Some lastUndo \<Rightarrow>
             (case tx_items lastUndo of
                None \<Rightarrow> (w, Inr (JBool False))
              | Some its \<Rightarrow>
                  (case redo_build e (tx_id lastUndo) its w of
                     ((w1, expd, q), Some er) \<Rightarrow> (w1, Inl er)
                   | ((w1, expd, q), None) \<Rightarrow>
                       if \<not> expd then
                         (case process_queue e q w1 of
                            (w2, Some er) \<Rightarrow> (w2, Inl er)
                          | (w2, None) \<Rightarrow>
                              (Transactions_update (tx_id lastUndo) (\<lambda>r. r\<lparr>undone := None\<rparr>) w2,
                               Inr (JBool False)))
                       else (w1, Inr (JBool True))))))"

section \<open>Reachable states of the manager\<close>

text \<open>
  The states the manager can be in: a freshly constructed \<open>Transact\<close> object over any
  store, and what any sequence of \<open>start\<close>, \<open>insert\<close>, \<open>update\<close>, \<open>remove\<close>,
  \<open>cancel\<close>, \<open>commit\<close> and \<open>rollback\<close> calls makes of it, under any configuration
  (the user may log in or out between two calls).
\<close>

text \<open>No transaction open only with an empty ledger and an empty stack.\<close>

definition idle_clean :: "world \<Rightarrow> bool" where
  "idle_clean w = (transaction_id w \<noteq> None \<or> (ledger_isEmpty (items w) \<and> executionStack w = []))"

inductive reachable :: "world \<Rightarrow> bool" where
  fresh:
    "transaction_id w = None \<Longrightarrow> autoTransaction w = False \<Longrightarrow> executionStack w = [] \<Longrightarrow>
     items w = empty_ledger \<Longrightarrow> startAttempts w = 0 \<Longrightarrow> rollback_flag w = False \<Longrightarrow>
     rollbackReason w = [] \<Longrightarrow> context_obj w = [] \<Longrightarrow> lastTransactionData w = None \<Longrightarrow>
     reachable w"
| start: "reachable w \<Longrightarrow> reachable (fst (tx_start e descr w))"
| insert: "reachable w \<Longrightarrow> reachable (fst (tx_insert e c d opt w))"
| update: "reachable w \<Longrightarrow> reachable (fst (tx_update e c d updates opt w))"
| remove: "reachable w \<Longrightarrow> reachable (fst (tx_remove e c d opt w))"
| cancel: "reachable w \<Longrightarrow> reachable (tx_cancel e w)"
| commit: "reachable w \<Longrightarrow> reachable (fst (tx_commit e txid newId w))"
| rollback: "reachable w \<Longrightarrow> reachable (tx_rollback e w)"

section \<open>The value stored at a path\<close>



section \<open>An example session\<close>

text \<open>
  A host with two of the built-in properties of ECMAScript, enough for the examples:
  every value other than \<open>null\<close> and \<open>undefined\<close> inherits \<open>constructor\<close>, the
  function that builds values of its kind (\<open>({}).constructor\<close> is \<open>Object\<close>,
  \<open>"x".constructor\<close> is \<open>String\<close>), and such a function has its \<open>name\<close>.
\<close>

definition builtin_host :: host where
  "builtin_host v key =
     (if key = ''constructor'' then
        (case v of
           JObj kvs \<Rightarrow> Some (Inr (JHost ''Object''))
         | JArr xs \<Rightarrow> Some (Inr (JHost ''Array''))
         | JStr s \<Rightarrow> Some (Inr (JHost ''String''))
         | JNum n \<Rightarrow> Some (Inr (JHost ''Number''))
         | JBool b \<Rightarrow> Some (Inr (JHost ''Boolean''))
         | JHost n \<Rightarrow> Some (Inr (JHost ''Function''))
         | _ \<Rightarrow> None)
      else if key = ''name'' then
        (case v of JHost n \<Rightarrow> Some (Inr (JStr n)) | _ \<Rightarrow> None)
      else None)"

text \<open>
  A configuration and a fresh manager on which the theorems below are run: a logged-in
  user on the server, every permission granted, every collection registered, ids
  \<open>i\<close>, \<open>ii\<close>, \<open>iii\<close>, ... drawn in turn, and a modifier engine that accepts every
  modifier and leaves the document as it is.
\<close>

definition example_env :: env where
  "example_env =
     \<lparr>requireUser = True, userId = Some ''u'', isServer = True, softDelete = False,
      logging = True, checkPermission = (\<lambda>action c d updates. True),
      makeContext = (\<lambda>action c d updates. []), collectionIndex = (\<lambda>c. True),
      randomId = (\<lambda>n. replicate (Suc n) CHR ''i''), applyModifier = (\<lambda>m d. Inr d),
      prototypes = builtin_host\<rparr>"

definition initial_world :: world where
  "initial_world =
     \<lparr>db = (\<lambda>c. []), transactions = [], draws = 0, clock = 7, console = [],
      transaction_id = None, autoTransaction = False, executionStack = [],
      items = empty_ledger, startAttempts = 0, rollback_flag = False, rollbackReason = [],
      context_obj = [], lastTransactionData = None\<rparr>"

section \<open>Notions used by the properties\<close>

text \<open>
  The permission gate refuses an action: the check is not overridden by the options
  and the application's predicate answers \<open>false\<close>.
\<close>

definition denies :: "env \<Rightarrow> string \<Rightarrow> string \<Rightarrow> jsval \<Rightarrow> modifier \<Rightarrow> options option \<Rightarrow> bool" where
  "denies e action c d updates opt =
     (\<not> permissionCheckOverridden opt \<and> \<not> permissionCheck e action c d updates)"

text \<open>What a refused action leaves: the flag and the reason set, the store, the
  transaction, the stack and the ledger as they were.\<close>

definition flagged_denied :: "world \<Rightarrow> world \<Rightarrow> bool" where
  "flagged_denied w w' =
     (rollback_flag w' \<and> rollbackReason w' = ''permission-denied'' \<and> db w' = db w \<and>
      transactions w' = transactions w \<and> transaction_id w' = transaction_id w \<and>
      executionStack w' = executionStack w \<and> items w' = items w)"

text \<open>The error \<open>commit\<close> builds for the reason \<open>permission-denied\<close>.\<close>

definition permission_denied_error :: error where
  "permission_denied_error =
     MeteorError ''permission-denied''
       ''One or more permissions were denied, so transaction was rolled back.''"

text \<open>The example configuration with every permission refused.\<close>

definition denying_env :: env where
  "denying_env = example_env\<lparr>checkPermission := (\<lambda>action c d updates. False)\<rparr>"

text \<open>
  Two worlds that agree on everything a write to the document store reads: the
  collections, the ids drawn, the clock, the open transaction and the ledger. They may
  differ in the console, the execution stack and the other fields of the manager.
\<close>

definition same_data :: "world \<Rightarrow> world \<Rightarrow> bool" where
  "same_data w w' =
     (db w = db w' \<and> draws w = draws w' \<and> clock w = clock w' \<and>
      transaction_id w = transaction_id w' \<and> items w = items w')"

text \<open>
  Running closures first-queued first, as the specification words it: the closure at
  the head of the queue runs first, each on the world the one before left; the results
  are collected in that order, and an exception stops the run.
\<close>

fun exec_fifo :: "env \<Rightarrow> thunk list \<Rightarrow> world \<Rightarrow> world \<times> (error + jsval list)" where
  "exec_fifo e [] w = (w, Inr [])"
| "exec_fifo e (t # ts) w =
     (case run_thunk e t w of
        (w1, Inl er) \<Rightarrow> (w1, Inl er)
      | (w1, Inr v) \<Rightarrow>
          (case exec_fifo e ts w1 of
             (w2, Inl er) \<Rightarrow> (w2, Inl er)
           | (w2, Inr vs) \<Rightarrow> (w2, Inr (v # vs))))"

text \<open>The ids that the insert closures of a queue produced, given the results of all
  its closures.\<close>

fun is_insert :: "thunk \<Rightarrow> bool" where
  "is_insert (InsertThunk c d opt) = True"
| "is_insert t = False"

definition insert_ids :: "thunk list \<Rightarrow> jsval list \<Rightarrow> jsval list" where
  "insert_ids ts vs = map snd (filter (\<lambda>tv. is_insert (fst tv)) (zip ts vs))"

text \<open>The success result: \<open>true\<close> for no id, the id itself for exactly one, the
  sequence of ids for more than one.\<close>

definition newId_result :: "jsval list \<Rightarrow> jsval" where
  "newId_result ids = (case ids of [] \<Rightarrow> JBool True | [i] \<Rightarrow> i | i # j # js \<Rightarrow> JArr ids)"

text \<open>The example session after \<open>start\<close> and two queued inserts.\<close>

definition two_queued :: world where
  "two_queued =
     fst (tx_insert example_env ''docs'' (JObj [(''title'', JStr ''B'')]) None
       (fst (tx_insert example_env ''docs'' (JObj [(''title'', JStr ''A'')]) None
         (fst (tx_start example_env None initial_world)))))"

text \<open>The state of \<open>rollback\<close> after its first two loops, and after all three.\<close>

definition rollback_removed_updated :: "env \<Rightarrow> world \<Rightarrow> world \<times> bool" where
  "rollback_removed_updated e w =
     fold (rollback_updated_item e) (items_of (updated (items w)))
       (fold (rollback_removed_item e) (items_of (removed (items w))) (w, False))"

definition rollback_loops :: "env \<Rightarrow> world \<Rightarrow> world \<times> bool" where
  "rollback_loops e w =
     fold (rollback_inserted_item e) (items_of (inserted (items w))) (rollback_removed_updated e w)"

text \<open>
  The document \<open>d\<close> of collection \<open>c\<close> is matched by the selector of an instant inserted
  item: same \<open>_id\<close>, and a \<open>transaction_id\<close> equal to the id of this transaction.
\<close>

definition deleted_by_rollback :: "env \<Rightarrow> world \<Rightarrow> string \<Rightarrow> jsval \<Rightarrow> bool" where
  "deleted_by_rollback e w c d =
     list_ex (\<lambda>obj. instant obj \<and> collection obj = c \<and> collectionIndex e c \<and>
                    matches (SelIdTx (item_id obj) (txval w)) d)
       (items_of (inserted (items w)))"

text \<open>
  The inverse that \<open>rollback\<close> applies for an item of each kind, as the specification
  words it: a hard-removed document is inserted again, a soft delete is cleared, an
  update gets its stored inverse, an inserted document is deleted under a selector that
  requires this transaction's id \<open>t\<close>. \<open>None\<close>: the item is not instant, or it is an
  update without a usable inverse, and \<open>rollback\<close> passes it by.
\<close>

fun rollback_inverse :: "jsval \<Rightarrow> itype \<Rightarrow> item \<Rightarrow> queued option" where
  "rollback_inverse t Removed obj =
     (if instant obj
      then Some (case doc obj of
                   None \<Rightarrow>
                     QUpdate (collection obj) (SelId (item_id obj))
                       [(''$unset'', [(''deleted'', JNum 1), (''transaction_id'', t)])]
                 | Some d \<Rightarrow>
                     if truthy d then QInsert (collection obj) d
                     else QUpdate (collection obj) (SelId (item_id obj))
                            [(''$unset'', [(''deleted'', JNum 1), (''transaction_id'', t)])])
      else None)"
| "rollback_inverse t Updated obj =
     (if instant obj
      then (case operation_modifier (inverse_op obj) of
              None \<Rightarrow> None
            | Some m \<Rightarrow> Some (QUpdate (collection obj) (SelId (item_id obj)) m))
      else None)"
| "rollback_inverse t Inserted obj =
     (if instant obj then Some (QRemove (collection obj) (SelIdTx (item_id obj) t)) else None)"

text \<open>The inverses of a ledger in the order \<open>rollback\<close> visits its items: the removed
  items, the updated ones, the inserted ones.\<close>

definition planned :: "jsval \<Rightarrow> itype \<Rightarrow> item list \<Rightarrow> (itype \<times> queued) list" where
  "planned t ty objs =
     concat (map (\<lambda>obj. case rollback_inverse t ty obj of None \<Rightarrow> [] | Some q \<Rightarrow> [(ty, q)]) objs)"

definition rollback_plan :: "jsval \<Rightarrow> ledger \<Rightarrow> (itype \<times> queued) list" where
  "rollback_plan t its =
     planned t Removed (items_of (removed its)) @
     planned t Updated (items_of (updated its)) @
     planned t Inserted (items_of (inserted its))"

text \<open>The console line for one inverse: the error when the write failed, the line of
  its kind when it went through.\<close>

fun rolled_back :: "itype \<Rightarrow> logmsg" where
  "rolled_back Removed = Msg ''Rolled back remove''"
| "rolled_back Updated = Msg ''Rolled back update''"
| "rolled_back Inserted = Msg ''Rolled back insert''"

definition report_line :: "itype \<Rightarrow> error option \<Rightarrow> logmsg" where
  "report_line ty r = (case r of None \<Rightarrow> rolled_back ty | Some er \<Rightarrow> ErrMsg er)"

text \<open>
  Best effort, as the specification words it: every inverse of the list is applied in
  turn to the store as the earlier ones left it, whether these failed or not, and each
  is reported on the console. The result is the world and the outcome of every write,
  \<open>None\<close> for one that went through.
\<close>

fun best_effort :: "env \<Rightarrow> (itype \<times> queued) list \<Rightarrow> world \<Rightarrow> world \<times> error option list" where
  "best_effort e [] w = (w, [])"
| "best_effort e (tq # rest) w =
     (case run_queued e (snd tq) w of
        (w1, r) \<Rightarrow>
          (case best_effort e rest (tx_log e [report_line (fst tq) r] w1) of
             (w2, rs) \<Rightarrow> (w2, r # rs)))"

definition failed :: "error option \<Rightarrow> bool" where
  "failed r = (r \<noteq> None)"

text \<open>
  A configuration whose index lacks the collection \<open>ghost\<close>, and an open transaction
  \<open>i\<close> with instant items of every kind. Removed: the document \<open>b\<close>, whose id is
  taken, and the document \<open>r\<close>. Updated: a document of \<open>ghost\<close>, and the document
  \<open>a\<close>. Inserted: the documents \<open>a\<close> and \<open>b\<close>, of which \<open>b\<close> has since been claimed
  by the transaction \<open>j\<close>.
\<close>

definition partial_env :: env where
  "partial_env = example_env\<lparr>collectionIndex := (\<lambda>c. c \<noteq> ''ghost'')\<rparr>"

definition claimed_world :: world where
  "claimed_world =
     \<lparr>db = (\<lambda>c. if c = ''docs''
                 then [JObj [(''_id'', JStr ''a''), (''transaction_id'', JStr ''i'')],
                       JObj [(''_id'', JStr ''b''), (''transaction_id'', JStr ''j'')]]
                 else []),
      transactions = [\<lparr>tx_id = ''i'', user_id = Some ''u'', timestamp = 7,
        description = ''last action'', tx_context = None, tx_items = None, undone = None,
        expired = False\<rparr>],
      draws = 3, clock = 7, console = [],
      transaction_id = Some ''i'', autoTransaction = False, executionStack = [],
      items = \<lparr>inserted = Some
                 [make_item ''docs'' (JStr ''a'') (NewDocData (JObj [])) True,
                  make_item ''docs'' (JStr ''b'') (NewDocData (JObj [])) True],
               updated = Some
                 [make_item ''ghost'' (JStr ''x'')
                    (UpdateData \<lparr>command = Some ''$set'', data = [(''title'', JStr ''B'')]\<rparr>
                                \<lparr>command = Some ''$set'', data = [(''title'', JStr ''A'')]\<rparr>) True,
                  make_item ''docs'' (JStr ''a'')
                    (UpdateData \<lparr>command = Some ''$set'', data = [(''title'', JStr ''B'')]\<rparr>
                                \<lparr>command = Some ''$set'', data = [(''title'', JStr ''A'')]\<rparr>) True],
               removed = Some
                 [make_item ''docs'' (JStr ''b'') (DocData (JObj [(''_id'', JStr ''b'')])) True,
                  make_item ''docs'' (JStr ''r'') (DocData (JObj [(''_id'', JStr ''r'')])) True]\<rparr>,
      startAttempts = 0, rollback_flag = False, rollbackReason = [],
      context_obj = [], lastTransactionData = None\<rparr>"

text \<open>
  The expiry checks of undo, as the specification words them: a removed item that
  holds the removed document has expired when a document of that id exists; an
  inserted item has expired when the live document carries a transaction id other than
  this transaction's.
\<close>

definition removed_expired :: "world \<Rightarrow> item \<Rightarrow> bool" where
  "removed_expired w obj =
     (case doc obj of
        None \<Rightarrow> False
      | Some d \<Rightarrow> truthy d \<and> list_ex (matches (SelId (field d ''_id''))) (db w (collection obj)))"

definition inserted_expired :: "world \<Rightarrow> string \<Rightarrow> item \<Rightarrow> bool" where
  "inserted_expired w t obj =
     list_ex (matches (SelIdOtherTx (item_id obj) (JStr t))) (db w (collection obj))"

definition undo_expired :: "world \<Rightarrow> string \<Rightarrow> ledger \<Rightarrow> bool" where
  "undo_expired w t its =
     (list_ex (removed_expired w) (items_of (removed its)) \<or>
      list_ex (inserted_expired w t) (items_of (inserted its)))"

text \<open>
  The compensating actions of undo: a hard-removed document is inserted again, a soft
  delete is cleared, an update gets its stored inverse, an inserted document is removed
  under a selector that also requires this transaction's id.
\<close>

definition undo_removed_action :: "string \<Rightarrow> item \<Rightarrow> queued" where
  "undo_removed_action t obj =
     (case doc obj of
        None \<Rightarrow> QUpdate (collection obj) (SelId (item_id obj)) (clear_softDelete t)
      | Some d \<Rightarrow>
          if truthy d then QInsert (collection obj) d
          else QUpdate (collection obj) (SelId (item_id obj)) (clear_softDelete t))"

definition inverse_action :: "item \<Rightarrow> queued list" where
  "inverse_action obj =
     (case operation_modifier (inverse_op obj) of
        None \<Rightarrow> []
      | Some m \<Rightarrow> [QUpdate (collection obj) (SelId (item_id obj)) m])"

definition undo_inserted_action :: "string \<Rightarrow> item \<Rightarrow> queued" where
  "undo_inserted_action t obj = QRemove (collection obj) (SelIdTx (item_id obj) (JStr t))"

definition undo_queue :: "string \<Rightarrow> ledger \<Rightarrow> queued list" where
  "undo_queue t its =
     map (undo_removed_action t) (items_of (removed its)) @
     concat (map inverse_action (items_of (updated its))) @
     map (undo_inserted_action t) (items_of (inserted its))"

text \<open>Every item of the ledger names a collection of \<open>tx.collectionIndex\<close>.\<close>

definition registered :: "env \<Rightarrow> ledger \<Rightarrow> bool" where
  "registered e its =
     list_all (\<lambda>obj. collectionIndex e (collection obj))
       (items_of (removed its) @ items_of (updated its) @ items_of (inserted its))"

text \<open>
  The store after a lone \<open>insert\<close> of the example session (an automatic transaction
  \<open>i\<close> that inserted the document \<open>ii\<close>), and the same store after a later transaction
  \<open>j\<close> has edited that document.
\<close>

definition inserted_ledger :: ledger where
  "inserted_ledger =
     \<lparr>inserted = Some [make_item ''docs'' (JStr ''ii'')
          (NewDocData (JObj [(''title'', JStr ''A''), (''transaction_id'', JStr ''i'')])) True],
      updated = None, removed = None\<rparr>"

definition inserted_record :: txrecord where
  "inserted_record =
     \<lparr>tx_id = ''i'', user_id = Some ''u'', timestamp = 7, description = ''add doc'',
      tx_context = Some [], tx_items = Some inserted_ledger, undone = None, expired = False\<rparr>"

definition committed_world :: world where
  "committed_world =
     initial_world
       \<lparr>db := (\<lambda>c. if c = ''docs''
                   then [JObj [(''_id'', JStr ''ii''), (''title'', JStr ''A''),
                               (''transaction_id'', JStr ''i'')]]
                   else []),
        transactions := [inserted_record], draws := 2\<rparr>"

definition edited_world :: world where
  "edited_world =
     committed_world
       \<lparr>db := (\<lambda>c. if c = ''docs''
                   then [JObj [(''_id'', JStr ''ii''), (''title'', JStr ''A2''),
                               (''transaction_id'', JStr ''j'')]]
                   else [])\<rparr>"

text \<open>
  The expiry check of redo, as the specification words it: an inserted item has
  expired when a document of its id exists in its collection.
\<close>

definition id_taken :: "world \<Rightarrow> item \<Rightarrow> bool" where
  "id_taken w obj = list_ex (matches (SelId (item_id obj))) (db w (collection obj))"

definition redo_expired :: "world \<Rightarrow> ledger \<Rightarrow> bool" where
  "redo_expired w its = list_ex (id_taken w) (items_of (inserted its))"

text \<open>
  Every inserted item of the ledger holds the document that was inserted, as the items
  that \<open>insert\<close> records do.
\<close>

definition has_newDoc :: "item \<Rightarrow> bool" where
  "has_newDoc obj = (case newDoc obj of Some (JObj kvs) \<Rightarrow> True | _ \<Rightarrow> False)"

definition payload_recorded :: "ledger \<Rightarrow> bool" where
  "payload_recorded its = list_all has_newDoc (items_of (inserted its))"

text \<open>The document that redo inserts for an inserted item: the recorded \<open>newDoc\<close> with
  the id of the transaction and the id of the document.\<close>

definition reinserted :: "string \<Rightarrow> item \<Rightarrow> jsval" where
  "reinserted t obj =
     (case newDoc obj of
        Some (JObj kvs) \<Rightarrow>
          JObj (obj_put ''_id'' (item_id obj) (obj_put ''transaction_id'' (JStr t) kvs))
      | _ \<Rightarrow> JUndef)"

text \<open>
  The actions of redo: a hard-removed document is removed again, a soft delete is
  marked again, an update is applied again, an inserted item gets its recorded
  \<open>newDoc\<close> inserted with the ids of the transaction and of the document.
\<close>

definition redo_removed_action :: "world \<Rightarrow> string \<Rightarrow> item \<Rightarrow> queued" where
  "redo_removed_action w t obj =
     (case doc obj of
        None \<Rightarrow>
          QUpdate (collection obj) (SelId (item_id obj))
            [(''$set'', [(''deleted'', JNum (int (clock w))), (''transaction_id'', JStr t)])]
      | Some d \<Rightarrow>
          if truthy d then QRemove (collection obj) (SelId (item_id obj))
          else QUpdate (collection obj) (SelId (item_id obj))
                 [(''$set'', [(''deleted'', JNum (int (clock w))), (''transaction_id'', JStr t)])])"

definition forward_action :: "item \<Rightarrow> queued list" where
  "forward_action obj =
     (case operation_modifier (update_op obj) of
        None \<Rightarrow> []
      | Some m \<Rightarrow> [QUpdate (collection obj) (SelId (item_id obj)) m])"

definition redo_inserted_action :: "string \<Rightarrow> item \<Rightarrow> queued" where
  "redo_inserted_action t obj = QInsert (collection obj) (reinserted t obj)"

definition redo_queue :: "world \<Rightarrow> string \<Rightarrow> ledger \<Rightarrow> queued list" where
  "redo_queue w t its =
     map (redo_removed_action w t) (items_of (removed its)) @
     concat (map forward_action (items_of (updated its))) @
     map (redo_inserted_action t) (items_of (inserted its))"

text \<open>
  The store of the example after the transaction \<open>i\<close> was undone, and the same with a
  document of the id \<open>ii\<close> present again.
\<close>

definition undone_record :: txrecord where
  "undone_record = inserted_record\<lparr>undone := Some 7\<rparr>"

definition undone_world :: world where
  "undone_world = committed_world\<lparr>db := (\<lambda>c. []), transactions := [undone_record]\<rparr>"

definition retaken_world :: world where
  "retaken_world = committed_world\<lparr>transactions := [undone_record]\<rparr>"

section \<open>Properties of the dotted-path lookup\<close>

lemma drillDown_last:
  "\<not> 1 < length (split_dot key) \<Longrightarrow>
   drillDown h obj key = (if truthy obj then getProp h obj key else Inr JUndef)"
  by (subst drillDown.simps) (simp add: Let_def)


lemma split_dot_single: "\<not> 1 < length (split_dot key) \<Longrightarrow> split_dot key = [key]"
  using join_split_dot [of key] split_dot_nonempty [of key]
  by (cases "split_dot key") auto

















text \<open>The same through a stored value: \<open>a.constructor.name\<close> on \<open>{a: "x"}\<close> is the
  name of the function \<open>String\<close>.\<close>

lemma drillDown_constructor_name:
  "drillDown builtin_host (JObj [(''a'', JStr ''x'')]) ''a.constructor.name'' = Inr (JStr ''String'')"
proof -
  have s: "split_dot ''a.constructor.name'' = [''a'', ''constructor'', ''name'']"
    and s': "split_dot ''constructor.name'' = [''constructor'', ''name'']"
    by simp_all
  have "drillDown builtin_host (JObj [(''a'', JStr ''x'')]) ''a.constructor.name'' =
      drillDown builtin_host (JStr ''x'') ''constructor.name''"
    by (subst drillDown.simps) (simp add: s Let_def getProp_def)
  also have "\<dots> = drillDown builtin_host (JHost ''String'') ''name''"
    by (subst drillDown.simps)
       (simp add: s' Let_def getProp_def builtin_host_def array_index_def digit_chars_def)
  also have "\<dots> = Inr (JStr ''String'')"
    by (subst drillDown.simps) (simp add: Let_def getProp_def builtin_host_def)
  finally show ?thesis .
qed

section \<open>Properties of the inverse synthesizer\<close>

text \<open>
  C1. For a \<open>$set\<close>, \<open>$unset\<close> or \<open>$inc\<close> update the synthesizer looks every touched
  path up in the prior document; a present prior value is to give a \<open>$set\<close> of that
  value, an absent one an \<open>$unset\<close>. The code keeps one \<open>inverseCommand\<close> for the whole
  update map: on the prior document \<open>{_id: "a", title: "A"}\<close> and the update
  \<open>{$set: {title: "B", subtitle: "S"}}\<close> the absent \<open>subtitle\<close> turns the command into
  \<open>$unset\<close> for \<open>title\<close> as well, whose prior value \<open>"A"\<close> is present. This is so on
  every host whose prototypes give a document no property \<open>subtitle\<close>.
\<close>

theorem synthesizeInverse_mixed_keys:
  assumes "h (JObj [(''_id'', JStr ''a''), (''title'', JStr ''A'')]) ''subtitle'' = None"
  shows "synthesizeInverse h ''$set'' [(''title'', JStr ''B''), (''subtitle'', JStr ''S'')]
     (JObj [(''_id'', JStr ''a''), (''title'', JStr ''A'')]) =
   Inr \<lparr>command = Some ''$unset'', data = [(''title'', JStr ''A''), (''subtitle'', JStr [])]\<rparr>"
  using assms
  by (simp add: synthesizeInverse_def inverseOps_def drillDown_last getProp_def)

theorem synthesizeInverse_mixed_keys_witness:
  "builtin_host (JObj [(''_id'', JStr ''a''), (''title'', JStr ''A'')]) ''subtitle'' = None \<and>
   synthesizeInverse builtin_host ''$set'' [(''title'', JStr ''B''), (''subtitle'', JStr ''S'')]
     (JObj [(''_id'', JStr ''a''), (''title'', JStr ''A'')]) =
   Inr \<lparr>command = Some ''$unset'', data = [(''title'', JStr ''A''), (''subtitle'', JStr [])]\<rparr>"
proof -
  have "builtin_host (JObj [(''_id'', JStr ''a''), (''title'', JStr ''A'')]) ''subtitle'' = None"
    by (simp add: builtin_host_def)
  with synthesizeInverse_mixed_keys [of builtin_host] show ?thesis
    by simp
qed

section \<open>Properties of commit\<close>

lemma cleanReset_fields [simp]:
  "transaction_id (cleanReset w) = None"
  "autoTransaction (cleanReset w) = False"
  "items (cleanReset w) = empty_ledger"
  "executionStack (cleanReset w) = []"
  "startAttempts (cleanReset w) = 0"
  "rollback_flag (cleanReset w) = False"
  "rollbackReason (cleanReset w) = []"
  "context_obj (cleanReset w) = []"
  "db (cleanReset w) = db w"
  "transactions (cleanReset w) = transactions w"
  "draws (cleanReset w) = draws w"
  "clock (cleanReset w) = clock w"
  "console (cleanReset w) = console w"
  "lastTransactionData (cleanReset w) = lastTransactionData w"
  by (simp_all add: cleanReset_def)

lemma commit_finish_fields:
  "transaction_id (fst (commit_finish e n w)) = None"
  "items (fst (commit_finish e n w)) = empty_ledger"
  "executionStack (fst (commit_finish e n w)) = []"
  "db (fst (commit_finish e n w)) = db w"
  "transactions (fst (commit_finish e n w)) = transactions w"
  "returned (snd (commit_finish e n w)) = JBool True"
  "reported (snd (commit_finish e n w)) = Some (None, if truthy n then n else JBool True)"
  by (simp_all add: commit_finish_def frame)

lemma example_started:
  "fst (tx_start example_env None initial_world) =
     \<lparr>db = (\<lambda>c. []),
      transactions = [\<lparr>tx_id = ''i'', user_id = Some ''u'', timestamp = 7,
        description = ''last action'', tx_context = None, tx_items = None, undone = None,
        expired = False\<rparr>],
      draws = 1, clock = 7, console = [Msg ''Started transaction''],
      transaction_id = Some ''i'', autoTransaction = False, executionStack = [],
      items = empty_ledger, startAttempts = 0, rollback_flag = False, rollbackReason = [],
      context_obj = [], lastTransactionData = None\<rparr>"
  by (simp add: tx_start_def example_env_def initial_world_def noUser_def tx_log_def Let_def)

text \<open>
  C8. When a transaction is open with an empty ledger and an empty execution stack, a
  call of \<open>commit\<close> that completes (it returns \<open>true\<close>; a call refused at entry returns
  \<open>undefined\<close> and leaves the transaction open) leaves no record of that transaction in
  the \<open>transactions\<close> collection: the record written by \<open>start\<close> is removed, the
  other records and the document store are as before, and no transaction is open.
\<close>

theorem commit_empty_transaction:
  assumes "transaction_id w = Some t"
    and "ledger_isEmpty (items w)" and "executionStack w = []"
    and "tx_commit e txid newId w = (w', r)"
    and "returned r = JBool True"
  shows "t \<notin> tx_id ` set (transactions w') \<and>
         transactions w' = filter (\<lambda>rec. tx_id rec \<noteq> t) (transactions w) \<and>
         db w' = db w \<and> transaction_id w' = None"
proof -
  have fin: "(w', r) = commit_finish e newId
      (tx_log e [Msg ''Empty transaction removed'']
         (Transactions_remove (Some t) (w\<lparr>lastTransactionData := Some (transaction_id w, None)\<rparr>)))"
    using assms by (auto simp: tx_commit_def Let_def split: if_splits)
  have "w' = fst (commit_finish e newId
      (tx_log e [Msg ''Empty transaction removed'']
         (Transactions_remove (Some t) (w\<lparr>lastTransactionData := Some (transaction_id w, None)\<rparr>))))"
    using fin by (metis fst_conv)
  then show ?thesis
    by (auto simp: commit_finish_fields frame Transactions_remove_def)
qed

theorem commit_empty_transaction_witness:
  "(let w = fst (tx_start example_env None initial_world);
        res = tx_commit example_env ArgUndefined JUndef w
    in transaction_id w = Some ''i'' \<and> ledger_isEmpty (items w) \<and> executionStack w = [] \<and>
       map tx_id (transactions w) = [''i''] \<and>
       returned (snd res) = JBool True \<and> transactions (fst res) = [] \<and>
       ''i'' \<notin> tx_id ` set (transactions (fst res)))"
proof -
  let ?w = "fst (tx_start example_env None initial_world)"
  let ?res = "tx_commit example_env ArgUndefined JUndef ?w"
  note w = example_started
  have h1: "transaction_id ?w = Some ''i''" by (simp add: w)
  have h2: "ledger_isEmpty (items ?w)" by (simp add: w ledger_isEmpty_def empty_ledger_def)
  have h3: "executionStack ?w = []" by (simp add: w)
  have h4: "?res = (fst ?res, snd ?res)" by simp
  have h5: "returned (snd ?res) = JBool True"
    unfolding w
    by (simp add: tx_commit_def noUser_def example_env_def ledger_isEmpty_def empty_ledger_def
        commit_finish_def Let_def)
  have tr: "map tx_id (transactions ?w) = [''i'']" by (simp add: w)
  have "transactions (fst ?res) = filter (\<lambda>rec. tx_id rec \<noteq> ''i'') (transactions ?w)"
    using commit_empty_transaction [OF h1 h2 h3 h4 h5] by simp
  also have "\<dots> = []" unfolding w by simp
  finally have "transactions (fst ?res) = []" .
  with h1 h2 h3 h5 tr show ?thesis by (simp add: Let_def)
qed

section \<open>Properties of the reachable states\<close>

lemma setContext_frame [frame]:
  "db (setContext ctx w) = db w"
  "transactions (setContext ctx w) = transactions w"
  "draws (setContext ctx w) = draws w"
  "clock (setContext ctx w) = clock w"
  "console (setContext ctx w) = console w"
  "transaction_id (setContext ctx w) = transaction_id w"
  "autoTransaction (setContext ctx w) = autoTransaction w"
  "executionStack (setContext ctx w) = executionStack w"
  "items (setContext ctx w) = items w"
  "startAttempts (setContext ctx w) = startAttempts w"
  "rollback_flag (setContext ctx w) = rollback_flag w"
  "rollbackReason (setContext ctx w) = rollbackReason w"
  "lastTransactionData (setContext ctx w) = lastTransactionData w"
  by (simp_all add: setContext_def)

lemma txval_frame [frame]:
  "txval (setContext ctx w) = txval w"
  "txval (pushToRecord ty c i fd inst w) = txval w"
  by (simp_all add: txval_def frame)

lemma tx_rollback_clean:
  "transaction_id (tx_rollback e w) = None"
  "items (tx_rollback e w) = empty_ledger"
  "executionStack (tx_rollback e w) = []"
  "autoTransaction (tx_rollback e w) = False"
  "startAttempts (tx_rollback e w) = 0"
  "rollback_flag (tx_rollback e w) = False"
  "rollbackReason (tx_rollback e w) = []"
  "context_obj (tx_rollback e w) = []"
  by (simp_all add: tx_rollback_def Let_def frame)

lemma idle_clean_open: "transaction_id w \<noteq> None \<Longrightarrow> idle_clean w"
  by (simp add: idle_clean_def)

lemma idle_clean_reset:
  "transaction_id w = None \<Longrightarrow> items w = empty_ledger \<Longrightarrow> executionStack w = [] \<Longrightarrow> idle_clean w"
  by (simp add: idle_clean_def ledger_isEmpty_def empty_ledger_def)

lemma idle_clean_rollback: "idle_clean (tx_rollback e w)"
  by (simp add: idle_clean_reset tx_rollback_clean)

lemma idle_clean_finish: "idle_clean (fst (commit_finish e n w))"
  by (simp add: idle_clean_reset commit_finish_fields)

lemma idle_clean_same:
  "idle_clean w \<Longrightarrow> transaction_id w' = transaction_id w \<Longrightarrow> items w' = items w \<Longrightarrow>
   executionStack w' = executionStack w \<Longrightarrow> idle_clean w'"
  by (simp add: idle_clean_def)

lemma idle_clean_commit: "idle_clean w \<Longrightarrow> idle_clean (fst (tx_commit e txid newId w))"
proof -
  assume w: "idle_clean w"
  show ?thesis
  proof (cases "noUser e")
    case True
    then show ?thesis
      using w by (auto simp: tx_commit_def frame intro: idle_clean_same)
  next
    case False
    show ?thesis
    proof (cases "transaction_id w")
      case None
      with False show ?thesis
        by (simp add: tx_commit_def Let_def idle_clean_reset frame)
    next
      case (Some t)
      with False show ?thesis
        by (auto simp: tx_commit_def Let_def split_beta idle_clean_rollback idle_clean_finish
            intro: idle_clean_open split: sum.splits)
    qed
  qed
qed

lemma tx_start_opens:
  "\<not> noUser e \<Longrightarrow> transaction_id (fst (tx_start e descr w)) \<noteq> None"
  by (simp add: tx_start_def Let_def frame split: option.splits)

lemma idle_clean_start: "idle_clean w \<Longrightarrow> idle_clean (fst (tx_start e descr w))"
proof (cases "noUser e")
  case True
  then show ?thesis by (simp add: tx_start_def idle_clean_reset frame)
next
  case False
  then show ?thesis by (intro idle_clean_open tx_start_opens)
qed

lemma openAutoTransaction_opens:
  "\<not> noUser e \<Longrightarrow> transaction_id (openAutoTransaction e descr w) \<noteq> None"
  using tx_start_opens [of e "Some descr" "w\<lparr>autoTransaction := True\<rparr>"]
  by (cases "transaction_id w") (simp_all add: openAutoTransaction_def)

lemma idle_clean_closeAuto: "idle_clean w \<Longrightarrow> idle_clean (closeAutoTransaction e opt newId w)"
proof (cases "autoTransaction w")
  case True
  assume "idle_clean w"
  then have "idle_clean (tx_log e [Msg ''Auto committed''] w)"
    by (rule idle_clean_same) (simp_all add: frame)
  then show ?thesis
    using True by (simp add: closeAutoTransaction_def idle_clean_commit)
next
  case False
  assume "idle_clean w"
  with False show ?thesis by (simp add: closeAutoTransaction_def)
qed

lemma idle_clean_cancel: "idle_clean w \<Longrightarrow> idle_clean (tx_cancel e w)"
  by (erule idle_clean_same) (simp_all add: tx_cancel_def frame)

lemma idle_clean_insert_queue:
  "transaction_id w \<noteq> None \<Longrightarrow> idle_clean (fst (insert_queue e c d opt w))"
proof -
  assume "transaction_id w \<noteq> None"
  then have "idle_clean (tx_log e [Msg ''Pushed insert command to stack'']
      (w\<lparr>executionStack := executionStack w @ [InsertThunk c d opt]\<rparr>))"
    by (intro idle_clean_open) (simp add: frame)
  then show ?thesis
    by (simp add: insert_queue_def Let_def idle_clean_closeAuto)
qed

lemma idle_clean_denied:
  "idle_clean w \<Longrightarrow>
   idle_clean ((tx_log e ms w)\<lparr>rollback_flag := True, rollbackReason := reason\<rparr>)"
  by (erule idle_clean_same) (simp_all add: frame)

lemma idle_clean_insert: "idle_clean w \<Longrightarrow> idle_clean (fst (tx_insert e c d opt w))"
proof -
  assume w: "idle_clean w"
  show ?thesis
  proof (cases "rollback_flag w \<or> noUser e")
    case True
    with w show ?thesis by (simp add: tx_insert_def)
  next
    case guard: False
    then have nu: "\<not> noUser e" by simp
    show ?thesis
    proof (cases "permissionCheckOverridden opt \<or> permissionCheck e ''insert'' c d []")
      case False
      with guard w show ?thesis
        by (simp add: tx_insert_def idle_clean_denied)
    next
      case True
      let ?w2 = "setContext (context_for e opt ''insert'' c d [])
                   (openAutoTransaction e (''add '' @ butlast c) w)"
      have op: "transaction_id ?w2 \<noteq> None"
        using openAutoTransaction_opens [OF nu] by (simp add: frame)
      show ?thesis
      proof (cases "is_instant opt \<or> autoTransaction ?w2")
        case False
        with True guard idle_clean_insert_queue [OF op, of e c d opt] show ?thesis
          by (simp add: tx_insert_def Let_def)
      next
        case inst: True
        show ?thesis
        proof (cases "extend_doc d [(''transaction_id'', txval ?w2)]")
          case threw: (Inl er)
          have "transaction_id
              ((tx_log e [ErrMsg er, Msg ''Rollback initiated by instant insert command''] ?w2)
                 \<lparr>rollback_flag := True, rollbackReason := ''insert-error''\<rparr>) \<noteq> None"
            using op by (simp add: frame)
          then have "idle_clean (fst (insert_queue e c d opt
              ((tx_log e [ErrMsg er, Msg ''Rollback initiated by instant insert command''] ?w2)
                 \<lparr>rollback_flag := True, rollbackReason := ''insert-error''\<rparr>)))"
            by (rule idle_clean_insert_queue)
          with True guard inst threw show ?thesis
            by (simp add: tx_insert_def Let_def)
        next
          case ext: (Inr d')
          obtain w3 r where di: "doInsert e c d' ?w2 = (w3, r)"
            by (cases "doInsert e c d' ?w2")
          have "transaction_id w3 = transaction_id (fst (doInsert e c d' ?w2))"
            using di by simp
          then have w3: "transaction_id w3 \<noteq> None"
            using op by (simp add: frame)
          show ?thesis
          proof (cases r)
            case (Inl er)
            have "idle_clean (fst (insert_queue e c d' opt
                ((tx_log e [ErrMsg er, Msg ''Rollback initiated by instant insert command''] w3)
                   \<lparr>rollback_flag := True, rollbackReason := ''insert-error''\<rparr>)))"
              by (rule idle_clean_insert_queue) (simp add: frame w3)
            with True guard inst ext di Inl show ?thesis
              by (simp add: tx_insert_def Let_def)
          next
            case (Inr newId)
            have "idle_clean (pushToRecord Inserted c newId (NewDocData d') True w3)"
              by (rule idle_clean_open) (simp add: frame w3)
            then have "idle_clean (closeAutoTransaction e opt newId
                (pushToRecord Inserted c newId (NewDocData d') True w3))"
              by (rule idle_clean_closeAuto)
            then have "idle_clean (tx_log e [Msg ''Executed instant insert'']
                (closeAutoTransaction e opt newId
                  (pushToRecord Inserted c newId (NewDocData d') True w3)))"
              by (rule idle_clean_same) (simp_all add: frame)
            with True guard inst ext di Inr show ?thesis
              by (simp add: tx_insert_def Let_def)
          qed
        qed
      qed
    qed
  qed
qed

lemma idle_clean_remove: "idle_clean w \<Longrightarrow> idle_clean (fst (tx_remove e c d opt w))"
proof -
  assume w: "idle_clean w"
  let ?i = "if isObject d then field d ''_id'' else d"
  let ?existing = "if \<not> isObject d then findOne w c (SelId d) else d"
  show ?thesis
  proof (cases "rollback_flag w \<or> noUser e")
    case True
    with w show ?thesis by (simp add: tx_remove_def)
  next
    case guard: False
    then have nu: "\<not> noUser e" by simp
    show ?thesis
    proof (cases "permissionCheckOverridden opt \<or> permissionCheck e ''remove'' c ?existing []")
      case False
      with guard w show ?thesis
        by (simp add: tx_remove_def Let_def idle_clean_denied)
    next
      case True
      let ?sel = "if isServer e then SelIdNotDeleted ?i else SelId ?i"
      let ?w2 = "setContext (context_for e opt ''remove'' c ?existing [])
                   (openAutoTransaction e (''remove '' @ butlast c) w)"
      let ?w3 = "if is_instant opt
                 then (case doRemove e c ?i ?sel True opt ?w2 of
                         (w', None) \<Rightarrow> tx_log e [Msg ''Executed instant remove''] w'
                       | (w', Some er) \<Rightarrow>
                           (tx_log e [ErrMsg er, Msg ''Rollback initiated by instant remove command''] w')
                             \<lparr>rollback_flag := True, rollbackReason := ''remove-error''\<rparr>)
                 else tx_log e [Msg ''Pushed remove command to stack'']
                        (?w2\<lparr>executionStack := executionStack ?w2 @ [RemoveThunk c ?i ?sel opt]\<rparr>)"
      have op: "transaction_id ?w2 \<noteq> None"
        using openAutoTransaction_opens [OF nu] by (simp add: frame)
      have "transaction_id ?w3 = transaction_id ?w2"
        by (simp add: split_beta frame split: option.splits)
      then have "idle_clean ?w3"
        using op by (intro idle_clean_open) simp
      then have "idle_clean (closeAutoTransaction e opt JUndef ?w3)"
        by (rule idle_clean_closeAuto)
      moreover have "fst (tx_remove e c d opt w) = closeAutoTransaction e opt JUndef ?w3"
        unfolding tx_remove_def Let_def using True guard
        by (simp only: if_True if_False fst_conv)
      ultimately show ?thesis by simp
    qed
  qed
qed

lemma update_loop_transaction_id:
  "transaction_id (fst (update_loop e c i existingDoc cmds updates opt k w)) = transaction_id w"
proof (induction cmds arbitrary: updates opt k w)
  case Nil
  show ?case by simp
next
  case (Cons cmd cmds)
  show ?case
    by (simp add: Let_def split_beta Cons frame split: sum.splits option.splits)
qed

lemma idle_clean_update: "idle_clean w \<Longrightarrow> idle_clean (fst (tx_update e c d updates opt w))"
proof -
  assume w: "idle_clean w"
  let ?i = "if isObject d then field d ''_id'' else d"
  let ?existing = "findOne w c (SelId ?i)"
  show ?thesis
  proof (cases "rollback_flag w \<or> noUser e")
    case True
    with w show ?thesis by (simp add: tx_update_def)
  next
    case guard: False
    then have nu: "\<not> noUser e" by simp
    show ?thesis
    proof (cases "permissionCheckOverridden opt \<or> permissionCheck e ''update'' c ?existing updates")
      case False
      with guard w show ?thesis
        by (simp add: tx_update_def Let_def idle_clean_denied)
    next
      case True
      let ?w1 = "openAutoTransaction e (''update '' @ butlast c) w"
      let ?res = "update_loop e c ?i ?existing (map fst updates) updates opt 0 ?w1"
      have op: "transaction_id (fst ?res) \<noteq> None"
        using openAutoTransaction_opens [OF nu] by (simp add: update_loop_transaction_id)
      then have ic: "idle_clean (fst ?res)"
        by (rule idle_clean_open)
      show ?thesis
      proof (cases "snd ?res")
        case (Inl er)
        with True guard ic show ?thesis
          by (simp add: tx_update_def Let_def split_beta)
      next
        case (Inr opt')
        with True guard idle_clean_closeAuto [OF ic, of e opt' JUndef] show ?thesis
          by (simp add: tx_update_def Let_def split_beta)
      qed
    qed
  qed
qed

lemma reachable_idle_clean: "reachable w \<Longrightarrow> idle_clean w"
proof (induction rule: reachable.induct)
  case (fresh w)
  then show ?case by (simp add: idle_clean_reset)
qed (simp_all add: idle_clean_start idle_clean_insert idle_clean_update idle_clean_remove
       idle_clean_cancel idle_clean_commit idle_clean_rollback)

text \<open>
  C9, as amended. In every reachable state, when no transaction is open the ledger and
  the execution stack are both empty. (The converse fails: \<open>start\<close> opens a transaction
  with nothing recorded or queued yet.)
\<close>

theorem idle_has_empty_ledger_and_stack:
  assumes "reachable w" and "transaction_id w = None"
  shows "ledger_isEmpty (items w) \<and> executionStack w = []"
  using reachable_idle_clean [OF assms(1)] assms(2) by (simp add: idle_clean_def)

theorem idle_has_empty_ledger_and_stack_witness:
  "reachable (fst (tx_commit example_env ArgUndefined JUndef
             (fst (tx_start example_env None initial_world)))) \<and>
   transaction_id (fst (tx_commit example_env ArgUndefined JUndef
             (fst (tx_start example_env None initial_world)))) = None \<and>
   ledger_isEmpty (items (fst (tx_commit example_env ArgUndefined JUndef
             (fst (tx_start example_env None initial_world))))) \<and>
   executionStack (fst (tx_commit example_env ArgUndefined JUndef
             (fst (tx_start example_env None initial_world)))) = []"
proof -
  let ?w = "fst (tx_commit example_env ArgUndefined JUndef
             (fst (tx_start example_env None initial_world)))"
  have "reachable initial_world"
    by (rule reachable.fresh) (simp_all add: initial_world_def)
  then have r: "reachable ?w"
    by (intro reachable.commit reachable.start)
  have t: "transaction_id ?w = None"
    unfolding example_started
    by (simp add: tx_commit_def noUser_def example_env_def ledger_isEmpty_def empty_ledger_def
        Let_def commit_finish_fields)
  from idle_has_empty_ledger_and_stack [OF r t] r t show ?thesis by simp
qed

text \<open>
  C9 as stated fails in the state that \<open>start\<close> reaches from a fresh manager: the
  ledger and the stack are empty and a transaction is open.
\<close>

theorem started_transaction_is_empty:
  "reachable (fst (tx_start example_env None initial_world)) \<and>
   \<not> ((ledger_isEmpty (items (fst (tx_start example_env None initial_world))) \<and>
        executionStack (fst (tx_start example_env None initial_world)) = []) =
       (transaction_id (fst (tx_start example_env None initial_world)) = None))"
proof -
  have "reachable initial_world"
    by (rule reachable.fresh) (simp_all add: initial_world_def)
  then have "reachable (fst (tx_start example_env None initial_world))"
    by (rule reachable.start)
  then show ?thesis
    by (simp add: example_started ledger_isEmpty_def empty_ledger_def)
qed

section \<open>Properties of a refused or cancelled transaction\<close>

lemmas run_defs =
  example_env_def denying_env_def initial_world_def noUser_def tx_log_def txval_def Let_def
  tx_start_def tx_commit_def tx_rollback_def tx_cancel_def tx_insert_def tx_remove_def
  tx_update_def insert_queue_def openAutoTransaction_def closeAutoTransaction_def
  permissionCheckOverridden_def permissionCheck_def context_for_def setContext_def
  is_instant_def obj_extend_def cleanReset_def commit_finish_def Transactions_remove_def
  Transactions_update_def ledger_isEmpty_def empty_ledger_def items_of_def
  rollback_description_def findOne_def arg_of_opt_def

lemma example_queued:
  "fst (tx_insert example_env ''docs'' (JObj [(''title'', JStr ''A'')]) None
         (fst (tx_start example_env None initial_world))) =
     \<lparr>db = (\<lambda>c. []),
      transactions = [\<lparr>tx_id = ''i'', user_id = Some ''u'', timestamp = 7,
        description = ''last action'', tx_context = None, tx_items = None, undone = None,
        expired = False\<rparr>],
      draws = 1, clock = 7,
      console = [Msg ''Started transaction'', Msg ''Pushed insert command to stack''],
      transaction_id = Some ''i'', autoTransaction = False,
      executionStack = [InsertThunk ''docs'' (JObj [(''title'', JStr ''A'')]) None],
      items = empty_ledger, startAttempts = 0, rollback_flag = False, rollbackReason = [],
      context_obj = [], lastTransactionData = None\<rparr>"
  unfolding example_started by (simp add: run_defs)


lemma flagged_denied_log:
  "flagged_denied w ((tx_log e ms w)\<lparr>rollback_flag := True, rollbackReason := ''permission-denied''\<rparr>)"
  by (simp add: flagged_denied_def frame)

lemma insert_denied:
  "\<not> rollback_flag w \<Longrightarrow> \<not> noUser e \<Longrightarrow> denies e ''insert'' c d [] opt \<Longrightarrow>
   flagged_denied w (fst (tx_insert e c d opt w)) \<and> snd (tx_insert e c d opt w) = JUndef"
  by (simp add: tx_insert_def denies_def flagged_denied_log)

lemma remove_denied:
  "\<not> rollback_flag w \<Longrightarrow> \<not> noUser e \<Longrightarrow>
   denies e ''remove'' c (if \<not> isObject d then findOne w c (SelId d) else d) [] opt \<Longrightarrow>
   flagged_denied w (fst (tx_remove e c d opt w)) \<and> snd (tx_remove e c d opt w) = JUndef"
  by (simp add: tx_remove_def denies_def flagged_denied_log Let_def)

lemma update_denied:
  "\<not> rollback_flag w \<Longrightarrow> \<not> noUser e \<Longrightarrow>
   denies e ''update'' c (findOne w c (SelId (if isObject d then field d ''_id'' else d))) updates opt \<Longrightarrow>
   flagged_denied w (fst (tx_update e c d updates opt w)) \<and>
   snd (tx_update e c d updates opt w) = Inr JUndef"
  by (simp add: tx_update_def denies_def flagged_denied_log Let_def)

lemma flagged_actions_noop:
  "rollback_flag w \<Longrightarrow>
   tx_insert e c d opt w = (w, JUndef) \<and> tx_remove e c d opt w = (w, JUndef) \<and>
   tx_update e c d updates opt w = (w, Inr JUndef)"
  by (simp add: tx_insert_def tx_remove_def tx_update_def)

lemma commit_rollback_branch:
  assumes "rollback_flag w" and "transaction_id w = Some t"
    and "\<not> (ledger_isEmpty (items w) \<and> executionStack w = [])"
    and "transaction_id (fst (tx_commit e txid newId w)) = None"
  shows "tx_commit e txid newId w =
           (tx_rollback e (tx_log e [Msg ''Incomplete transaction removed'']
              (w\<lparr>lastTransactionData := Some (Some t, None)\<rparr>)),
            \<lparr>returned = JUndef,
             reported = Some (Some (MeteorError (rollbackReason w) (rollback_description (rollbackReason w))),
                              JBool False)\<rparr>)"
  using assms
  by (auto simp: tx_commit_def Let_def frame split: if_splits)

lemma same_data_refl [simp]: "same_data w w"
  by (simp add: same_data_def)

lemma same_data_txval: "same_data w w' \<Longrightarrow> txval w = txval w'"
  by (simp add: same_data_def txval_def)

lemma same_data_findOne: "same_data w w' \<Longrightarrow> findOne w c sel = findOne w' c sel"
  by (simp add: same_data_def findOne_def)

lemma same_data_tx_log:
  "same_data w w' \<Longrightarrow> same_data (tx_log e ms w) (tx_log e' ms' w')"
  by (simp add: same_data_def frame)

lemma same_data_pushToRecord:
  "same_data w w' \<Longrightarrow> same_data (pushToRecord ty c i fd inst w) (pushToRecord ty c i fd inst w')"
  by (simp add: same_data_def pushToRecord_def)

lemma same_data_coll_insert:
  "same_data w w' \<Longrightarrow>
   same_data (fst (coll_insert e c d w)) (fst (coll_insert e c d w')) \<and>
   snd (coll_insert e c d w) = snd (coll_insert e c d w')"
  by (simp add: same_data_def coll_insert_def Let_def split: jsval.splits option.splits)

lemma same_data_coll_update:
  "same_data w w' \<Longrightarrow>
   same_data (fst (coll_update e c sel m w)) (fst (coll_update e c sel m w')) \<and>
   snd (coll_update e c sel m w) = snd (coll_update e c sel m w')"
  by (simp add: same_data_def coll_update_def split: sum.splits)

lemma same_data_coll_remove:
  "same_data w w' \<Longrightarrow> same_data (coll_remove c sel w) (coll_remove c sel w')"
  by (simp add: same_data_def coll_remove_def)

lemma same_data_index_insert:
  "same_data w w' \<Longrightarrow>
   same_data (fst (index_insert e c d w)) (fst (index_insert e c d w')) \<and>
   snd (index_insert e c d w) = snd (index_insert e c d w')"
  using same_data_coll_insert [of w w' e c d]
  by (auto simp: index_insert_def split_beta split: sum.splits)

lemma same_data_index_update:
  "same_data w w' \<Longrightarrow>
   same_data (fst (index_update e c sel m w)) (fst (index_update e c sel m w')) \<and>
   snd (index_update e c sel m w) = snd (index_update e c sel m w')"
  by (simp add: index_update_def same_data_coll_update)

lemma same_data_index_remove:
  "same_data w w' \<Longrightarrow>
   same_data (fst (index_remove e c sel w)) (fst (index_remove e c sel w')) \<and>
   snd (index_remove e c sel w) = snd (index_remove e c sel w')"
  by (simp add: index_remove_def same_data_coll_remove)

lemma same_data_rollback_removed_item:
  assumes "same_data (fst st) (fst st')" and "snd st = snd st'"
  shows "same_data (fst (rollback_removed_item e obj st)) (fst (rollback_removed_item e obj st')) \<and>
         snd (rollback_removed_item e obj st) = snd (rollback_removed_item e obj st')"
proof -
  note t = same_data_txval [OF assms(1)]
  show ?thesis
  proof (cases "doc obj")
    case None
    show ?thesis
      using assms same_data_index_update [OF assms(1), of e "collection obj" "SelId (item_id obj)"
          "[(''$unset'', [(''deleted'', JNum 1), (''transaction_id'', txval (fst st))])]"]
      by (auto simp: rollback_removed_item_def None t split_beta same_data_tx_log split: option.splits)
  next
    case (Some d)
    show ?thesis
      using assms same_data_index_update [OF assms(1), of e "collection obj" "SelId (item_id obj)"
          "[(''$unset'', [(''deleted'', JNum 1), (''transaction_id'', txval (fst st))])]"]
        same_data_index_insert [OF assms(1), of e "collection obj" d]
      by (auto simp: rollback_removed_item_def Some t split_beta same_data_tx_log split: option.splits)
  qed
qed

lemma same_data_rollback_updated_item:
  assumes "same_data (fst st) (fst st')" and "snd st = snd st'"
  shows "same_data (fst (rollback_updated_item e obj st)) (fst (rollback_updated_item e obj st')) \<and>
         snd (rollback_updated_item e obj st) = snd (rollback_updated_item e obj st')"
proof (cases "operation_modifier (inverse_op obj)")
  case None
  with assms show ?thesis by (simp add: rollback_updated_item_def)
next
  case (Some m)
  show ?thesis
    using assms same_data_index_update [OF assms(1), of e "collection obj" "SelId (item_id obj)" m]
    by (auto simp: rollback_updated_item_def Some split_beta same_data_tx_log split: option.splits)
qed

lemma same_data_rollback_inserted_item:
  assumes "same_data (fst st) (fst st')" and "snd st = snd st'"
  shows "same_data (fst (rollback_inserted_item e obj st)) (fst (rollback_inserted_item e obj st')) \<and>
         snd (rollback_inserted_item e obj st) = snd (rollback_inserted_item e obj st')"
  using assms same_data_index_remove [OF assms(1), of e "collection obj"
      "SelIdTx (item_id obj) (txval (fst st))"] same_data_txval [OF assms(1)]
  by (auto simp: rollback_inserted_item_def split_beta same_data_tx_log split: option.splits)

lemma same_data_fold:
  assumes step: "\<And>obj st st'. same_data (fst st) (fst st') \<Longrightarrow> snd st = snd st' \<Longrightarrow>
        same_data (fst (f obj st)) (fst (f obj st')) \<and> snd (f obj st) = snd (f obj st')"
  shows "same_data (fst st) (fst st') \<Longrightarrow> snd st = snd st' \<Longrightarrow>
         same_data (fst (fold f objs st)) (fst (fold f objs st')) \<and>
         snd (fold f objs st) = snd (fold f objs st')"
proof (induction objs arbitrary: st st')
  case Nil
  then show ?case by simp
next
  case (Cons obj objs)
  from step [OF Cons.prems] Cons.IH [of "f obj st" "f obj st'"] show ?case by simp
qed

lemma same_data_rollback:
  assumes "same_data w w'"
  shows "db (tx_rollback e w) = db (tx_rollback e w')"
proof -
  have its: "items w = items w'" using assms by (simp add: same_data_def)
  let ?s1 = "fold (rollback_removed_item e) (items_of (removed (items w))) (w, False)"
  let ?s1' = "fold (rollback_removed_item e) (items_of (removed (items w))) (w', False)"
  let ?s2 = "fold (rollback_updated_item e) (items_of (updated (items w))) ?s1"
  let ?s2' = "fold (rollback_updated_item e) (items_of (updated (items w))) ?s1'"
  let ?s3 = "fold (rollback_inserted_item e) (items_of (inserted (items w))) ?s2"
  let ?s3' = "fold (rollback_inserted_item e) (items_of (inserted (items w))) ?s2'"
  have 1: "same_data (fst ?s1) (fst ?s1') \<and> snd ?s1 = snd ?s1'"
    by (rule same_data_fold) (simp_all add: same_data_rollback_removed_item assms)
  have 2: "same_data (fst ?s2) (fst ?s2') \<and> snd ?s2 = snd ?s2'"
    by (rule same_data_fold) (simp_all add: same_data_rollback_updated_item 1)
  have 3: "same_data (fst ?s3) (fst ?s3') \<and> snd ?s3 = snd ?s3'"
    by (rule same_data_fold) (simp_all add: same_data_rollback_inserted_item 2)
  have "db (fst ?s3) = db (fst ?s3')"
    using 3 by (simp add: same_data_def)
  then show ?thesis
    by (simp add: tx_rollback_def Let_def its [symmetric] frame Transactions_remove_def
        split: option.splits)
qed

lemma rollback_empty_ledger_db:
  "ledger_isEmpty (items w) \<Longrightarrow> db (tx_rollback e w) = db w"
  by (simp add: tx_rollback_def Let_def ledger_isEmpty_def items_of_def frame
      Transactions_remove_def split: option.splits)

lemma commit_flagged_db:
  assumes "rollback_flag w"
  shows "db (fst (tx_commit e txid newId w)) = db (tx_rollback e w)
       \<or> db (fst (tx_commit e txid newId w)) = db w"
proof (cases "noUser e")
  case True
  then show ?thesis by (simp add: tx_commit_def frame)
next
  case nu: False
  show ?thesis
  proof (cases "transaction_id w")
    case None
    with nu show ?thesis by (simp add: tx_commit_def Let_def frame)
  next
    case (Some t)
    let ?w0 = "w\<lparr>lastTransactionData := Some (Some t, None)\<rparr>"
    have sd: "same_data (tx_log e [Msg ''Incomplete transaction removed''] ?w0) w"
      by (simp add: same_data_def frame)
    show ?thesis
      using nu Some assms same_data_rollback [OF sd, of e]
      by (auto simp: tx_commit_def Let_def frame commit_finish_fields Transactions_remove_def)
  qed
qed

lemma commit_flagged_stack_independent:
  assumes "rollback_flag w"
  shows "db (fst (tx_commit e txid newId w)) =
         db (fst (tx_commit e txid newId (w\<lparr>executionStack := []\<rparr>)))"
proof (cases "noUser e")
  case True
  then show ?thesis by (simp add: tx_commit_def frame)
next
  case nu: False
  show ?thesis
  proof (cases "transaction_id w")
    case None
    with nu show ?thesis by (simp add: tx_commit_def Let_def frame)
  next
    case (Some t)
    let ?w0 = "w\<lparr>lastTransactionData := Some (Some t, None)\<rparr>"
    let ?v0 = "w\<lparr>executionStack := [], lastTransactionData := Some (Some t, None)\<rparr>"
    have sd: "same_data (tx_log e [Msg ''Incomplete transaction removed''] ?w0)
                (tx_log e [Msg ''Incomplete transaction removed''] ?v0)"
      by (simp add: same_data_def frame)
    have sd0: "same_data (tx_log e [Msg ''Incomplete transaction removed''] ?w0) w"
      by (simp add: same_data_def frame)
    have em: "ledger_isEmpty (items w) \<Longrightarrow>
        db (tx_rollback e (tx_log e [Msg ''Incomplete transaction removed''] ?w0)) = db w"
      using same_data_rollback [OF sd0, of e] by (simp add: rollback_empty_ledger_db)
    show ?thesis
      using nu Some assms same_data_rollback [OF sd, of e] em
      by (auto simp: tx_commit_def Let_def frame commit_finish_fields Transactions_remove_def)
  qed
qed

text \<open>
  C6, as amended. When the rollback flag is set, \<open>commit\<close> runs none of the queued
  closures: the document store it leaves is the one it would leave had nothing been
  queued. When moreover the ledger or the stack is not empty and the call closes the
  transaction (it is not refused at entry), it calls \<open>rollback\<close> and reports the
  recorded reason with its description and the result \<open>false\<close>.
\<close>

theorem commit_with_rollback_flag:
  assumes "rollback_flag w"
  shows "db (fst (tx_commit e txid newId w)) =
           db (fst (tx_commit e txid newId (w\<lparr>executionStack := []\<rparr>))) \<and>
         (transaction_id w = Some t \<and>
          \<not> (ledger_isEmpty (items w) \<and> executionStack w = []) \<and>
          transaction_id (fst (tx_commit e txid newId w)) = None \<longrightarrow>
            fst (tx_commit e txid newId w) =
              tx_rollback e (tx_log e [Msg ''Incomplete transaction removed'']
                (w\<lparr>lastTransactionData := Some (Some t, None)\<rparr>)) \<and>
            reported (snd (tx_commit e txid newId w)) =
              Some (Some (MeteorError (rollbackReason w) (rollback_description (rollbackReason w))),
                    JBool False))"
  using commit_flagged_stack_independent [OF assms, of e txid newId]
    commit_rollback_branch [OF assms, of t e txid newId]
  by auto

theorem commit_with_rollback_flag_witness:
  "rollback_flag (tx_cancel example_env (fst (tx_insert example_env ''docs''
      (JObj [(''title'', JStr ''A'')]) None (fst (tx_start example_env None initial_world))))) \<and>
   executionStack (tx_cancel example_env (fst (tx_insert example_env ''docs''
      (JObj [(''title'', JStr ''A'')]) None (fst (tx_start example_env None initial_world))))) =
     [InsertThunk ''docs'' (JObj [(''title'', JStr ''A'')]) None] \<and>
   db (fst (tx_commit example_env ArgUndefined JUndef (tx_cancel example_env (fst (tx_insert
      example_env ''docs'' (JObj [(''title'', JStr ''A'')]) None
      (fst (tx_start example_env None initial_world))))))) ''docs'' = [] \<and>
   reported (snd (tx_commit example_env ArgUndefined JUndef (tx_cancel example_env (fst (tx_insert
      example_env ''docs'' (JObj [(''title'', JStr ''A'')]) None
      (fst (tx_start example_env None initial_world))))))) =
     Some (Some (MeteorError ''transaction-cancelled''
                   ''The transaction was cancelled programatically, so it was rolled back.''),
           JBool False)"
proof -
  let ?w = "tx_cancel example_env (fst (tx_insert example_env ''docs''
      (JObj [(''title'', JStr ''A'')]) None (fst (tx_start example_env None initial_world))))"
  have w: "?w =
     \<lparr>db = (\<lambda>c. []),
      transactions = [\<lparr>tx_id = ''i'', user_id = Some ''u'', timestamp = 7,
        description = ''last action'', tx_context = None, tx_items = None, undone = None,
        expired = False\<rparr>],
      draws = 1, clock = 7,
      console = [Msg ''Started transaction'', Msg ''Pushed insert command to stack'',
                 Msg ''Transaction cancelled''],
      transaction_id = Some ''i'', autoTransaction = False,
      executionStack = [InsertThunk ''docs'' (JObj [(''title'', JStr ''A'')]) None],
      items = empty_ledger, startAttempts = 0, rollback_flag = True,
      rollbackReason = ''transaction-cancelled'',
      context_obj = [], lastTransactionData = None\<rparr>"
    unfolding example_queued by (simp add: run_defs)
  have h1: "rollback_flag ?w" unfolding w by simp
  have h2: "transaction_id ?w = Some ''i''" unfolding w by simp
  have h3: "\<not> (ledger_isEmpty (items ?w) \<and> executionStack ?w = [])" unfolding w by simp
  have h4: "transaction_id (fst (tx_commit example_env ArgUndefined JUndef ?w)) = None"
    unfolding w by (simp add: run_defs)
  have stack: "executionStack ?w = [InsertThunk ''docs'' (JObj [(''title'', JStr ''A'')]) None]"
    unfolding w by simp
  have empty: "db (fst (tx_commit example_env ArgUndefined JUndef (?w\<lparr>executionStack := []\<rparr>)))
      ''docs'' = []"
    unfolding w by (simp add: run_defs)
  have reason: "rollbackReason ?w = ''transaction-cancelled''" unfolding w by simp
  from commit_with_rollback_flag [OF h1, of example_env ArgUndefined JUndef "''i''"] h2 h3 h4
  have "db (fst (tx_commit example_env ArgUndefined JUndef ?w)) =
          db (fst (tx_commit example_env ArgUndefined JUndef (?w\<lparr>executionStack := []\<rparr>)))"
    and "reported (snd (tx_commit example_env ArgUndefined JUndef ?w)) =
          Some (Some (MeteorError (rollbackReason ?w) (rollback_description (rollbackReason ?w))),
                JBool False)"
    by blast+
  then show ?thesis
    using h1 stack empty reason by (simp add: rollback_description_def)
qed

text \<open>
  C6 as stated fails when the ledger and the stack are both empty: after \<open>start\<close> and
  \<open>cancel\<close> the flag is set with reason \<open>transaction-cancelled\<close>, and \<open>commit\<close> takes
  the branch of the empty transaction and reports success.
\<close>

theorem cancelled_empty_commit_reports_success:
  "rollback_flag (tx_cancel example_env (fst (tx_start example_env None initial_world))) \<and>
   rollbackReason (tx_cancel example_env (fst (tx_start example_env None initial_world))) =
     ''transaction-cancelled'' \<and>
   reported (snd (tx_commit example_env ArgUndefined JUndef
     (tx_cancel example_env (fst (tx_start example_env None initial_world))))) =
     Some (None, JBool True)"
  unfolding example_started by (simp add: run_defs)


text \<open>
  C7, as amended. An \<open>insert\<close>, \<open>remove\<close> or \<open>update\<close> whose permission check is
  reached and refused does not throw: it sets the rollback flag with the reason
  \<open>permission-denied\<close>, returns \<open>undefined\<close> and changes nothing else but the console.
  Every later action on a flagged manager returns \<open>undefined\<close> and changes nothing. A
  \<open>commit\<close> that closes a flagged transaction whose reason is still
  \<open>permission-denied\<close> and whose ledger or stack is not empty reports that reason.
\<close>

theorem permission_denied_flags_rollback:
  assumes "\<not> rollback_flag w" and "\<not> noUser e"
  shows
   "(denies e ''insert'' c d [] opt \<longrightarrow>
       flagged_denied w (fst (tx_insert e c d opt w)) \<and> snd (tx_insert e c d opt w) = JUndef) \<and>
    (denies e ''remove'' c (if \<not> isObject d then findOne w c (SelId d) else d) [] opt \<longrightarrow>
       flagged_denied w (fst (tx_remove e c d opt w)) \<and> snd (tx_remove e c d opt w) = JUndef) \<and>
    (denies e ''update'' c (findOne w c (SelId (if isObject d then field d ''_id'' else d)))
         updates opt \<longrightarrow>
       flagged_denied w (fst (tx_update e c d updates opt w)) \<and>
       snd (tx_update e c d updates opt w) = Inr JUndef) \<and>
    (rollback_flag v \<longrightarrow>
       tx_insert e' c' d' opt' v = (v, JUndef) \<and> tx_remove e' c' d' opt' v = (v, JUndef) \<and>
       tx_update e' c' d' updates' opt' v = (v, Inr JUndef)) \<and>
    (rollback_flag v \<and> rollbackReason v = ''permission-denied'' \<and> transaction_id v = Some t \<and>
     \<not> (ledger_isEmpty (items v) \<and> executionStack v = []) \<and>
     transaction_id (fst (tx_commit e' txid newId v)) = None \<longrightarrow>
       reported (snd (tx_commit e' txid newId v)) = Some (Some permission_denied_error, JBool False))"
proof (intro conjI impI)
  assume "denies e ''insert'' c d [] opt"
  from insert_denied [OF assms this]
  show "flagged_denied w (fst (tx_insert e c d opt w))" "snd (tx_insert e c d opt w) = JUndef"
    by simp_all
next
  assume "denies e ''remove'' c (if \<not> isObject d then findOne w c (SelId d) else d) [] opt"
  from remove_denied [OF assms this]
  show "flagged_denied w (fst (tx_remove e c d opt w))" "snd (tx_remove e c d opt w) = JUndef"
    by simp_all
next
  assume "denies e ''update'' c (findOne w c (SelId (if isObject d then field d ''_id'' else d)))
    updates opt"
  from update_denied [OF assms this]
  show "flagged_denied w (fst (tx_update e c d updates opt w))"
    "snd (tx_update e c d updates opt w) = Inr JUndef"
    by simp_all
next
  assume "rollback_flag v"
  from flagged_actions_noop [OF this]
  show "tx_insert e' c' d' opt' v = (v, JUndef)" "tx_remove e' c' d' opt' v = (v, JUndef)"
    "tx_update e' c' d' updates' opt' v = (v, Inr JUndef)"
    by simp_all
next
  assume a: "rollback_flag v \<and> rollbackReason v = ''permission-denied'' \<and>
    transaction_id v = Some t \<and> \<not> (ledger_isEmpty (items v) \<and> executionStack v = []) \<and>
    transaction_id (fst (tx_commit e' txid newId v)) = None"
  then have "tx_commit e' txid newId v =
           (tx_rollback e' (tx_log e' [Msg ''Incomplete transaction removed'']
              (v\<lparr>lastTransactionData := Some (Some t, None)\<rparr>)),
            \<lparr>returned = JUndef,
             reported = Some (Some (MeteorError (rollbackReason v) (rollback_description (rollbackReason v))),
                              JBool False)\<rparr>)"
    by (intro commit_rollback_branch) simp_all
  with a show "reported (snd (tx_commit e' txid newId v)) =
      Some (Some permission_denied_error, JBool False)"
    by (simp add: permission_denied_error_def rollback_description_def)
qed

theorem permission_denied_flags_rollback_witness:
  "\<not> rollback_flag (fst (tx_insert example_env ''docs'' (JObj [(''title'', JStr ''A'')]) None
        (fst (tx_start example_env None initial_world)))) \<and>
   \<not> noUser denying_env \<and>
   rollback_flag (fst (tx_remove denying_env ''docs'' (JStr ''x'') None
     (fst (tx_insert example_env ''docs'' (JObj [(''title'', JStr ''A'')]) None
        (fst (tx_start example_env None initial_world)))))) \<and>
   snd (tx_remove denying_env ''docs'' (JStr ''x'') None
     (fst (tx_insert example_env ''docs'' (JObj [(''title'', JStr ''A'')]) None
        (fst (tx_start example_env None initial_world))))) = JUndef \<and>
   snd (tx_insert denying_env ''docs'' (JObj [(''title'', JStr ''B'')]) None
     (fst (tx_remove denying_env ''docs'' (JStr ''x'') None
       (fst (tx_insert example_env ''docs'' (JObj [(''title'', JStr ''A'')]) None
          (fst (tx_start example_env None initial_world))))))) = JUndef \<and>
   reported (snd (tx_commit denying_env ArgUndefined JUndef
     (fst (tx_remove denying_env ''docs'' (JStr ''x'') None
       (fst (tx_insert example_env ''docs'' (JObj [(''title'', JStr ''A'')]) None
          (fst (tx_start example_env None initial_world)))))))) =
     Some (Some permission_denied_error, JBool False)"
proof -
  let ?w = "fst (tx_insert example_env ''docs'' (JObj [(''title'', JStr ''A'')]) None
        (fst (tx_start example_env None initial_world)))"
  let ?v = "fst (tx_remove denying_env ''docs'' (JStr ''x'') None ?w)"
  have h1: "\<not> rollback_flag ?w" unfolding example_queued by simp
  have h2: "\<not> noUser denying_env" by (simp add: run_defs)
  have d_ins: "denies denying_env ''insert'' ''docs'' (JStr ''x'') [] None"
    by (simp add: denies_def run_defs)
  have d_rem: "denies denying_env ''remove'' ''docs''
      (if \<not> isObject (JStr ''x'') then findOne ?w ''docs'' (SelId (JStr ''x'')) else JStr ''x'') [] None"
    by (simp add: denies_def run_defs)
  have d_upd: "denies denying_env ''update'' ''docs''
      (findOne ?w ''docs'' (SelId (if isObject (JStr ''x'') then field (JStr ''x'') ''_id'' else JStr ''x'')))
      [(''$set'', [(''title'', JStr ''B'')])] None"
    by (simp add: denies_def run_defs)
  note inst = permission_denied_flags_rollback [OF h1 h2, of "''docs''" "JStr ''x''" None
      "[(''$set'', [(''title'', JStr ''B'')])]" ?v denying_env "''docs''"
      "JObj [(''title'', JStr ''B'')]" None "[]" "''i''" ArgUndefined JUndef]
  from inst d_rem have fl: "flagged_denied ?w ?v"
    and ret: "snd (tx_remove denying_env ''docs'' (JStr ''x'') None ?w) = JUndef"
    by blast+
  from inst d_ins have "flagged_denied ?w (fst (tx_insert denying_env ''docs'' (JStr ''x'') None ?w))"
    by blast
  from inst d_upd have "snd (tx_update denying_env ''docs'' (JStr ''x'')
      [(''$set'', [(''title'', JStr ''B'')])] None ?w) = Inr JUndef"
    by blast
  have v1: "rollback_flag ?v" and v2: "rollbackReason ?v = ''permission-denied''"
    and v3: "transaction_id ?v = Some ''i''"
    and v4: "\<not> (ledger_isEmpty (items ?v) \<and> executionStack ?v = [])"
    using fl unfolding flagged_denied_def example_queued by simp_all
  from inst v1 have noop: "tx_insert denying_env ''docs'' (JObj [(''title'', JStr ''B'')]) None ?v = (?v, JUndef)"
    by blast
  have v: "?v =
     \<lparr>db = (\<lambda>c. []),
      transactions = [\<lparr>tx_id = ''i'', user_id = Some ''u'', timestamp = 7,
        description = ''last action'', tx_context = None, tx_items = None, undone = None,
        expired = False\<rparr>],
      draws = 1, clock = 7,
      console = [Msg ''Started transaction'', Msg ''Pushed insert command to stack'',
                 Msg ''Insufficient permissions to remove this document'', DocMsg JUndef],
      transaction_id = Some ''i'', autoTransaction = False,
      executionStack = [InsertThunk ''docs'' (JObj [(''title'', JStr ''A'')]) None],
      items = empty_ledger, startAttempts = 0, rollback_flag = True,
      rollbackReason = ''permission-denied'',
      context_obj = [], lastTransactionData = None\<rparr>"
    unfolding example_queued by (simp add: run_defs)
  have v5: "transaction_id (fst (tx_commit denying_env ArgUndefined JUndef ?v)) = None"
    unfolding v by (simp add: run_defs)
  from inst v1 v2 v3 v4 v5
  have "reported (snd (tx_commit denying_env ArgUndefined JUndef ?v)) =
      Some (Some permission_denied_error, JBool False)"
    by blast
  with h1 h2 v1 ret noop show ?thesis by simp
qed

text \<open>
  C7 as stated fails when the refused action is the first of its transaction: nothing
  is recorded or queued, \<open>commit\<close> takes the branch of the empty transaction and
  reports success, not the reason.
\<close>

theorem denied_first_action_commit_reports_success:
  "rollback_flag (fst (tx_insert denying_env ''docs'' (JObj [(''title'', JStr ''A'')]) None
      (fst (tx_start denying_env None initial_world)))) \<and>
   rollbackReason (fst (tx_insert denying_env ''docs'' (JObj [(''title'', JStr ''A'')]) None
      (fst (tx_start denying_env None initial_world)))) = ''permission-denied'' \<and>
   reported (snd (tx_commit denying_env ArgUndefined JUndef
      (fst (tx_insert denying_env ''docs'' (JObj [(''title'', JStr ''A'')]) None
        (fst (tx_start denying_env None initial_world)))))) = Some (None, JBool True)"
  by (simp add: run_defs)

section \<open>Properties of a commit that drains the stack\<close>

lemma same_data_doInsert:
  "same_data w w' \<Longrightarrow>
   same_data (fst (doInsert e c d w)) (fst (doInsert e c d w')) \<and>
   snd (doInsert e c d w) = snd (doInsert e c d w')"
  by (simp add: doInsert_def same_data_coll_insert)

lemma same_data_doRemove:
  assumes "same_data w w'"
  shows "same_data (fst (doRemove e c i sel inst opt w)) (fst (doRemove e c i sel inst opt w')) \<and>
         snd (doRemove e c i sel inst opt w) = snd (doRemove e c i sel inst opt w')"
proof -
  have clk: "clock w = clock w'" using assms by (simp add: same_data_def)
  show ?thesis
    using same_data_coll_update [OF same_data_pushToRecord [OF assms], of e c sel _ Removed c i NoData inst]
      same_data_coll_remove [OF same_data_pushToRecord [OF assms], of c sel Removed c i _ inst]
    by (simp add: doRemove_def Let_def same_data_txval [OF assms] same_data_findOne [OF assms] clk)
qed

lemma same_data_makeUpdate:
  assumes "same_data w w'"
  shows "same_data (fst (makeUpdate e c i u cmd iv inst opt w)) (fst (makeUpdate e c i u cmd iv inst opt w')) \<and>
         snd (makeUpdate e c i u cmd iv inst opt w) = snd (makeUpdate e c i u cmd iv inst opt w')"
  using same_data_coll_update [OF assms, of e c "SelId i" "with_transaction_id (txval w') u"]
  by (auto simp: makeUpdate_def Let_def split_beta same_data_txval [OF assms]
        same_data_pushToRecord split: option.splits)

lemma same_data_run_thunk:
  assumes "same_data w w'"
  shows "same_data (fst (run_thunk e t w)) (fst (run_thunk e t w')) \<and>
         snd (run_thunk e t w) = snd (run_thunk e t w')"
proof (cases t)
  case (InsertThunk c d opt)
  show ?thesis
  proof (cases "extend_doc d [(''transaction_id'', txval w')]")
    case (Inl er)
    with assms show ?thesis
      by (simp add: InsertThunk same_data_txval [OF assms])
  next
    case (Inr d')
    show ?thesis
      using same_data_doInsert [OF assms, of e c d'] Inr
      by (auto simp: InsertThunk Let_def split_beta same_data_txval [OF assms]
            same_data_tx_log same_data_pushToRecord split: sum.splits)
  qed
next
  case (RemoveThunk c i sel opt)
  show ?thesis
    using same_data_doRemove [OF assms, of e c i sel False opt]
    by (auto simp: RemoveThunk split_beta same_data_tx_log split: option.splits)
next
  case (UpdateThunk c i u cmd iv opt)
  show ?thesis
    using same_data_makeUpdate [OF assms, of e c i u cmd iv False opt]
    by (auto simp: UpdateThunk split_beta same_data_tx_log split: option.splits)
qed

lemma drain_empty: "executionStack w = [] \<Longrightarrow> drain e w acc = (w, Inr acc)"
  by (subst drain.simps) simp

lemma drain_step:
  "executionStack w = t # ts \<Longrightarrow>
   drain e w acc =
     (case run_thunk e t (w\<lparr>executionStack := ts\<rparr>) of
        (w1, Inl er) \<Rightarrow> (w1, Inl er)
      | (w1, Inr possibleNewId) \<Rightarrow>
          drain e w1 (if isString possibleNewId then acc @ [possibleNewId] else acc))"
  by (subst drain.simps) simp

lemma drain_exec_fifo:
  "same_data w v \<Longrightarrow>
   (\<exists>w1 v1. same_data w1 v1 \<and>
      ((\<exists>er. drain e w acc = (w1, Inl er) \<and> exec_fifo e (executionStack w) v = (v1, Inl er)) \<or>
       (\<exists>vs. drain e w acc = (w1, Inr (acc @ filter isString vs)) \<and>
             exec_fifo e (executionStack w) v = (v1, Inr vs) \<and>
             executionStack w1 = [] \<and> context_obj w1 = context_obj w \<and>
             transactions w1 = transactions w \<and> length vs = length (executionStack w))))"
proof (induction e w acc arbitrary: v rule: drain.induct)
  case (1 e w acc)
  show ?case
  proof (cases "executionStack w")
    case Nil
    with "1.prems" show ?thesis
      by (auto simp: drain_empty)
  next
    case (Cons t ts)
    let ?w = "w\<lparr>executionStack := ts\<rparr>"
    have sd: "same_data ?w v"
      using "1.prems" by (simp add: same_data_def)
    obtain w1 r where rt: "run_thunk e t ?w = (w1, r)"
      by (cases "run_thunk e t ?w")
    obtain v1 r' where rv: "run_thunk e t v = (v1, r')"
      by (cases "run_thunk e t v")
    from same_data_run_thunk [OF sd, of e t] rt rv
    have sd1: "same_data w1 v1" and rr: "r' = r" by simp_all
    have w1: "w1 = fst (run_thunk e t ?w)" using rt by simp
    have fr: "executionStack w1 = ts" "context_obj w1 = context_obj w"
      "transactions w1 = transactions w"
      by (simp_all add: w1 frame)
    show ?thesis
    proof (cases r)
      case (Inl er)
      with rt rv rr sd1 Cons show ?thesis
        by (auto simp: drain_step)
    next
      case (Inr x)
      let ?acc = "if isString x then acc @ [x] else acc"
      from "1.IH" [OF Cons rt [symmetric] Inr sd1]
      obtain w2 v2 where sd2: "same_data w2 v2"
        and alt: "(\<exists>er. drain e w1 ?acc = (w2, Inl er) \<and>
              exec_fifo e (executionStack w1) v1 = (v2, Inl er)) \<or>
           (\<exists>vs. drain e w1 ?acc = (w2, Inr (?acc @ filter isString vs)) \<and>
              exec_fifo e (executionStack w1) v1 = (v2, Inr vs) \<and>
              executionStack w2 = [] \<and> context_obj w2 = context_obj w1 \<and>
              transactions w2 = transactions w1 \<and> length vs = length (executionStack w1))"
        by blast
      have dr: "drain e w acc = drain e w1 ?acc"
        using Cons rt Inr by (simp add: drain_step)
      from alt show ?thesis
      proof
        assume "\<exists>er. drain e w1 ?acc = (w2, Inl er) \<and>
              exec_fifo e (executionStack w1) v1 = (v2, Inl er)"
        then obtain er where "drain e w1 ?acc = (w2, Inl er)"
          "exec_fifo e ts v1 = (v2, Inl er)"
          using fr by auto
        then have "drain e w acc = (w2, Inl er)" "exec_fifo e (executionStack w) v = (v2, Inl er)"
          using dr Cons rv rr Inr by simp_all
        with sd2 show ?thesis by blast
      next
        assume "\<exists>vs. drain e w1 ?acc = (w2, Inr (?acc @ filter isString vs)) \<and>
              exec_fifo e (executionStack w1) v1 = (v2, Inr vs) \<and>
              executionStack w2 = [] \<and> context_obj w2 = context_obj w1 \<and>
              transactions w2 = transactions w1 \<and> length vs = length (executionStack w1)"
        then obtain vs where d: "drain e w1 ?acc = (w2, Inr (?acc @ filter isString vs))"
          and x: "exec_fifo e ts v1 = (v2, Inr vs)"
          and rest: "executionStack w2 = []" "context_obj w2 = context_obj w"
            "transactions w2 = transactions w" "length vs = length ts"
          using fr by auto
        have "drain e w acc = (w2, Inr (acc @ filter isString (x # vs)))"
          using dr d by simp
        moreover have "exec_fifo e (executionStack w) v = (v2, Inr (x # vs))"
          using Cons rv rr Inr x by simp
        moreover have "length (x # vs) = length (executionStack w)"
          using rest Cons by simp
        ultimately show ?thesis
          using sd2 rest by blast
      qed
    qed
  qed
qed

lemma coll_insert_valid_id: "coll_insert e c d w = (w1, Inr i) \<Longrightarrow> valid_id i"
  by (auto simp: coll_insert_def Let_def split: jsval.splits option.splits if_splits)

lemma valid_id_string: "valid_id i \<Longrightarrow> isString i \<and> truthy i"
  by (cases i) simp_all

lemma run_thunk_result:
  "run_thunk e t w = (w1, Inr x) \<Longrightarrow> (if is_insert t then valid_id x else x = JUndef)"
proof (cases t)
  case (InsertThunk c d opt)
  assume "run_thunk e t w = (w1, Inr x)"
  then show ?thesis
    using coll_insert_valid_id [of e c _ w _ x]
    by (auto simp: InsertThunk Let_def doInsert_def split: prod.splits sum.splits)
next
  case (RemoveThunk c i sel opt)
  assume "run_thunk e t w = (w1, Inr x)"
  then show ?thesis
    by (auto simp: RemoveThunk split: prod.splits option.splits)
next
  case (UpdateThunk c i u cmd iv opt)
  assume "run_thunk e t w = (w1, Inr x)"
  then show ?thesis
    by (auto simp: UpdateThunk split: prod.splits option.splits)
qed

lemma exec_fifo_results:
  "exec_fifo e ts w = (w1, Inr vs) \<Longrightarrow>
   length vs = length ts \<and> filter isString vs = insert_ids ts vs \<and>
   list_all valid_id (insert_ids ts vs)"
proof (induction ts arbitrary: w w1 vs)
  case Nil
  then show ?case by (simp add: insert_ids_def)
next
  case (Cons t ts)
  obtain w2 x where rt: "run_thunk e t w = (w2, Inr x)"
    using Cons.prems by (auto split: prod.splits sum.splits)
  obtain vs' where ex: "exec_fifo e ts w2 = (w1, Inr vs')" and vs: "vs = x # vs'"
    using Cons.prems rt by (auto split: prod.splits sum.splits)
  from Cons.IH [OF ex] run_thunk_result [OF rt] show ?case
    by (auto simp: vs insert_ids_def valid_id_string)
qed

lemma newId_reported:
  assumes "list_all valid_id ids"
  shows "(let n = (if length ids = 1 then hd ids else if 1 < length ids then JArr ids else JUndef)
          in if truthy n then n else JBool True) = newId_result ids"
proof (cases ids)
  case Nil
  then show ?thesis by (simp add: newId_result_def)
next
  case (Cons i js)
  with assms show ?thesis
    by (cases js) (simp_all add: newId_result_def valid_id_string)
qed

text \<open>
  C5. For an open transaction with a non-empty execution stack and no rollback flag,
  a call \<open>commit(txid, callback)\<close> that reports success has run every queued closure
  first-queued first, each on the world the one before left, and none of them threw.
  The result it reports is made of the ids the insert closures returned, in that
  order: the id itself when there is exactly one, the sequence of ids when there are
  more, \<open>true\<close> when there is none. The document store is the one those runs left,
  the stack is empty, and the record of the transaction holds the ledger they wrote.
\<close>

theorem commit_drains_fifo:
  assumes "transaction_id w = Some t" and "executionStack w \<noteq> []" and "\<not> rollback_flag w"
    and "tx_commit e txid JUndef w = (w', r)" and "reported r = Some (None, res)"
  shows "\<exists>w2 vs. exec_fifo e (executionStack w) w = (w2, Inr vs) \<and>
           res = newId_result (insert_ids (executionStack w) vs) \<and>
           db w' = db w2 \<and> executionStack w' = [] \<and>
           transactions w' =
             Transactions_modify t
               (\<lambda>rec. rec\<lparr>tx_context := Some (context_obj w), tx_items := Some (items w2)\<rparr>)
               (transactions w)"
proof -
  let ?w0 = "tx_log e [Msg ''Beginning commit''] (w\<lparr>lastTransactionData := Some (Some t, None)\<rparr>)"
  have sd: "same_data ?w0 w" by (simp add: same_data_def frame)
  have st: "executionStack ?w0 = executionStack w" "context_obj ?w0 = context_obj w"
    "transactions ?w0 = transactions w"
    by (simp_all add: frame)
  obtain w1 dr where d: "drain e ?w0 [] = (w1, dr)"
    by (cases "drain e ?w0 []")
  have "\<exists>ids. dr = Inr ids \<and>
      (w', r) = commit_finish e
        (if length ids = 1 then hd ids else if 1 < length ids then JArr ids else JUndef)
        ((Transactions_update t
            (\<lambda>rec. rec\<lparr>tx_context := Some (context_obj w1), tx_items := Some (items w1)\<rparr>) w1)
          \<lparr>lastTransactionData := Some (Some t, Some (items w1))\<rparr>)"
    using assms d
    by (cases dr)
       (auto simp: tx_commit_def Let_def Transactions_update_def commit_finish_def
          split: if_splits)
  then obtain ids where dr: "dr = Inr ids"
    and fin: "(w', r) = commit_finish e
        (if length ids = 1 then hd ids else if 1 < length ids then JArr ids else JUndef)
        ((Transactions_update t
            (\<lambda>rec. rec\<lparr>tx_context := Some (context_obj w1), tx_items := Some (items w1)\<rparr>) w1)
          \<lparr>lastTransactionData := Some (Some t, Some (items w1))\<rparr>)"
    by blast
  from drain_exec_fifo [OF sd, of e "[]"] d dr
  obtain v1 vs where sd1: "same_data w1 v1"
    and ids: "ids = filter isString vs"
    and ex: "exec_fifo e (executionStack w) w = (v1, Inr vs)"
    and w1: "context_obj w1 = context_obj w" "transactions w1 = transactions w"
    by (auto simp: st)
  note res = exec_fifo_results [OF ex]
  have ids': "ids = insert_ids (executionStack w) vs" "list_all valid_id ids"
    using res ids by simp_all
  have w': "w' = fst (commit_finish e
        (if length ids = 1 then hd ids else if 1 < length ids then JArr ids else JUndef)
        ((Transactions_update t
            (\<lambda>rec. rec\<lparr>tx_context := Some (context_obj w1), tx_items := Some (items w1)\<rparr>) w1)
          \<lparr>lastTransactionData := Some (Some t, Some (items w1))\<rparr>))"
    and r: "r = snd (commit_finish e
        (if length ids = 1 then hd ids else if 1 < length ids then JArr ids else JUndef)
        ((Transactions_update t
            (\<lambda>rec. rec\<lparr>tx_context := Some (context_obj w1), tx_items := Some (items w1)\<rparr>) w1)
          \<lparr>lastTransactionData := Some (Some t, Some (items w1))\<rparr>))"
    using fin by (metis fst_conv, metis snd_conv)
  have "res = newId_result ids"
    using assms(5) newId_reported [OF ids'(2)]
    by (simp add: r commit_finish_fields Let_def)
  moreover have "db w' = db v1" "items w1 = items v1"
    using sd1 by (simp_all add: w' commit_finish_fields Transactions_update_def same_data_def)
  moreover have "executionStack w' = []"
    by (simp add: w' commit_finish_fields)
  moreover have "transactions w' =
      Transactions_modify t
        (\<lambda>rec. rec\<lparr>tx_context := Some (context_obj w), tx_items := Some (items w1)\<rparr>)
        (transactions w)"
    by (simp add: w' commit_finish_fields Transactions_update_def w1)
  ultimately show ?thesis
    using ex ids' by auto
qed

lemma two_queued_world:
  "two_queued =
     \<lparr>db = (\<lambda>c. []),
      transactions = [\<lparr>tx_id = ''i'', user_id = Some ''u'', timestamp = 7,
        description = ''last action'', tx_context = None, tx_items = None, undone = None,
        expired = False\<rparr>],
      draws = 1, clock = 7,
      console = [Msg ''Started transaction'', Msg ''Pushed insert command to stack'',
                 Msg ''Pushed insert command to stack''],
      transaction_id = Some ''i'', autoTransaction = False,
      executionStack = [InsertThunk ''docs'' (JObj [(''title'', JStr ''A'')]) None,
                        InsertThunk ''docs'' (JObj [(''title'', JStr ''B'')]) None],
      items = empty_ledger, startAttempts = 0, rollback_flag = False, rollbackReason = [],
      context_obj = [], lastTransactionData = None\<rparr>"
  unfolding two_queued_def example_queued by (simp add: run_defs)

lemmas store_defs =
  doInsert_def coll_insert_def coll_update_def coll_remove_def doRemove_def makeUpdate_def
  pushToRecord_def field_def index_insert_def index_update_def index_remove_def
  count_docs_def wants_softDelete_def

theorem commit_drains_fifo_witness:
  "transaction_id two_queued = Some ''i'' \<and>
   executionStack two_queued =
     [InsertThunk ''docs'' (JObj [(''title'', JStr ''A'')]) None,
      InsertThunk ''docs'' (JObj [(''title'', JStr ''B'')]) None] \<and>
   \<not> rollback_flag two_queued \<and>
   reported (snd (tx_commit example_env ArgUndefined JUndef two_queued)) =
     Some (None, JArr [JStr ''ii'', JStr ''iii'']) \<and>
   snd (exec_fifo example_env (executionStack two_queued) two_queued) =
     Inr [JStr ''ii'', JStr ''iii''] \<and>
   db (fst (tx_commit example_env ArgUndefined JUndef two_queued)) ''docs'' =
     [JObj [(''_id'', JStr ''ii''), (''title'', JStr ''A''), (''transaction_id'', JStr ''i'')],
      JObj [(''_id'', JStr ''iii''), (''title'', JStr ''B''), (''transaction_id'', JStr ''i'')]]"
proof -
  let ?res = "tx_commit example_env ArgUndefined JUndef two_queued"
  have h1: "transaction_id two_queued = Some ''i''" unfolding two_queued_world by simp
  have stack: "executionStack two_queued =
     [InsertThunk ''docs'' (JObj [(''title'', JStr ''A'')]) None,
      InsertThunk ''docs'' (JObj [(''title'', JStr ''B'')]) None]"
    unfolding two_queued_world by simp
  have h2: "executionStack two_queued \<noteq> []" using stack by simp
  have h3: "\<not> rollback_flag two_queued" unfolding two_queued_world by simp
  have h4: "?res = (fst ?res, snd ?res)" by simp
  have h5: "reported (snd ?res) = Some (None, JArr [JStr ''ii'', JStr ''iii''])"
    unfolding two_queued_world
    by (simp add: run_defs store_defs drain_step drain_empty)
  have ex: "snd (exec_fifo example_env (executionStack two_queued) two_queued) =
      Inr [JStr ''ii'', JStr ''iii'']"
    and docs: "db (fst (exec_fifo example_env (executionStack two_queued) two_queued)) ''docs'' =
     [JObj [(''_id'', JStr ''ii''), (''title'', JStr ''A''), (''transaction_id'', JStr ''i'')],
      JObj [(''_id'', JStr ''iii''), (''title'', JStr ''B''), (''transaction_id'', JStr ''i'')]]"
    unfolding two_queued_world
    by (simp_all add: run_defs store_defs)
  from commit_drains_fifo [OF h1 h2 h3 h4 h5]
  obtain w2 vs where "exec_fifo example_env (executionStack two_queued) two_queued = (w2, Inr vs)"
    and "db (fst ?res) = db w2"
    by blast
  then have "db (fst ?res) ''docs'' =
      db (fst (exec_fifo example_env (executionStack two_queued) two_queued)) ''docs''"
    by simp
  with h1 stack h3 h5 ex docs show ?thesis by simp
qed

section \<open>Properties of rollback\<close>

lemma index_insert_frame [frame]:
  "transactions (fst (index_insert e c d w)) = transactions w"
  "clock (fst (index_insert e c d w)) = clock w"
  "console (fst (index_insert e c d w)) = console w"
  "transaction_id (fst (index_insert e c d w)) = transaction_id w"
  "autoTransaction (fst (index_insert e c d w)) = autoTransaction w"
  "executionStack (fst (index_insert e c d w)) = executionStack w"
  "items (fst (index_insert e c d w)) = items w"
  "startAttempts (fst (index_insert e c d w)) = startAttempts w"
  "rollback_flag (fst (index_insert e c d w)) = rollback_flag w"
  "rollbackReason (fst (index_insert e c d w)) = rollbackReason w"
  "context_obj (fst (index_insert e c d w)) = context_obj w"
  "lastTransactionData (fst (index_insert e c d w)) = lastTransactionData w"
  by (simp_all add: index_insert_def split_beta frame split: sum.splits)

lemma index_update_frame [frame]:
  "transactions (fst (index_update e c sel m w)) = transactions w"
  "draws (fst (index_update e c sel m w)) = draws w"
  "clock (fst (index_update e c sel m w)) = clock w"
  "console (fst (index_update e c sel m w)) = console w"
  "transaction_id (fst (index_update e c sel m w)) = transaction_id w"
  "autoTransaction (fst (index_update e c sel m w)) = autoTransaction w"
  "executionStack (fst (index_update e c sel m w)) = executionStack w"
  "items (fst (index_update e c sel m w)) = items w"
  "startAttempts (fst (index_update e c sel m w)) = startAttempts w"
  "rollback_flag (fst (index_update e c sel m w)) = rollback_flag w"
  "rollbackReason (fst (index_update e c sel m w)) = rollbackReason w"
  "context_obj (fst (index_update e c sel m w)) = context_obj w"
  "lastTransactionData (fst (index_update e c sel m w)) = lastTransactionData w"
  by (simp_all add: index_update_def frame)

lemma index_remove_frame [frame]:
  "transactions (fst (index_remove e c sel w)) = transactions w"
  "draws (fst (index_remove e c sel w)) = draws w"
  "clock (fst (index_remove e c sel w)) = clock w"
  "console (fst (index_remove e c sel w)) = console w"
  "transaction_id (fst (index_remove e c sel w)) = transaction_id w"
  "autoTransaction (fst (index_remove e c sel w)) = autoTransaction w"
  "executionStack (fst (index_remove e c sel w)) = executionStack w"
  "items (fst (index_remove e c sel w)) = items w"
  "startAttempts (fst (index_remove e c sel w)) = startAttempts w"
  "rollback_flag (fst (index_remove e c sel w)) = rollback_flag w"
  "rollbackReason (fst (index_remove e c sel w)) = rollbackReason w"
  "context_obj (fst (index_remove e c sel w)) = context_obj w"
  "lastTransactionData (fst (index_remove e c sel w)) = lastTransactionData w"
  by (simp_all add: index_remove_def frame)

lemma rollback_item_frame [frame]:
  "transactions (fst (rollback_removed_item e obj st)) = transactions (fst st)"
  "transaction_id (fst (rollback_removed_item e obj st)) = transaction_id (fst st)"
  "items (fst (rollback_removed_item e obj st)) = items (fst st)"
  "transactions (fst (rollback_updated_item e obj st)) = transactions (fst st)"
  "transaction_id (fst (rollback_updated_item e obj st)) = transaction_id (fst st)"
  "items (fst (rollback_updated_item e obj st)) = items (fst st)"
  "transactions (fst (rollback_inserted_item e obj st)) = transactions (fst st)"
  "transaction_id (fst (rollback_inserted_item e obj st)) = transaction_id (fst st)"
  "items (fst (rollback_inserted_item e obj st)) = items (fst st)"
  by (simp_all add: rollback_removed_item_def rollback_updated_item_def rollback_inserted_item_def
      split_beta frame split: option.splits)

lemma fold_frame:
  assumes "\<And>obj st. g (fst (f obj st)) = g (fst st)"
  shows "g (fst (fold f objs st)) = g (fst st)"
  by (induction objs arbitrary: st) (simp_all add: assms)

lemma rollback_removed_updated_frame:
  "transactions (fst (rollback_removed_updated e w)) = transactions w"
  "transaction_id (fst (rollback_removed_updated e w)) = transaction_id w"
  "items (fst (rollback_removed_updated e w)) = items w"
  by (simp_all add: rollback_removed_updated_def fold_frame frame)

lemma rollback_loops_frame:
  "transactions (fst (rollback_loops e w)) = transactions w"
  "transaction_id (fst (rollback_loops e w)) = transaction_id w"
  "items (fst (rollback_loops e w)) = items w"
  by (simp_all add: rollback_loops_def fold_frame frame rollback_removed_updated_frame)

lemma tx_rollback_loops:
  "tx_rollback e w =
     tx_log e [Msg ''Rollback reset transaction manager to clean state'']
       (cleanReset (Transactions_remove (transaction_id w)
          (if snd (rollback_loops e w)
           then tx_log e (rollback_failed_messages (items w)) (fst (rollback_loops e w))
           else fst (rollback_loops e w))))"
  by (simp add: tx_rollback_def rollback_loops_def rollback_removed_updated_def Let_def
      fold_frame frame)

lemma rollback_inserted_item_db:
  "db (fst (rollback_inserted_item e obj st)) c =
     (if instant obj \<and> collection obj = c \<and> collectionIndex e c
      then filter (\<lambda>d. \<not> matches (SelIdTx (item_id obj) (txval (fst st))) d) (db (fst st) c)
      else db (fst st) c)"
  by (simp add: rollback_inserted_item_def index_remove_def coll_remove_def frame)

lemma txval_rollback_inserted_item:
  "txval (fst (rollback_inserted_item e obj st)) = txval (fst st)"
  by (simp add: txval_def frame)

lemma rollback_inserted_fold_db:
  "db (fst (fold (rollback_inserted_item e) objs st)) c =
     filter (\<lambda>d. \<not> list_ex (\<lambda>obj. instant obj \<and> collection obj = c \<and> collectionIndex e c \<and>
                                    matches (SelIdTx (item_id obj) (txval (fst st))) d) objs)
       (db (fst st) c)"
proof (induction objs arbitrary: st)
  case Nil
  show ?case by simp
next
  case (Cons obj objs)
  show ?case
    by (auto simp del: matches.simps
        simp add: Cons rollback_inserted_item_db txval_rollback_inserted_item
        intro!: filter_cong)
qed

lemma rollback_db:
  "db (tx_rollback e w) c =
     filter (\<lambda>d. \<not> deleted_by_rollback e w c d) (db (fst (rollback_removed_updated e w)) c)"
proof -
  have "txval (fst (rollback_removed_updated e w)) = txval w"
    by (simp add: txval_def rollback_removed_updated_frame)
  then show ?thesis
    by (simp add: tx_rollback_loops frame Transactions_remove_def rollback_loops_def
        rollback_inserted_fold_db deleted_by_rollback_def rollback_removed_updated_frame
        split: option.splits)
qed

lemma foreign_document_kept:
  "transaction_id w = Some t \<Longrightarrow> field d ''transaction_id'' \<noteq> JStr t \<Longrightarrow>
   \<not> deleted_by_rollback e w c d"
  by (simp add: deleted_by_rollback_def txval_def list_ex_iff)

lemma run_queued_frame [frame]:
  "transactions (fst (run_queued e q w)) = transactions w"
  "clock (fst (run_queued e q w)) = clock w"
  "console (fst (run_queued e q w)) = console w"
  "transaction_id (fst (run_queued e q w)) = transaction_id w"
  "items (fst (run_queued e q w)) = items w"
  by (cases q; simp add: frame)+

lemma rollback_removed_step:
  "rollback_removed_item e obj (w, b) =
     (case rollback_inverse (txval w) Removed obj of
        None \<Rightarrow> (w, b)
      | Some q \<Rightarrow>
          (tx_log e [report_line Removed (snd (run_queued e q w))] (fst (run_queued e q w)),
           b \<or> failed (snd (run_queued e q w))))"
  by (auto simp: rollback_removed_item_def report_line_def failed_def split_beta
        split: option.splits)

lemma rollback_updated_step:
  "rollback_updated_item e obj (w, b) =
     (case rollback_inverse (txval w) Updated obj of
        None \<Rightarrow> (w, b)
      | Some q \<Rightarrow>
          (tx_log e [report_line Updated (snd (run_queued e q w))] (fst (run_queued e q w)),
           b \<or> failed (snd (run_queued e q w))))"
  by (auto simp: rollback_updated_item_def report_line_def failed_def split_beta
        split: option.splits)

lemma rollback_inserted_step:
  "rollback_inserted_item e obj (w, b) =
     (case rollback_inverse (txval w) Inserted obj of
        None \<Rightarrow> (w, b)
      | Some q \<Rightarrow>
          (tx_log e [report_line Inserted (snd (run_queued e q w))] (fst (run_queued e q w)),
           b \<or> failed (snd (run_queued e q w))))"
  by (auto simp: rollback_inserted_item_def report_line_def failed_def split_beta
        split: option.splits)

lemma best_effort_append:
  "best_effort e (p1 @ p2) w =
     (fst (best_effort e p2 (fst (best_effort e p1 w))),
      snd (best_effort e p1 w) @ snd (best_effort e p2 (fst (best_effort e p1 w))))"
  by (induction p1 arbitrary: w) (simp_all add: split_beta)

lemma best_effort_txval: "txval (fst (best_effort e p w)) = txval w"
  by (induction p arbitrary: w) (simp_all add: split_beta txval_def frame)

lemma best_effort_frame:
  "transactions (fst (best_effort e p w)) = transactions w"
  "transaction_id (fst (best_effort e p w)) = transaction_id w"
  "items (fst (best_effort e p w)) = items w"
  by (induction p arbitrary: w) (simp_all add: split_beta frame)

text \<open>Every inverse of the list has its outcome, and its line on the console.\<close>

lemma best_effort_length: "length (snd (best_effort e p w)) = length p"
  by (induction p arbitrary: w) (simp_all add: split_beta)

lemma best_effort_console:
  "logging e \<Longrightarrow>
   console (fst (best_effort e p w)) =
     console w @ map (\<lambda>tr. report_line (fst (fst tr)) (snd tr)) (zip p (snd (best_effort e p w)))"
  by (induction p arbitrary: w) (simp_all add: split_beta tx_log_def frame)

lemma fold_best_effort:
  assumes step: "\<And>obj w b. f obj (w, b) =
     (case rollback_inverse (txval w) ty obj of
        None \<Rightarrow> (w, b)
      | Some q \<Rightarrow>
          (tx_log e [report_line ty (snd (run_queued e q w))] (fst (run_queued e q w)),
           b \<or> failed (snd (run_queued e q w))))"
  shows "fold f objs (w, b) =
     (fst (best_effort e (planned (txval w) ty objs) w),
      b \<or> list_ex failed (snd (best_effort e (planned (txval w) ty objs) w)))"
proof (induction objs arbitrary: w b)
  case Nil
  show ?case by (simp add: planned_def)
next
  case (Cons obj objs)
  show ?case
  proof (cases "rollback_inverse (txval w) ty obj")
    case None
    then show ?thesis
      by (simp add: step Cons) (simp add: planned_def)
  next
    case (Some q)
    let ?w1 = "tx_log e [report_line ty (snd (run_queued e q w))] (fst (run_queued e q w))"
    have t: "txval ?w1 = txval w"
      by (simp add: txval_def frame)
    have p: "planned (txval w) ty (obj # objs) = (ty, q) # planned (txval w) ty objs"
      using Some by (simp add: planned_def)
    show ?thesis
      by (simp add: step Some Cons t) (simp add: p split_beta)
  qed
qed

lemma rollback_loops_best_effort:
  "rollback_loops e w =
     (fst (best_effort e (rollback_plan (txval w) (items w)) w),
      list_ex failed (snd (best_effort e (rollback_plan (txval w) (items w)) w)))"
  by (simp add: rollback_loops_def rollback_removed_updated_def rollback_plan_def
      fold_best_effort [where f = "rollback_removed_item e", OF rollback_removed_step]
      fold_best_effort [where f = "rollback_updated_item e", OF rollback_updated_step]
      fold_best_effort [where f = "rollback_inserted_item e", OF rollback_inserted_step]
      best_effort_append best_effort_txval)

text \<open>
  C4. \<open>rollback\<close> applies the inverses of the instant items of its ledger with best
  effort: every one is applied, in order, on the store as the earlier ones left it,
  whether these failed or not; a failure is logged (the console line of that inverse is
  the error) and flagged (the failure report follows when some inverse failed). The
  inverse of an instant inserted item deletes exactly the documents that match the
  item's \<open>_id\<close> and still carry this transaction's id: a document whose
  \<open>transaction_id\<close> is another one stays. However the items fared, the record of the
  transaction is removed and the in-flight state is reset.
\<close>

theorem rollback_best_effort:
  "tx_rollback e w =
     tx_log e [Msg ''Rollback reset transaction manager to clean state'']
       (cleanReset (Transactions_remove (transaction_id w)
          (if list_ex failed (snd (best_effort e (rollback_plan (txval w) (items w)) w))
           then tx_log e (rollback_failed_messages (items w))
                  (fst (best_effort e (rollback_plan (txval w) (items w)) w))
           else fst (best_effort e (rollback_plan (txval w) (items w)) w)))) \<and>
   length (snd (best_effort e (rollback_plan (txval w) (items w)) w)) =
     length (rollback_plan (txval w) (items w)) \<and>
   (logging e \<longrightarrow>
      console (fst (best_effort e (rollback_plan (txval w) (items w)) w)) =
        console w @
        map (\<lambda>tr. report_line (fst (fst tr)) (snd tr))
          (zip (rollback_plan (txval w) (items w))
               (snd (best_effort e (rollback_plan (txval w) (items w)) w)))) \<and>
   db (tx_rollback e w) c =
     filter (\<lambda>d. \<not> deleted_by_rollback e w c d) (db (fst (rollback_removed_updated e w)) c) \<and>
   (transaction_id w = Some t \<and> field d ''transaction_id'' \<noteq> JStr t \<longrightarrow>
      \<not> deleted_by_rollback e w c d) \<and>
   transactions (tx_rollback e w) =
     (case transaction_id w of
        None \<Rightarrow> transactions w
      | Some t' \<Rightarrow> filter (\<lambda>rec. tx_id rec \<noteq> t') (transactions w)) \<and>
   transaction_id (tx_rollback e w) = None \<and> items (tx_rollback e w) = empty_ledger \<and>
   executionStack (tx_rollback e w) = [] \<and> \<not> rollback_flag (tx_rollback e w)"
proof (intro conjI impI)
  show "tx_rollback e w =
     tx_log e [Msg ''Rollback reset transaction manager to clean state'']
       (cleanReset (Transactions_remove (transaction_id w)
          (if list_ex failed (snd (best_effort e (rollback_plan (txval w) (items w)) w))
           then tx_log e (rollback_failed_messages (items w))
                  (fst (best_effort e (rollback_plan (txval w) (items w)) w))
           else fst (best_effort e (rollback_plan (txval w) (items w)) w))))"
    by (simp only: tx_rollback_loops rollback_loops_best_effort fst_conv snd_conv)
next
  show "length (snd (best_effort e (rollback_plan (txval w) (items w)) w)) =
     length (rollback_plan (txval w) (items w))"
    by (rule best_effort_length)
next
  assume "logging e"
  then show "console (fst (best_effort e (rollback_plan (txval w) (items w)) w)) =
        console w @
        map (\<lambda>tr. report_line (fst (fst tr)) (snd tr))
          (zip (rollback_plan (txval w) (items w))
               (snd (best_effort e (rollback_plan (txval w) (items w)) w)))"
    by (rule best_effort_console)
next
  show "db (tx_rollback e w) c =
     filter (\<lambda>d. \<not> deleted_by_rollback e w c d) (db (fst (rollback_removed_updated e w)) c)"
    by (rule rollback_db)
next
  assume "transaction_id w = Some t \<and> field d ''transaction_id'' \<noteq> JStr t"
  then show "\<not> deleted_by_rollback e w c d"
    by (simp add: foreign_document_kept)
next
  show "transactions (tx_rollback e w) =
     (case transaction_id w of
        None \<Rightarrow> transactions w
      | Some t' \<Rightarrow> filter (\<lambda>rec. tx_id rec \<noteq> t') (transactions w))"
    by (simp add: tx_rollback_loops frame Transactions_remove_def rollback_loops_frame
        split: option.splits)
qed (simp_all add: tx_rollback_clean)

lemmas rollback_defs =
  claimed_world_def partial_env_def example_env_def items_of_def rollback_plan_def planned_def
  operation_modifier_def unpackageForUpdate_def obj_extend_def txval_def report_line_def
  failed_def tx_log_def index_insert_def index_update_def index_remove_def coll_insert_def
  coll_update_def coll_remove_def field_def

theorem rollback_best_effort_witness:
  "transaction_id claimed_world = Some ''i'' \<and> logging partial_env \<and>
   snd (best_effort partial_env (rollback_plan (txval claimed_world) (items claimed_world))
          claimed_world) =
     [Some DuplicateKey, None, Some TypeError, None, None, None] \<and>
   db claimed_world ''docs'' =
     [JObj [(''_id'', JStr ''a''), (''transaction_id'', JStr ''i'')],
      JObj [(''_id'', JStr ''b''), (''transaction_id'', JStr ''j'')]] \<and>
   db (tx_rollback partial_env claimed_world) ''docs'' =
     [JObj [(''_id'', JStr ''b''), (''transaction_id'', JStr ''j'')],
      JObj [(''_id'', JStr ''r'')]] \<and>
   console (tx_rollback partial_env claimed_world) =
     [ErrMsg DuplicateKey, Msg ''Rolled back remove'', ErrMsg TypeError,
      Msg ''Rolled back update'', Msg ''Rolled back insert'', Msg ''Rolled back insert''] @
     rollback_failed_messages (items claimed_world) @
     [Msg ''Rollback reset transaction manager to clean state''] \<and>
   transactions (tx_rollback partial_env claimed_world) = [] \<and>
   transaction_id (tx_rollback partial_env claimed_world) = None"
proof -
  let ?a = "JObj [(''_id'', JStr ''a''), (''transaction_id'', JStr ''i'')]"
  let ?b = "JObj [(''_id'', JStr ''b''), (''transaction_id'', JStr ''j'')]"
  let ?r = "JObj [(''_id'', JStr ''r'')]"
  let ?be = "best_effort partial_env (rollback_plan (txval claimed_world) (items claimed_world))
      claimed_world"
  note inst = rollback_best_effort [of partial_env claimed_world "''docs''" "''i''" ?b]
  have h1: "transaction_id claimed_world = Some ''i''" by (simp add: claimed_world_def)
  have h2: "field ?b ''transaction_id'' \<noteq> JStr ''i''" by (simp add: field_def)
  have h3: "logging partial_env" by (simp add: partial_env_def example_env_def)
  have out: "snd ?be = [Some DuplicateKey, None, Some TypeError, None, None, None]"
    by (simp add: rollback_defs split_beta)
  have docs: "db claimed_world ''docs'' = [?a, ?b]"
    by (simp add: claimed_world_def)
  have two: "db (fst (rollback_removed_updated partial_env claimed_world)) ''docs'' = [?a, ?b, ?r]"
    by (simp add: rollback_removed_updated_def rollback_removed_item_def
        rollback_updated_item_def rollback_defs split_beta)
  have kept: "\<not> deleted_by_rollback partial_env claimed_world ''docs'' ?b"
    using inst h1 h2 by blast
  have gone: "deleted_by_rollback partial_env claimed_world ''docs'' ?a"
    by (simp add: deleted_by_rollback_def rollback_defs)
  have stays: "\<not> deleted_by_rollback partial_env claimed_world ''docs'' ?r"
    by (simp add: deleted_by_rollback_def rollback_defs)
  have "db (tx_rollback partial_env claimed_world) ''docs'' =
      filter (\<lambda>d. \<not> deleted_by_rollback partial_env claimed_world ''docs'' d)
        (db (fst (rollback_removed_updated partial_env claimed_world)) ''docs'')"
    using inst by blast
  then have after: "db (tx_rollback partial_env claimed_world) ''docs'' = [?b, ?r]"
    using kept gone stays by (simp add: two)
  have "console (fst ?be) =
      console claimed_world @
      map (\<lambda>tr. report_line (fst (fst tr)) (snd tr))
        (zip (rollback_plan (txval claimed_world) (items claimed_world)) (snd ?be))"
    using inst h3 by blast
  then have lines: "console (fst ?be) =
     [ErrMsg DuplicateKey, Msg ''Rolled back remove'', ErrMsg TypeError,
      Msg ''Rolled back update'', Msg ''Rolled back insert'', Msg ''Rolled back insert'']"
    unfolding out by (simp add: rollback_defs)
  have eq: "tx_rollback partial_env claimed_world =
     tx_log partial_env [Msg ''Rollback reset transaction manager to clean state'']
       (cleanReset (Transactions_remove (transaction_id claimed_world)
          (if list_ex failed (snd ?be)
           then tx_log partial_env (rollback_failed_messages (items claimed_world)) (fst ?be)
           else fst ?be)))"
    using inst by blast
  have cons: "console (tx_rollback partial_env claimed_world) =
     [ErrMsg DuplicateKey, Msg ''Rolled back remove'', ErrMsg TypeError,
      Msg ''Rolled back update'', Msg ''Rolled back insert'', Msg ''Rolled back insert''] @
     rollback_failed_messages (items claimed_world) @
     [Msg ''Rollback reset transaction manager to clean state'']"
    by (simp only: eq out)
       (simp add: lines h1 h3 failed_def tx_log_def cleanReset_def Transactions_remove_def)
  have "transactions (tx_rollback partial_env claimed_world) =
      (case transaction_id claimed_world of
         None \<Rightarrow> transactions claimed_world
       | Some t' \<Rightarrow> filter (\<lambda>rec. tx_id rec \<noteq> t') (transactions claimed_world))"
    using inst by blast
  then have tr: "transactions (tx_rollback partial_env claimed_world) = []"
    by (simp add: claimed_world_def)
  have "transaction_id (tx_rollback partial_env claimed_world) = None"
    using inst by blast
  with h1 h3 out docs after cons tr show ?thesis by simp
qed

section \<open>Properties of undo\<close>

lemma falsy_has_no_id: "\<not> truthy d \<Longrightarrow> field d ''_id'' = JUndef"
  by (cases d) (simp_all add: field_def array_index_def digit_chars_def)

lemma matches_truthy: "matches sel d \<Longrightarrow> truthy d"
proof (rule ccontr)
  assume m: "matches sel d" and "\<not> truthy d"
  then have "field d ''_id'' = JUndef" by (rule_tac falsy_has_no_id)
  with m show False by (cases sel) auto
qed

lemma findOne_truthy: "truthy (findOne w c sel) = list_ex (matches sel) (db w c)"
proof (cases "filter (matches sel) (db w c)")
  case Nil
  then have "\<not> list_ex (matches sel) (db w c)"
    by (simp add: list_ex_iff filter_empty_conv)
  with Nil show ?thesis by (simp add: findOne_def)
next
  case (Cons d ds)
  then have "d \<in> set (filter (matches sel) (db w c))" by simp
  then have "matches sel d" "d \<in> set (db w c)" by simp_all
  with Cons show ?thesis
    by (auto simp: findOne_def list_ex_iff matches_truthy)
qed

lemma count_docs_pos: "(0 < count_docs w c sel) = list_ex (matches sel) (db w c)"
  by (simp add: count_docs_def list_ex_iff filter_empty_conv length_greater_0_conv)

lemma mark_expired_frame [simp]:
  "db (mark_expired t w) = db w"
  "draws (mark_expired t w) = draws w"
  "clock (mark_expired t w) = clock w"
  by (simp_all add: mark_expired_def Transactions_update_def)

lemma Transactions_modify_idem:
  assumes "\<And>r. tx_id (f r) = tx_id r" and "\<And>r. f (f r) = f r"
  shows "Transactions_modify t f (Transactions_modify t f rs) = Transactions_modify t f rs"
  by (induction rs) (simp_all add: assms)

lemma mark_expired_idem: "mark_expired t (mark_expired t w) = mark_expired t w"
  by (simp add: mark_expired_def Transactions_update_def Transactions_modify_idem)

lemma inserted_expired_mark [simp]:
  "inserted_expired (mark_expired t' w) t obj = inserted_expired w t obj"
  by (simp add: inserted_expired_def)

lemma undo_removed_step:
  "collectionIndex e (collection obj) \<Longrightarrow>
   undo_removed_item e t obj (w, b, q) =
     ((w, b \<or> removed_expired w obj,
       q @ (if removed_expired w obj then [] else [undo_removed_action t obj])), None)"
  by (cases "doc obj")
     (auto simp: undo_removed_item_def removed_expired_def count_docs_pos undo_removed_action_def)

lemma undo_removed_loop:
  "list_all (\<lambda>obj. collectionIndex e (collection obj)) objs \<Longrightarrow>
   each_item (undo_removed_item e t) objs (w, b, q) =
     ((w, b \<or> list_ex (removed_expired w) objs,
       q @ map (undo_removed_action t) (filter (\<lambda>obj. \<not> removed_expired w obj) objs)), None)"
  by (induction objs arbitrary: b q) (simp_all add: undo_removed_step)

lemma undo_updated_step:
  "undo_updated_item e obj (w, b, q) = ((w, b, q @ inverse_action obj), None)"
  by (cases "operation_modifier (inverse_op obj)")
     (simp_all add: undo_updated_item_def inverse_action_def)

lemma undo_updated_loop:
  "each_item (undo_updated_item e) objs (w, b, q) =
     ((w, b, q @ concat (map inverse_action objs)), None)"
  by (induction objs arbitrary: q) (simp_all add: undo_updated_step)

lemma undo_inserted_step:
  "collectionIndex e (collection obj) \<Longrightarrow>
   undo_inserted_item e t obj (w, b, q) =
     ((if inserted_expired w t obj then mark_expired t w else w,
       b \<or> inserted_expired w t obj, q @ [undo_inserted_action t obj]), None)"
  by (simp add: undo_inserted_item_def Let_def findOne_truthy inserted_expired_def
      undo_inserted_action_def)

lemma undo_inserted_loop:
  "list_all (\<lambda>obj. collectionIndex e (collection obj)) objs \<Longrightarrow>
   each_item (undo_inserted_item e t) objs (w, b, q) =
     ((if list_ex (inserted_expired w t) objs then mark_expired t w else w,
       b \<or> list_ex (inserted_expired w t) objs,
       q @ map (undo_inserted_action t) objs), None)"
  by (induction objs arbitrary: w b q) (auto simp: undo_inserted_step mark_expired_idem)

lemma undo_build_result:
  assumes "registered e its"
  shows "undo_build e t its w =
     ((if list_ex (inserted_expired w t) (items_of (inserted its)) then mark_expired t w else w,
       undo_expired w t its,
       map (undo_removed_action t)
         (filter (\<lambda>obj. \<not> removed_expired w obj) (items_of (removed its))) @
       concat (map inverse_action (items_of (updated its))) @
       map (undo_inserted_action t) (items_of (inserted its))), None)"
  using assms
  by (simp add: undo_build_def registered_def undo_removed_loop undo_updated_loop
      undo_inserted_loop undo_expired_def)

lemma filter_none_expired:
  "\<not> list_ex P objs \<Longrightarrow> filter (\<lambda>obj. \<not> P obj) objs = objs"
  by (induction objs) simp_all

lemma undo_result:
  assumes "\<not> noUser e" and "undo_select e i w = Some lt" and "tx_items lt = Some its"
    and "registered e its"
  shows "meteorTransactionsUndo e i w =
     (if undo_expired w (tx_id lt) its
      then (if list_ex (inserted_expired w (tx_id lt)) (items_of (inserted its))
            then mark_expired (tx_id lt) w else w, Inr (JBool True))
      else (case process_queue e (undo_queue (tx_id lt) its) w of
              (w2, Some er) \<Rightarrow> (w2, Inl er)
            | (w2, None) \<Rightarrow>
                (Transactions_update (tx_id lt) (\<lambda>r. r\<lparr>undone := Some (clock w2)\<rparr>) w2,
                 Inr (JBool False))))"
proof (cases "undo_expired w (tx_id lt) its")
  case True
  with assms show ?thesis
    by (simp add: meteorTransactionsUndo_def undo_build_result)
next
  case False
  then have "\<not> list_ex (removed_expired w) (items_of (removed its))"
    and "\<not> list_ex (inserted_expired w (tx_id lt)) (items_of (inserted its))"
    by (simp_all add: undo_expired_def)
  with assms False show ?thesis
    by (simp add: meteorTransactionsUndo_def undo_build_result filter_none_expired undo_queue_def)
qed

lemma undo_inserted_queue:
  "list_all (\<lambda>obj. collectionIndex e (collection obj)) objs \<Longrightarrow>
   snd (process_queue e (map (undo_inserted_action t) objs) w) = None \<and>
   db (fst (process_queue e (map (undo_inserted_action t) objs) w)) c =
     filter (\<lambda>d. \<not> list_ex (\<lambda>obj. collection obj = c \<and>
                                    matches (SelIdTx (item_id obj) (JStr t)) d) objs)
       (db w c) \<and>
   transactions (fst (process_queue e (map (undo_inserted_action t) objs) w)) = transactions w \<and>
   clock (fst (process_queue e (map (undo_inserted_action t) objs) w)) = clock w"
proof (induction objs arbitrary: w)
  case Nil
  show ?case by simp
next
  case (Cons obj objs)
  then have reg: "collectionIndex e (collection obj)"
    and rest: "list_all (\<lambda>obj. collectionIndex e (collection obj)) objs"
    by simp_all
  show ?case
    using reg Cons.IH [OF rest, of "coll_remove (collection obj) (SelIdTx (item_id obj) (JStr t)) w"]
    by (auto simp del: matches.simps
        simp add: undo_inserted_action_def index_remove_def coll_remove_def
        intro!: filter_cong)
qed

text \<open>
  C2. For a logged-in user, a selected record with its ledger, and items that name
  registered collections: the method first builds the whole queue and evaluates the
  expiry check of every item. When an item has expired it returns \<open>true\<close> and the
  document store is as before (the only write marks the record \<open>expired\<close>, when an
  inserted item has expired). When no item has expired the result is that of running
  the queued actions in order and stamping the record \<open>undone\<close>. In particular, for
  a ledger of inserted items only, undo removes exactly the documents that still carry
  the transaction's id, stamps the record and returns \<open>false\<close>.
\<close>

theorem undo_all_or_nothing:
  assumes "\<not> noUser e" and "undo_select e i w = Some lt" and "tx_items lt = Some its"
    and "registered e its"
  shows
   "(undo_expired w (tx_id lt) its \<longrightarrow>
       snd (meteorTransactionsUndo e i w) = Inr (JBool True) \<and>
       db (fst (meteorTransactionsUndo e i w)) = db w \<and>
       fst (meteorTransactionsUndo e i w) =
         (if list_ex (inserted_expired w (tx_id lt)) (items_of (inserted its))
          then mark_expired (tx_id lt) w else w)) \<and>
    (\<not> undo_expired w (tx_id lt) its \<longrightarrow>
       meteorTransactionsUndo e i w =
         (case process_queue e (undo_queue (tx_id lt) its) w of
            (w2, Some er) \<Rightarrow> (w2, Inl er)
          | (w2, None) \<Rightarrow>
              (Transactions_update (tx_id lt) (\<lambda>r. r\<lparr>undone := Some (clock w2)\<rparr>) w2,
               Inr (JBool False)))) \<and>
    (\<not> undo_expired w (tx_id lt) its \<and> items_of (removed its) = [] \<and>
     items_of (updated its) = [] \<longrightarrow>
       snd (meteorTransactionsUndo e i w) = Inr (JBool False) \<and>
       db (fst (meteorTransactionsUndo e i w)) c =
         filter (\<lambda>d. \<not> list_ex (\<lambda>obj. collection obj = c \<and>
                          matches (SelIdTx (item_id obj) (JStr (tx_id lt))) d)
                        (items_of (inserted its)))
           (db w c) \<and>
       transactions (fst (meteorTransactionsUndo e i w)) =
         Transactions_modify (tx_id lt) (\<lambda>r. r\<lparr>undone := Some (clock w)\<rparr>) (transactions w))"
proof (intro conjI impI)
  assume ex: "undo_expired w (tx_id lt) its"
  from undo_result [OF assms] ex
  show "snd (meteorTransactionsUndo e i w) = Inr (JBool True)"
    and "db (fst (meteorTransactionsUndo e i w)) = db w"
    and "fst (meteorTransactionsUndo e i w) =
         (if list_ex (inserted_expired w (tx_id lt)) (items_of (inserted its))
          then mark_expired (tx_id lt) w else w)"
    by simp_all
next
  assume "\<not> undo_expired w (tx_id lt) its"
  with undo_result [OF assms]
  show "meteorTransactionsUndo e i w =
         (case process_queue e (undo_queue (tx_id lt) its) w of
            (w2, Some er) \<Rightarrow> (w2, Inl er)
          | (w2, None) \<Rightarrow>
              (Transactions_update (tx_id lt) (\<lambda>r. r\<lparr>undone := Some (clock w2)\<rparr>) w2,
               Inr (JBool False)))"
    by simp
next
  assume a: "\<not> undo_expired w (tx_id lt) its \<and> items_of (removed its) = [] \<and>
     items_of (updated its) = []"
  let ?q = "map (undo_inserted_action (tx_id lt)) (items_of (inserted its))"
  have q: "undo_queue (tx_id lt) its = ?q"
    using a by (simp add: undo_queue_def)
  have reg: "list_all (\<lambda>obj. collectionIndex e (collection obj)) (items_of (inserted its))"
    using assms(4) by (simp add: registered_def)
  note pq = undo_inserted_queue [OF reg, of "tx_id lt" w]
  have res: "meteorTransactionsUndo e i w =
      (Transactions_update (tx_id lt)
         (\<lambda>r. r\<lparr>undone := Some (clock (fst (process_queue e ?q w)))\<rparr>)
         (fst (process_queue e ?q w)),
       Inr (JBool False))"
    using undo_result [OF assms] a pq [of c] by (simp add: q split_beta)
  show "snd (meteorTransactionsUndo e i w) = Inr (JBool False)"
    by (simp add: res)
  show "db (fst (meteorTransactionsUndo e i w)) c =
         filter (\<lambda>d. \<not> list_ex (\<lambda>obj. collection obj = c \<and>
                          matches (SelIdTx (item_id obj) (JStr (tx_id lt))) d)
                        (items_of (inserted its)))
           (db w c)"
    using pq [of c] by (simp add: res Transactions_update_def)
  show "transactions (fst (meteorTransactionsUndo e i w)) =
         Transactions_modify (tx_id lt) (\<lambda>r. r\<lparr>undone := Some (clock w)\<rparr>) (transactions w)"
    using pq [of c] by (simp add: res Transactions_update_def)
qed

lemma example_auto_insert:
  "db (fst (tx_insert example_env ''docs'' (JObj [(''title'', JStr ''A'')]) None initial_world)) =
     db committed_world \<and>
   transactions (fst (tx_insert example_env ''docs'' (JObj [(''title'', JStr ''A'')]) None
     initial_world)) = transactions committed_world"
  by (auto simp: run_defs store_defs drain_empty committed_world_def inserted_record_def
        inserted_ledger_def fun_eq_iff)

lemmas undo_defs =
  committed_world_def edited_world_def inserted_record_def inserted_ledger_def
  initial_world_def example_env_def noUser_def undo_select_def redo_select_def id_given_def
  registered_def items_of_def undo_expired_def removed_expired_def inserted_expired_def
  field_def mark_expired_def Transactions_update_def

theorem undo_all_or_nothing_witness:
  "undo_select example_env None committed_world = Some inserted_record \<and>
   \<not> undo_expired committed_world ''i'' inserted_ledger \<and>
   snd (meteorTransactionsUndo example_env None committed_world) = Inr (JBool False) \<and>
   db (fst (meteorTransactionsUndo example_env None committed_world)) ''docs'' = [] \<and>
   map undone (transactions (fst (meteorTransactionsUndo example_env None committed_world))) =
     [Some 7] \<and>
   undo_expired edited_world ''i'' inserted_ledger \<and>
   snd (meteorTransactionsUndo example_env None edited_world) = Inr (JBool True) \<and>
   db (fst (meteorTransactionsUndo example_env None edited_world)) = db edited_world \<and>
   map expired (transactions (fst (meteorTransactionsUndo example_env None edited_world))) =
     [True]"
proof -
  have nu: "\<not> noUser example_env" by (simp add: undo_defs)
  have sel: "undo_select example_env None committed_world = Some inserted_record"
    by (simp add: undo_defs)
  have sel': "undo_select example_env None edited_world = Some inserted_record"
    by (simp add: undo_defs)
  have its: "tx_items inserted_record = Some inserted_ledger"
    by (simp add: inserted_record_def)
  have reg: "registered example_env inserted_ledger"
    by (simp add: undo_defs)
  have t: "tx_id inserted_record = ''i''" by (simp add: inserted_record_def)
  have fresh: "\<not> undo_expired committed_world ''i'' inserted_ledger"
    by (simp add: undo_defs)
  have stale: "undo_expired edited_world ''i'' inserted_ledger"
    and stale_ins: "list_ex (inserted_expired edited_world ''i'') (items_of (inserted inserted_ledger))"
    by (simp_all add: undo_defs)
  have only: "items_of (removed inserted_ledger) = []" "items_of (updated inserted_ledger) = []"
    by (simp_all add: undo_defs)
  note good = undo_all_or_nothing [OF nu sel its reg, of "''docs''", unfolded t]
  note bad = undo_all_or_nothing [OF nu sel' its reg, of "''docs''", unfolded t]
  from good fresh only
  have g1: "snd (meteorTransactionsUndo example_env None committed_world) = Inr (JBool False)"
    and g2: "db (fst (meteorTransactionsUndo example_env None committed_world)) ''docs'' =
         filter (\<lambda>d. \<not> list_ex (\<lambda>obj. collection obj = ''docs'' \<and>
                          matches (SelIdTx (item_id obj) (JStr ''i'')) d)
                        (items_of (inserted inserted_ledger)))
           (db committed_world ''docs'')"
    and g3: "transactions (fst (meteorTransactionsUndo example_env None committed_world)) =
         Transactions_modify ''i'' (\<lambda>r. r\<lparr>undone := Some (clock committed_world)\<rparr>)
           (transactions committed_world)"
    by blast+
  have g2': "db (fst (meteorTransactionsUndo example_env None committed_world)) ''docs'' = []"
    unfolding g2 by (simp add: undo_defs)
  have g3': "map undone (transactions (fst (meteorTransactionsUndo example_env None committed_world))) =
     [Some 7]"
    unfolding g3 by (simp add: undo_defs)
  from bad stale
  have b1: "snd (meteorTransactionsUndo example_env None edited_world) = Inr (JBool True)"
    and b2: "db (fst (meteorTransactionsUndo example_env None edited_world)) = db edited_world"
    and b3: "fst (meteorTransactionsUndo example_env None edited_world) =
         (if list_ex (inserted_expired edited_world ''i'') (items_of (inserted inserted_ledger))
          then mark_expired ''i'' edited_world else edited_world)"
    by blast+
  have b3': "map expired (transactions (fst (meteorTransactionsUndo example_env None edited_world))) =
     [True]"
    unfolding b3 using stale_ins by (simp add: undo_defs)
  from sel fresh g1 g2' g3' stale b1 b2 b3' show ?thesis by simp
qed

section \<open>Properties of redo\<close>

lemma count_docs_zero: "(count_docs w c sel = 0) = (\<not> list_ex (matches sel) (db w c))"
  by (simp add: count_docs_def list_ex_iff filter_empty_conv)

lemma id_taken_mark [simp]: "id_taken (mark_expired t w) obj = id_taken w obj"
  by (simp add: id_taken_def)

lemma redo_removed_step:
  "redo_removed_item e t obj (w, b, q) = ((w, b, q @ [redo_removed_action w t obj]), None)"
  by (cases "doc obj") (simp_all add: redo_removed_item_def redo_removed_action_def)

lemma redo_removed_loop:
  "each_item (redo_removed_item e t) objs (w, b, q) =
     ((w, b, q @ map (redo_removed_action w t) objs), None)"
  by (induction objs arbitrary: q) (simp_all add: redo_removed_step)

lemma redo_updated_step:
  "redo_updated_item e obj (w, b, q) = ((w, b, q @ forward_action obj), None)"
  by (cases "operation_modifier (update_op obj)")
     (simp_all add: redo_updated_item_def forward_action_def)

lemma redo_updated_loop:
  "each_item (redo_updated_item e) objs (w, b, q) =
     ((w, b, q @ concat (map forward_action objs)), None)"
  by (induction objs arbitrary: q) (simp_all add: redo_updated_step)

lemma redo_newDoc_reinserted: "has_newDoc obj \<Longrightarrow> redo_newDoc t obj = Inr (reinserted t obj)"
  by (auto simp: has_newDoc_def redo_newDoc_def reinserted_def obj_extend_def
        split: option.splits jsval.splits)

text \<open>An inserted item without \<open>newDoc\<close> whose id is free makes the method throw
  while it builds the queue.\<close>

lemma redo_missing_newDoc_throws:
  "collectionIndex e (collection obj) \<Longrightarrow> \<not> id_taken w obj \<Longrightarrow> newDoc obj = None \<Longrightarrow>
   redo_inserted_item e t obj (w, b, q) = ((w, b, q), Some TypeError)"
  by (simp add: redo_inserted_item_def count_docs_zero id_taken_def redo_newDoc_def)

lemma redo_inserted_step:
  "collectionIndex e (collection obj) \<Longrightarrow> has_newDoc obj \<Longrightarrow>
   redo_inserted_item e t obj (w, b, q) =
     ((if id_taken w obj then mark_expired t w else w, b \<or> id_taken w obj,
       q @ (if id_taken w obj then [] else [redo_inserted_action t obj])), None)"
  by (simp add: redo_inserted_item_def count_docs_zero id_taken_def redo_inserted_action_def
      redo_newDoc_reinserted)

lemma redo_inserted_loop:
  "list_all (\<lambda>obj. collectionIndex e (collection obj)) objs \<Longrightarrow> list_all has_newDoc objs \<Longrightarrow>
   each_item (redo_inserted_item e t) objs (w, b, q) =
     ((if list_ex (id_taken w) objs then mark_expired t w else w,
       b \<or> list_ex (id_taken w) objs,
       q @ map (redo_inserted_action t) (filter (\<lambda>obj. \<not> id_taken w obj) objs)), None)"
  by (induction objs arbitrary: w b q) (auto simp: redo_inserted_step mark_expired_idem)

lemma redo_build_result:
  assumes "registered e its" and "payload_recorded its"
  shows "redo_build e t its w =
     ((if redo_expired w its then mark_expired t w else w, redo_expired w its,
       map (redo_removed_action w t) (items_of (removed its)) @
       concat (map forward_action (items_of (updated its))) @
       map (redo_inserted_action t)
         (filter (\<lambda>obj. \<not> id_taken w obj) (items_of (inserted its)))), None)"
  using assms
  by (simp add: redo_build_def registered_def payload_recorded_def redo_removed_loop
      redo_updated_loop redo_inserted_loop redo_expired_def)

lemma redo_result:
  assumes "\<not> noUser e" and "redo_select e i w = Some lu" and "tx_items lu = Some its"
    and "registered e its" and "payload_recorded its"
  shows "meteorTransactionsRedo e i w =
     (if redo_expired w its then (mark_expired (tx_id lu) w, Inr (JBool True))
      else (case process_queue e (redo_queue w (tx_id lu) its) w of
              (w2, Some er) \<Rightarrow> (w2, Inl er)
            | (w2, None) \<Rightarrow>
                (Transactions_update (tx_id lu) (\<lambda>r. r\<lparr>undone := None\<rparr>) w2,
                 Inr (JBool False))))"
proof (cases "redo_expired w its")
  case True
  with assms show ?thesis
    by (simp add: meteorTransactionsRedo_def redo_build_result)
next
  case False
  then have "\<not> list_ex (id_taken w) (items_of (inserted its))"
    by (simp add: redo_expired_def)
  with assms False show ?thesis
    by (simp add: meteorTransactionsRedo_def redo_build_result filter_none_expired redo_queue_def)
qed

lemma map_of_obj_put: "map_of (obj_put k v kvs) k' = (if k' = k then Some v else map_of kvs k')"
  by (induction kvs) auto

lemma reinserted_id:
  "has_newDoc obj \<Longrightarrow>
   \<exists>kvs'. reinserted t obj = JObj kvs' \<and> map_of kvs' ''_id'' = Some (item_id obj)"
  by (auto simp: has_newDoc_def reinserted_def map_of_obj_put split: option.splits jsval.splits)

lemma reinsert_payload:
  assumes "collectionIndex e (collection obj)" and "has_newDoc obj"
    and "valid_id (item_id obj)" and "\<not> id_taken w obj"
  shows "process_queue e [redo_inserted_action t obj] w =
           (w\<lparr>db := (db w)(collection obj := db w (collection obj) @ [reinserted t obj])\<rparr>, None)"
proof -
  obtain kvs' where d: "reinserted t obj = JObj kvs'" and i: "map_of kvs' ''_id'' = Some (item_id obj)"
    using reinserted_id [OF assms(2)] by blast
  have "\<not> list_ex (\<lambda>x. field x ''_id'' = item_id obj) (db w (collection obj))"
    using assms(3,4) valid_id_string [OF assms(3)]
    by (simp add: id_taken_def list_ex_iff)
  then show ?thesis
    using assms(1,3)
    by (simp add: redo_inserted_action_def index_insert_def coll_insert_def d i)
qed

text \<open>
  C3. For a logged-in user, a selected record with its ledger, items that name
  registered collections, and inserted items that hold their recorded \<open>newDoc\<close>: when a
  document of the id of an inserted item exists, the method marks the record
  \<open>expired\<close>, applies no queued action (the document store is as before) and returns
  \<open>true\<close>. Otherwise the result is that of running every queued action in order and
  clearing \<open>undone\<close>, returning \<open>false\<close>; the action of an inserted item is the insert
  of its recorded \<open>newDoc\<close> with the ids of the transaction and of the document, which
  for a ledger of one inserted item adds that document to the collection.
\<close>

theorem redo_reinserts_or_expires:
  assumes "\<not> noUser e" and "redo_select e i w = Some lu" and "tx_items lu = Some its"
    and "registered e its" and "payload_recorded its"
  shows
   "(redo_expired w its \<longrightarrow>
       meteorTransactionsRedo e i w = (mark_expired (tx_id lu) w, Inr (JBool True)) \<and>
       db (fst (meteorTransactionsRedo e i w)) = db w) \<and>
    (\<not> redo_expired w its \<longrightarrow>
       meteorTransactionsRedo e i w =
         (case process_queue e (redo_queue w (tx_id lu) its) w of
            (w2, Some er) \<Rightarrow> (w2, Inl er)
          | (w2, None) \<Rightarrow>
              (Transactions_update (tx_id lu) (\<lambda>r. r\<lparr>undone := None\<rparr>) w2,
               Inr (JBool False)))) \<and>
    (\<not> redo_expired w its \<and> items_of (removed its) = [] \<and> items_of (updated its) = [] \<and>
     items_of (inserted its) = [obj] \<and> valid_id (item_id obj) \<longrightarrow>
       snd (meteorTransactionsRedo e i w) = Inr (JBool False) \<and>
       db (fst (meteorTransactionsRedo e i w)) (collection obj) =
         db w (collection obj) @ [reinserted (tx_id lu) obj] \<and>
       transactions (fst (meteorTransactionsRedo e i w)) =
         Transactions_modify (tx_id lu) (\<lambda>r. r\<lparr>undone := None\<rparr>) (transactions w))"
proof (intro conjI impI)
  assume "redo_expired w its"
  with redo_result [OF assms]
  show "meteorTransactionsRedo e i w = (mark_expired (tx_id lu) w, Inr (JBool True))"
    and "db (fst (meteorTransactionsRedo e i w)) = db w"
    by simp_all
next
  assume "\<not> redo_expired w its"
  with redo_result [OF assms]
  show "meteorTransactionsRedo e i w =
         (case process_queue e (redo_queue w (tx_id lu) its) w of
            (w2, Some er) \<Rightarrow> (w2, Inl er)
          | (w2, None) \<Rightarrow>
              (Transactions_update (tx_id lu) (\<lambda>r. r\<lparr>undone := None\<rparr>) w2,
               Inr (JBool False)))"
    by simp
next
  assume a: "\<not> redo_expired w its \<and> items_of (removed its) = [] \<and> items_of (updated its) = [] \<and>
     items_of (inserted its) = [obj] \<and> valid_id (item_id obj)"
  have q: "redo_queue w (tx_id lu) its = [redo_inserted_action (tx_id lu) obj]"
    using a by (simp add: redo_queue_def)
  have reg: "collectionIndex e (collection obj)"
    using assms(4) a by (simp add: registered_def)
  have pay: "has_newDoc obj"
    using assms(5) a by (simp add: payload_recorded_def)
  have free: "\<not> id_taken w obj"
    using a by (auto simp: redo_expired_def)
  have res: "meteorTransactionsRedo e i w =
      (Transactions_update (tx_id lu) (\<lambda>r. r\<lparr>undone := None\<rparr>)
         (w\<lparr>db := (db w)(collection obj := db w (collection obj) @ [reinserted (tx_id lu) obj])\<rparr>),
       Inr (JBool False))"
    using redo_result [OF assms] a reinsert_payload [OF reg pay _ free, of "tx_id lu"]
    by (simp add: q)
  show "snd (meteorTransactionsRedo e i w) = Inr (JBool False)"
    by (simp add: res)
  show "db (fst (meteorTransactionsRedo e i w)) (collection obj) =
         db w (collection obj) @ [reinserted (tx_id lu) obj]"
    by (simp add: res Transactions_update_def)
  show "transactions (fst (meteorTransactionsRedo e i w)) =
         Transactions_modify (tx_id lu) (\<lambda>r. r\<lparr>undone := None\<rparr>) (transactions w)"
    by (simp add: res Transactions_update_def)
qed

lemma example_undo:
  "db (fst (meteorTransactionsUndo example_env None committed_world)) = db undone_world \<and>
   transactions (fst (meteorTransactionsUndo example_env None committed_world)) =
     transactions undone_world"
  by (auto simp: meteorTransactionsUndo_def undo_build_def undo_inserted_item_def
        undone_world_def undone_record_def undo_defs findOne_def index_remove_def coll_remove_def
        Let_def fun_eq_iff)

lemmas redo_defs =
  undone_world_def retaken_world_def undone_record_def redo_expired_def id_taken_def
  reinserted_def payload_recorded_def has_newDoc_def

theorem redo_reinserts_or_expires_witness:
  "redo_select example_env None undone_world = Some undone_record \<and>
   payload_recorded inserted_ledger \<and>
   \<not> redo_expired undone_world inserted_ledger \<and>
   snd (meteorTransactionsRedo example_env None undone_world) = Inr (JBool False) \<and>
   db (fst (meteorTransactionsRedo example_env None undone_world)) ''docs'' =
     [JObj [(''title'', JStr ''A''), (''transaction_id'', JStr ''i''), (''_id'', JStr ''ii'')]] \<and>
   map undone (transactions (fst (meteorTransactionsRedo example_env None undone_world))) =
     [None] \<and>
   redo_expired retaken_world inserted_ledger \<and>
   snd (meteorTransactionsRedo example_env None retaken_world) = Inr (JBool True) \<and>
   db (fst (meteorTransactionsRedo example_env None retaken_world)) = db retaken_world \<and>
   map expired (transactions (fst (meteorTransactionsRedo example_env None retaken_world))) =
     [True]"
proof -
  let ?obj = "make_item ''docs'' (JStr ''ii'')
      (NewDocData (JObj [(''title'', JStr ''A''), (''transaction_id'', JStr ''i'')])) True"
  have nu: "\<not> noUser example_env" by (simp add: undo_defs)
  have sel: "redo_select example_env None undone_world = Some undone_record"
    by (simp add: undo_defs redo_defs)
  have sel': "redo_select example_env None retaken_world = Some undone_record"
    by (simp add: undo_defs redo_defs)
  have its: "tx_items undone_record = Some inserted_ledger"
    by (simp add: undone_record_def inserted_record_def)
  have reg: "registered example_env inserted_ledger"
    by (simp add: undo_defs)
  have pay: "payload_recorded inserted_ledger"
    by (simp add: undo_defs redo_defs)
  have t: "tx_id undone_record = ''i''" by (simp add: undone_record_def inserted_record_def)
  have fresh: "\<not> redo_expired undone_world inserted_ledger"
    by (simp add: undo_defs redo_defs)
  have stale: "redo_expired retaken_world inserted_ledger"
    by (simp add: undo_defs redo_defs)
  have only: "items_of (removed inserted_ledger) = []" "items_of (updated inserted_ledger) = []"
    "items_of (inserted inserted_ledger) = [?obj]"
    "valid_id (item_id ?obj)" "collection ?obj = ''docs''"
    by (simp_all add: undo_defs)
  note good = redo_reinserts_or_expires [OF nu sel its reg pay, of ?obj, unfolded t]
  note bad = redo_reinserts_or_expires [OF nu sel' its reg pay, of ?obj, unfolded t]
  from good fresh only
  have g1: "snd (meteorTransactionsRedo example_env None undone_world) = Inr (JBool False)"
    and g2: "db (fst (meteorTransactionsRedo example_env None undone_world)) (collection ?obj) =
         db undone_world (collection ?obj) @ [reinserted ''i'' ?obj]"
    and g3: "transactions (fst (meteorTransactionsRedo example_env None undone_world)) =
         Transactions_modify ''i'' (\<lambda>r. r\<lparr>undone := None\<rparr>) (transactions undone_world)"
    by blast+
  have g2': "db (fst (meteorTransactionsRedo example_env None undone_world)) ''docs'' =
     [JObj [(''title'', JStr ''A''), (''transaction_id'', JStr ''i''), (''_id'', JStr ''ii'')]]"
    using g2 by (simp add: undo_defs redo_defs)
  have g3': "map undone (transactions (fst (meteorTransactionsRedo example_env None undone_world))) =
     [None]"
    unfolding g3 by (simp add: undo_defs redo_defs)
  from bad stale
  have b0: "meteorTransactionsRedo example_env None retaken_world =
      (mark_expired ''i'' retaken_world, Inr (JBool True))"
    and b2: "db (fst (meteorTransactionsRedo example_env None retaken_world)) = db retaken_world"
    by blast+
  have b1: "snd (meteorTransactionsRedo example_env None retaken_world) = Inr (JBool True)"
    by (simp add: b0)
  have b3: "map expired (transactions (fst (meteorTransactionsRedo example_env None retaken_world))) =
     [True]"
    unfolding b0 by (simp add: undo_defs redo_defs)
  from sel pay fresh g1 g2' g3' stale b1 b2 b3 show ?thesis by simp
qed

end
